theory Spec2Isabelle
  imports Complex_Main
begin

section \<open>Numeric model\<close>

text \<open>
  The library computes in single-precision \<open>float\<close> on Eigen's dense vectors and
  matrices.  An Eigen vector is a list of numbers and an Eigen matrix the list of its rows.
  Eigen's own operations (sum, product, transpose, norm, determinant, blocks, columns) are
  written out on these lists.  Entries are read by index, as the source does; the source
  checks no dimension, and the theorems below name the dimensions they rely on.

  Two readings of \<open>float\<close> are used.  The kinematics, dynamics, trajectory and control
  functions read every \<open>float\<close> as a \<^typ>\<open>real\<close> (exact arithmetic, no rounding, no NaN or
  infinity).  \<open>AxisAng6\<close>, \<open>DistanceToSO3\<close> and \<open>TestIfSO3\<close>, whose branches turn on whether a
  computed norm or determinant is zero or positive, are modelled in binary32 arithmetic:
  section \<open>Single-precision arithmetic\<close> below.
\<close>

type_synonym vec = "real list"
type_synonym mat = "real list list"

definition dot :: "vec \<Rightarrow> vec \<Rightarrow> real" where
  "dot u v = sum_list (map2 (*) u v)"

definition vnorm :: "vec \<Rightarrow> real" where
  "vnorm v = sqrt (dot v v)"

definition vadd :: "vec \<Rightarrow> vec \<Rightarrow> vec" where
  "vadd u v = map2 (+) u v"

definition vsub :: "vec \<Rightarrow> vec \<Rightarrow> vec" where
  "vsub u v = map2 (-) u v"

definition smult :: "real \<Rightarrow> vec \<Rightarrow> vec" where
  "smult c v = map ((*) c) v"

definition vzero :: "nat \<Rightarrow> vec" where
  "vzero n = replicate n 0"

definition mcol :: "mat \<Rightarrow> nat \<Rightarrow> vec" where
  "mcol A j = map (\<lambda>r. r ! j) A"

definition set_col :: "mat \<Rightarrow> nat \<Rightarrow> vec \<Rightarrow> mat" where
  "set_col A j v = map2 (\<lambda>r x. r[j := x]) A v"

definition ncols :: "mat \<Rightarrow> nat" where
  "ncols A = (case A of [] \<Rightarrow> 0 | r # _ \<Rightarrow> length r)"

definition mtranspose :: "mat \<Rightarrow> mat" where
  "mtranspose A = map (mcol A) [0..<ncols A]"

definition mv :: "mat \<Rightarrow> vec \<Rightarrow> vec" where
  "mv A x = map (\<lambda>r. dot r x) A"

definition mm :: "mat \<Rightarrow> mat \<Rightarrow> mat" where
  "mm A B = map (\<lambda>r. map (\<lambda>j. dot r (mcol B j)) [0..<ncols B]) A"

definition madd :: "mat \<Rightarrow> mat \<Rightarrow> mat" where
  "madd A B = map2 vadd A B"

definition msub :: "mat \<Rightarrow> mat \<Rightarrow> mat" where
  "msub A B = map2 vsub A B"

definition mscale :: "real \<Rightarrow> mat \<Rightarrow> mat" where
  "mscale c A = map (smult c) A"

definition mnorm :: "mat \<Rightarrow> real" where
  "mnorm A = sqrt (sum_list (map (\<lambda>r. dot r r) A))"

definition Identity :: "nat \<Rightarrow> mat" where
  "Identity n = map (\<lambda>i. map (\<lambda>j. if i = j then 1 else 0) [0..<n]) [0..<n]"

definition Zero :: "nat \<Rightarrow> nat \<Rightarrow> mat" where
  "Zero r c = replicate r (replicate c 0)"

definition block :: "mat \<Rightarrow> nat \<Rightarrow> nat \<Rightarrow> nat \<Rightarrow> nat \<Rightarrow> mat" where
  "block A i j p q = map (\<lambda>a. map (\<lambda>b. A ! (i + a) ! (j + b)) [0..<q]) [0..<p]"

definition hcat :: "mat \<Rightarrow> mat \<Rightarrow> mat" where
  "hcat A B = map2 (@) A B"


definition determinant3 :: "mat \<Rightarrow> real" where
  "determinant3 M =
     M ! 0 ! 0 * (M ! 1 ! 1 * M ! 2 ! 2 - M ! 1 ! 2 * M ! 2 ! 1)
   - M ! 0 ! 1 * (M ! 1 ! 0 * M ! 2 ! 2 - M ! 1 ! 2 * M ! 2 ! 0)
   + M ! 0 ! 2 * (M ! 1 ! 0 * M ! 2 ! 1 - M ! 1 ! 1 * M ! 2 ! 0)"


section \<open>Single-precision arithmetic\<close>

text \<open>
  A \<open>float\<close> value is a finite real, an infinity or NaN.  \<open>fl\<close> rounds a real to the nearest
  binary32 number, ties to the even significand: for \<open>x\<close> with binary exponent \<open>e\<close> (at least
  \<open>-126\<close>, so that small values fall on the subnormal grid of spacing \<open>2\<^sup>-\<^sup>1\<^sup>4\<^sup>9\<close>) the
  result is the multiple of \<open>2\<^sup>e\<^sup>-\<^sup>2\<^sup>3\<close> nearest to \<open>x\<close>, and a result of magnitude \<open>2\<^sup>1\<^sup>2\<^sup>8\<close> or
  more is an infinity.  The sign of a zero is not kept.  The operations are the IEEE 754
  ones: the exact result rounded, with the usual rules for infinities and NaN; a comparison
  with NaN is false.
\<close>

datatype fval = Fin real | PInf | NInf | NaN

definition round_even :: "real \<Rightarrow> int" where
  "round_even y =
     (let f = \<lfloor>y\<rfloor>
      in if y - of_int f < 1 / 2 then f
         else if 1 / 2 < y - of_int f then f + 1
         else if even f then f else f + 1)"

definition fl :: "real \<Rightarrow> fval" where
  "fl x =
     (if x = 0 then Fin 0
      else
        let e = max (- 126) \<lfloor>log 2 \<bar>x\<bar>\<rfloor>;
            u = 2 powr (of_int e - 23);
            r = of_int (round_even (x / u)) * u
        in if 2 ^ 128 \<le> \<bar>r\<bar> then (if 0 < x then PInf else NInf) else Fin r)"

fun fneg :: "fval \<Rightarrow> fval" where
  "fneg (Fin x) = Fin (- x)"
| "fneg PInf = NInf"
| "fneg NInf = PInf"
| "fneg NaN = NaN"

fun fadd :: "fval \<Rightarrow> fval \<Rightarrow> fval" where
  "fadd (Fin x) (Fin y) = fl (x + y)"
| "fadd NaN b = NaN"
| "fadd a NaN = NaN"
| "fadd PInf NInf = NaN"
| "fadd NInf PInf = NaN"
| "fadd PInf b = PInf"
| "fadd NInf b = NInf"
| "fadd a PInf = PInf"
| "fadd a NInf = NInf"

definition fsub :: "fval \<Rightarrow> fval \<Rightarrow> fval" where
  "fsub a b = fadd a (fneg b)"

definition signed_inf :: "bool \<Rightarrow> fval" where
  "signed_inf positive = (if positive then PInf else NInf)"

fun fmul :: "fval \<Rightarrow> fval \<Rightarrow> fval" where
  "fmul (Fin x) (Fin y) = fl (x * y)"
| "fmul NaN b = NaN"
| "fmul a NaN = NaN"
| "fmul (Fin x) PInf = (if x = 0 then NaN else signed_inf (0 < x))"
| "fmul (Fin x) NInf = (if x = 0 then NaN else signed_inf (x < 0))"
| "fmul PInf (Fin y) = (if y = 0 then NaN else signed_inf (0 < y))"
| "fmul NInf (Fin y) = (if y = 0 then NaN else signed_inf (y < 0))"
| "fmul PInf PInf = PInf"
| "fmul NInf NInf = PInf"
| "fmul PInf NInf = NInf"
| "fmul NInf PInf = NInf"

fun fdiv :: "fval \<Rightarrow> fval \<Rightarrow> fval" where
  "fdiv (Fin x) (Fin y) =
     (if y = 0 then (if x = 0 then NaN else signed_inf (0 < x)) else fl (x / y))"
| "fdiv NaN b = NaN"
| "fdiv a NaN = NaN"
| "fdiv (Fin x) PInf = Fin 0"
| "fdiv (Fin x) NInf = Fin 0"
| "fdiv PInf (Fin y) = signed_inf (0 \<le> y)"
| "fdiv NInf (Fin y) = signed_inf (y < 0)"
| "fdiv PInf PInf = NaN"
| "fdiv PInf NInf = NaN"
| "fdiv NInf PInf = NaN"
| "fdiv NInf NInf = NaN"

fun fsqrt :: "fval \<Rightarrow> fval" where
  "fsqrt (Fin x) = (if x < 0 then NaN else fl (sqrt x))"
| "fsqrt PInf = PInf"
| "fsqrt NInf = NaN"
| "fsqrt NaN = NaN"

fun fabs :: "fval \<Rightarrow> fval" where
  "fabs (Fin x) = Fin \<bar>x\<bar>"
| "fabs PInf = PInf"
| "fabs NInf = PInf"
| "fabs NaN = NaN"

fun flt :: "fval \<Rightarrow> fval \<Rightarrow> bool" where
  "flt (Fin x) (Fin y) \<longleftrightarrow> x < y"
| "flt NaN b \<longleftrightarrow> False"
| "flt a NaN \<longleftrightarrow> False"
| "flt PInf b \<longleftrightarrow> False"
| "flt a NInf \<longleftrightarrow> False"
| "flt NInf b \<longleftrightarrow> True"
| "flt a PInf \<longleftrightarrow> True"

definition fgt :: "fval \<Rightarrow> fval \<Rightarrow> bool" where
  "fgt a b \<longleftrightarrow> flt b a"

definition fNearZero :: "fval \<Rightarrow> bool" where
  "fNearZero val \<longleftrightarrow> flt (fabs val) (Fin (1 / 1000000))"

text \<open>
  Eigen's \<open>norm()\<close> of a \<open>Vector3f\<close> is the square root of the sum of the squares, and a sum
  of floats is taken term by term (\<open>fsum\<close>).  The order in which Eigen adds is not fixed by
  this source; the sums are taken from left to right.
\<close>

definition Vector3f_norm :: "real \<Rightarrow> real \<Rightarrow> real \<Rightarrow> fval" where
  "Vector3f_norm x y z =
     fsqrt (fadd (fadd (fmul (Fin x) (Fin x)) (fmul (Fin y) (Fin y))) (fmul (Fin z) (Fin z)))"

fun fsum :: "fval list \<Rightarrow> fval" where
  "fsum [] = Fin 0"
| "fsum (x # xs) = foldl fadd x xs"

text \<open>
  The values a rounded result that is not negative can take (\<open>nonneg_float\<close>), and the same
  with NaN allowed (\<open>not_negative\<close>); they are used in the proofs only.
\<close>

definition nonneg_float :: "fval \<Rightarrow> bool" where
  "nonneg_float v \<longleftrightarrow> v = PInf \<or> (\<exists>r. v = Fin r \<and> (r = 0 \<or> 2 powr (- 149) \<le> r))"

definition not_negative :: "fval \<Rightarrow> bool" where
  "not_negative v \<longleftrightarrow> v = NaN \<or> nonneg_float v"

section \<open>Lie-group primitives\<close>

definition NearZero :: "real \<Rightarrow> bool" where
  "NearZero val \<longleftrightarrow> \<bar>val\<bar> < 1 / 1000000"

text \<open>Eigen's \<open>normalize\<close> leaves a vector of norm zero as it is.\<close>

definition Normalize :: "vec \<Rightarrow> vec" where
  "Normalize V = (if 0 < dot V V then map (\<lambda>x. x / vnorm V) V else V)"

definition VecToso3 :: "vec \<Rightarrow> mat" where
  "VecToso3 omg =
     [[0, - (omg ! 2), omg ! 1], [omg ! 2, 0, - (omg ! 0)], [- (omg ! 1), omg ! 0, 0]]"

definition ad :: "vec \<Rightarrow> mat" where
  "ad V =
     (let omgmat = VecToso3 [V ! 0, V ! 1, V ! 2]
      in hcat omgmat (Zero 3 3) @ hcat (VecToso3 [V ! 3, V ! 4, V ! 5]) omgmat)"

definition so3ToVec :: "mat \<Rightarrow> vec" where
  "so3ToVec so3mat = [so3mat ! 2 ! 1, so3mat ! 0 ! 2, so3mat ! 1 ! 0]"

definition AxisAng3 :: "vec \<Rightarrow> vec" where
  "AxisAng3 expc3 = Normalize expc3 @ [vnorm expc3]"

definition MatrixExp3 :: "mat \<Rightarrow> mat" where
  "MatrixExp3 so3mat =
     (let omgtheta = so3ToVec so3mat;
          m_ret = Identity 3
      in if NearZero (mnorm so3mat) then m_ret
         else
           let theta = AxisAng3 omgtheta ! 3;
               omgmat = mscale (1 / theta) so3mat
           in madd (madd m_ret (mscale (sin theta) omgmat))
                (mscale (1 - cos theta) (mm omgmat omgmat)))"




definition RpToTrans :: "mat \<Rightarrow> vec \<Rightarrow> mat" where
  "RpToTrans R p = hcat R (map (\<lambda>x. [x]) p) @ [[0, 0, 0, 1]]"

definition TransToRp :: "mat \<Rightarrow> mat \<times> vec" where
  "TransToRp T = (block T 0 0 3 3, [T ! 0 ! 3, T ! 1 ! 3, T ! 2 ! 3])"

definition VecTose3 :: "vec \<Rightarrow> mat" where
  "VecTose3 V =
     (let exp = [V ! 0, V ! 1, V ! 2];
          linear = [V ! 3, V ! 4, V ! 5]
      in hcat (VecToso3 exp) (map (\<lambda>x. [x]) linear) @ [[0, 0, 0, 0]])"

definition Adjoint :: "mat \<Rightarrow> mat" where
  "Adjoint T =
     (let (R, p) = TransToRp T;
          zeroes = Zero 3 3
      in hcat R zeroes @ hcat (mm (VecToso3 p) R) R)"

definition MatrixExp6 :: "mat \<Rightarrow> mat" where
  "MatrixExp6 se3mat =
     (let se3mat_cut = block se3mat 0 0 3 3;
          omgtheta = so3ToVec se3mat_cut
      in if NearZero (vnorm omgtheta)
         then hcat (Identity 3) (map (\<lambda>x. [x]) [se3mat ! 0 ! 3, se3mat ! 1 ! 3, se3mat ! 2 ! 3])
              @ [[0, 0, 0, 1]]
         else
           let theta = AxisAng3 omgtheta ! 3;
               omgmat = mscale (1 / theta) (block se3mat 0 0 3 3);
               expExpand = madd (madd (mscale theta (Identity 3)) (mscale (1 - cos theta) omgmat))
                             (mscale (theta - sin theta) (mm omgmat omgmat));
               linear = [se3mat ! 0 ! 3, se3mat ! 1 ! 3, se3mat ! 2 ! 3];
               GThetaV = smult (1 / theta) (mv expExpand linear)
           in hcat (MatrixExp3 se3mat_cut) (map (\<lambda>x. [x]) GThetaV) @ [[0, 0, 0, 1]])"

definition TransInv :: "mat \<Rightarrow> mat" where
  "TransInv transform =
     (let rp = TransToRp transform;
          Rt = mtranspose (fst rp);
          t = smult (- 1) (mv Rt (snd rp))
      in hcat Rt (map (\<lambda>x. [x]) t) @ [[0, 0, 0, 1]])"

text \<open>
  \<open>DistanceToSO3\<close> and \<open>TestIfSO3\<close> in single precision.  Eigen's determinant of a fixed
  3x3 matrix is the cofactor expansion along the first row (\<open>det3_helper\<close> is one of its
  three terms).  \<open>fmtranspose\<close>, \<open>fmm\<close>, \<open>fmsub\<close>, \<open>fIdentity\<close> and \<open>fmnorm\<close> are Eigen's
  transpose, product, difference, identity and Frobenius norm on matrices of floats, every
  arithmetic operation rounded; \<open>to_float\<close> reads a matrix of binary32 entries.  The literal
  \<open>1.0e9\<close> is a binary32 number.
\<close>

definition det3_helper :: "mat \<Rightarrow> nat \<Rightarrow> nat \<Rightarrow> nat \<Rightarrow> fval" where
  "det3_helper M a b c =
     fmul (Fin (M ! 0 ! a))
       (fsub (fmul (Fin (M ! 1 ! b)) (Fin (M ! 2 ! c))) (fmul (Fin (M ! 1 ! c)) (Fin (M ! 2 ! b))))"

definition Matrix3f_determinant :: "mat \<Rightarrow> fval" where
  "Matrix3f_determinant M =
     fadd (fsub (det3_helper M 0 1 2) (det3_helper M 1 0 2)) (det3_helper M 2 0 1)"

type_synonym fvec = "fval list"
type_synonym fmat = "fval list list"

definition to_float :: "mat \<Rightarrow> fmat" where
  "to_float M = map (map Fin) M"

definition fmcol :: "fmat \<Rightarrow> nat \<Rightarrow> fvec" where
  "fmcol A j = map (\<lambda>r. r ! j) A"

definition fncols :: "fmat \<Rightarrow> nat" where
  "fncols A = (case A of [] \<Rightarrow> 0 | r # _ \<Rightarrow> length r)"

definition fmtranspose :: "fmat \<Rightarrow> fmat" where
  "fmtranspose A = map (fmcol A) [0..<fncols A]"

definition fdot :: "fvec \<Rightarrow> fvec \<Rightarrow> fval" where
  "fdot u v = fsum (map2 fmul u v)"

definition fmm :: "fmat \<Rightarrow> fmat \<Rightarrow> fmat" where
  "fmm A B = map (\<lambda>r. map (\<lambda>j. fdot r (fmcol B j)) [0..<fncols B]) A"

definition fmsub :: "fmat \<Rightarrow> fmat \<Rightarrow> fmat" where
  "fmsub A B = map2 (map2 fsub) A B"

definition fIdentity :: "nat \<Rightarrow> fmat" where
  "fIdentity n = map (\<lambda>i. map (\<lambda>j. Fin (if i = j then 1 else 0)) [0..<n]) [0..<n]"

definition fmnorm :: "fmat \<Rightarrow> fval" where
  "fmnorm A = fsqrt (fsum (map (\<lambda>x. fmul x x) (concat A)))"

definition DistanceToSO3 :: "mat \<Rightarrow> fval" where
  "DistanceToSO3 M =
     (if fgt (Matrix3f_determinant M) (Fin 0)
      then fmnorm (fmsub (fmm (fmtranspose (to_float M)) (to_float M)) (fIdentity 3))
      else Fin 1000000000)"

definition TestIfSO3 :: "mat \<Rightarrow> bool" where
  "TestIfSO3 M \<longleftrightarrow> flt (fabs (DistanceToSO3 M)) (Fin (1 / 1000))"

text \<open>
  \<open>AxisAng6\<close> divides by \<open>theta\<close> without a test.  \<open>AxisAng6_theta\<close> is the divisor the
  source computes, in single precision; in \<open>AxisAng6\<close> the value \<open>None\<close> stands for the
  division of the whole vector by zero.
\<close>

definition AxisAng6_theta :: "vec \<Rightarrow> fval" where
  "AxisAng6_theta expc6 =
     (let theta = Vector3f_norm (expc6 ! 0) (expc6 ! 1) (expc6 ! 2)
      in if fNearZero theta then Vector3f_norm (expc6 ! 3) (expc6 ! 4) (expc6 ! 5) else theta)"

definition AxisAng6 :: "vec \<Rightarrow> fval list option" where
  "AxisAng6 expc6 =
     (let theta = AxisAng6_theta expc6
      in if theta = Fin 0 then None
         else Some (map (\<lambda>x. fdiv (Fin x) theta) expc6 @ [theta]))"

section \<open>Kinematics\<close>

text \<open>The loop of \<open>FKinSpace\<close> runs \<open>i\<close> from the last joint down to 0.\<close>

definition FKinSpace :: "mat \<Rightarrow> mat \<Rightarrow> vec \<Rightarrow> mat" where
  "FKinSpace M Slist thetaList =
     fold (\<lambda>i T. mm (MatrixExp6 (VecTose3 (smult (thetaList ! i) (mcol Slist i)))) T)
       (rev [0..<length thetaList]) M"

text \<open>
  \<open>joint_exp\<close> names the factor \<open>exp([S\<^sub>i] \<theta>\<^sub>i)\<close> of the product of exponentials, the
  matrix the loop of \<open>FKinSpace\<close> multiplies by for joint \<open>i\<close> (joints counted from 0).
\<close>

definition joint_exp :: "mat \<Rightarrow> vec \<Rightarrow> nat \<Rightarrow> mat" where
  "joint_exp Slist thetaList i = MatrixExp6 (VecTose3 (smult (thetaList ! i) (mcol Slist i)))"

section \<open>Dynamics\<close>

text \<open>
  The working variables of \<open>InverseDynamics\<close>.  The matrices \<open>Ai\<close>, \<open>Vi\<close> and \<open>Vdi\<close> are only
  read and written one column at a time; each is kept as the list of its columns.
\<close>

record newton_euler =
  Mi :: mat
  Ai :: "vec list"
  AdTi :: "mat list"
  Vi :: "vec list"
  Vdi :: "vec list"

definition newton_euler_init :: "nat \<Rightarrow> vec \<Rightarrow> mat list \<Rightarrow> newton_euler" where
  "newton_euler_init n g Mlist =
     \<lparr> Mi = Identity 4,
       Ai = replicate n (vzero 6),
       AdTi = (replicate (n + 1) (Zero 6 6))[n := Adjoint (TransInv (Mlist ! n))],
       Vi = replicate (n + 1) (vzero 6),
       Vdi = (replicate (n + 1) (vzero 6))[0 := [0, 0, 0, - (g ! 0), - (g ! 1), - (g ! 2)]] \<rparr>"

definition forward_pass :: "vec \<Rightarrow> vec \<Rightarrow> vec \<Rightarrow> mat list \<Rightarrow> mat \<Rightarrow> nat \<Rightarrow> newton_euler \<Rightarrow> newton_euler"
  where
  "forward_pass thetalist dthetalist ddthetalist Mlist Slist i s =
     (let Mi' = mm (Mi s) (Mlist ! i);
          A = mv (Adjoint (TransInv Mi')) (mcol Slist i);
          AdT = Adjoint (mm (MatrixExp6 (VecTose3 (smult (- (thetalist ! i)) A)))
                           (TransInv (Mlist ! i)));
          V = vadd (mv AdT (Vi s ! i)) (smult (dthetalist ! i) A);
          Vd = vadd (vadd (mv AdT (Vdi s ! i)) (smult (ddthetalist ! i) A))
                 (smult (dthetalist ! i) (mv (ad V) A))
      in s\<lparr> Mi := Mi', Ai := (Ai s)[i := A], AdTi := (AdTi s)[i := AdT],
             Vi := (Vi s)[i + 1 := V], Vdi := (Vdi s)[i + 1 := Vd] \<rparr>)"

definition backward_pass :: "mat list \<Rightarrow> newton_euler \<Rightarrow> nat \<Rightarrow> vec \<times> vec \<Rightarrow> vec \<times> vec" where
  "backward_pass Glist s i = (\<lambda>(Fi, taulist).
     let Fi' = vsub (vadd (mv (mtranspose (AdTi s ! (i + 1))) Fi) (mv (Glist ! i) (Vdi s ! (i + 1))))
                 (mv (mtranspose (ad (Vi s ! (i + 1)))) (mv (Glist ! i) (Vi s ! (i + 1))))
     in (Fi', taulist[i := dot Fi' (Ai s ! i)]))"

definition InverseDynamics ::
  "vec \<Rightarrow> vec \<Rightarrow> vec \<Rightarrow> vec \<Rightarrow> vec \<Rightarrow> mat list \<Rightarrow> mat list \<Rightarrow> mat \<Rightarrow> vec" where
  "InverseDynamics thetalist dthetalist ddthetalist g Ftip Mlist Glist Slist =
     (let n = length thetalist;
          s = fold (forward_pass thetalist dthetalist ddthetalist Mlist Slist) [0..<n]
                (newton_euler_init n g Mlist)
      in snd (fold (backward_pass Glist s) (rev [0..<n]) (Ftip, vzero n)))"

text \<open>
  The quantities the two passes of \<open>InverseDynamics\<close> compute, as recurrences over the link
  index: the cumulative home transform \<open>Mi\<close> after \<open>i\<close> iterations, the screw axis \<open>Ai.col(i)\<close>,
  the adjoint \<open>AdTi[i]\<close> (for \<open>i = n\<close> the one set before the loops), the twists
  \<open>Vi.col(i)\<close> and \<open>Vdi.col(i)\<close>, and the wrench \<open>Fi\<close> after \<open>d\<close> iterations of the backward
  loop, which is the wrench on link \<open>n - d\<close>.  They are proved below to be what the loops
  store.
\<close>

fun Mcum :: "mat list \<Rightarrow> nat \<Rightarrow> mat" where
  "Mcum Mlist 0 = Identity 4"
| "Mcum Mlist (Suc i) = mm (Mcum Mlist i) (Mlist ! i)"

definition A_link :: "mat list \<Rightarrow> mat \<Rightarrow> nat \<Rightarrow> vec" where
  "A_link Mlist Slist i = mv (Adjoint (TransInv (Mcum Mlist (Suc i)))) (mcol Slist i)"

definition AdT_link :: "vec \<Rightarrow> mat list \<Rightarrow> mat \<Rightarrow> nat \<Rightarrow> mat" where
  "AdT_link thetalist Mlist Slist i =
     (if i = length thetalist then Adjoint (TransInv (Mlist ! i))
      else Adjoint (mm (MatrixExp6 (VecTose3 (smult (- (thetalist ! i)) (A_link Mlist Slist i))))
                      (TransInv (Mlist ! i))))"

fun V_link :: "vec \<Rightarrow> vec \<Rightarrow> mat list \<Rightarrow> mat \<Rightarrow> nat \<Rightarrow> vec" where
  "V_link thetalist dthetalist Mlist Slist 0 = vzero 6"
| "V_link thetalist dthetalist Mlist Slist (Suc i) =
     vadd (mv (AdT_link thetalist Mlist Slist i) (V_link thetalist dthetalist Mlist Slist i))
       (smult (dthetalist ! i) (A_link Mlist Slist i))"

fun Vd_link :: "vec \<Rightarrow> vec \<Rightarrow> vec \<Rightarrow> vec \<Rightarrow> mat list \<Rightarrow> mat \<Rightarrow> nat \<Rightarrow> vec" where
  "Vd_link thetalist dthetalist ddthetalist g Mlist Slist 0 =
     [0, 0, 0, - (g ! 0), - (g ! 1), - (g ! 2)]"
| "Vd_link thetalist dthetalist ddthetalist g Mlist Slist (Suc i) =
     vadd (vadd (mv (AdT_link thetalist Mlist Slist i)
                   (Vd_link thetalist dthetalist ddthetalist g Mlist Slist i))
             (smult (ddthetalist ! i) (A_link Mlist Slist i)))
       (smult (dthetalist ! i)
          (mv (ad (V_link thetalist dthetalist Mlist Slist (Suc i))) (A_link Mlist Slist i)))"

fun F_link ::
  "vec \<Rightarrow> vec \<Rightarrow> vec \<Rightarrow> vec \<Rightarrow> vec \<Rightarrow> mat list \<Rightarrow> mat list \<Rightarrow> mat \<Rightarrow> nat \<Rightarrow> vec" where
  "F_link thetalist dthetalist ddthetalist g Ftip Mlist Glist Slist 0 = Ftip"
| "F_link thetalist dthetalist ddthetalist g Ftip Mlist Glist Slist (Suc d) =
     (let i = length thetalist - Suc d
      in vsub (vadd (mv (mtranspose (AdT_link thetalist Mlist Slist (i + 1)))
                       (F_link thetalist dthetalist ddthetalist g Ftip Mlist Glist Slist d))
                 (mv (Glist ! i) (Vd_link thetalist dthetalist ddthetalist g Mlist Slist (i + 1))))
           (mv (mtranspose (ad (V_link thetalist dthetalist Mlist Slist (i + 1))))
              (mv (Glist ! i) (V_link thetalist dthetalist Mlist Slist (i + 1)))))"

declare V_link.simps [simp del] Vd_link.simps [simp del] F_link.simps [simp del]

definition GravityForces :: "vec \<Rightarrow> vec \<Rightarrow> mat list \<Rightarrow> mat list \<Rightarrow> mat \<Rightarrow> vec" where
  "GravityForces thetalist g Mlist Glist Slist =
     (let n = length thetalist;
          dummylist = vzero n;
          dummyForce = vzero 6
      in InverseDynamics thetalist dummylist dummylist g dummyForce Mlist Glist Slist)"

definition MassMatrix :: "vec \<Rightarrow> mat list \<Rightarrow> mat list \<Rightarrow> mat \<Rightarrow> mat" where
  "MassMatrix thetalist Mlist Glist Slist =
     (let n = length thetalist;
          dummylist = vzero n;
          dummyg = vzero 3;
          dummyforce = vzero 6
      in fold (\<lambda>i M.
                 let ddthetalist = (vzero n)[i := 1]
                 in set_col M i (InverseDynamics thetalist dummylist ddthetalist dummyg dummyforce
                                   Mlist Glist Slist))
           [0..<n] (Zero n n))"

definition VelQuadraticForces :: "vec \<Rightarrow> vec \<Rightarrow> mat list \<Rightarrow> mat list \<Rightarrow> mat \<Rightarrow> vec" where
  "VelQuadraticForces thetalist dthetalist Mlist Glist Slist =
     (let n = length thetalist;
          dummylist = vzero n;
          dummyg = vzero 3;
          dummyforce = vzero 6
      in InverseDynamics thetalist dthetalist dummylist dummyg dummyforce Mlist Glist Slist)"

definition EndEffectorForces :: "vec \<Rightarrow> vec \<Rightarrow> mat list \<Rightarrow> mat list \<Rightarrow> mat \<Rightarrow> vec" where
  "EndEffectorForces thetalist Ftip Mlist Glist Slist =
     (let n = length thetalist;
          dummylist = vzero n;
          dummyg = vzero 3
      in InverseDynamics thetalist dummylist dummylist dummyg Ftip Mlist Glist Slist)"

text \<open>
  The solve \<open>M.ldlt().solve(totalForce)\<close> is Eigen's; it is the parameter \<open>ldlt_solve\<close>.
\<close>

definition ForwardDynamics ::
  "(mat \<Rightarrow> vec \<Rightarrow> vec) \<Rightarrow> vec \<Rightarrow> vec \<Rightarrow> vec \<Rightarrow> vec \<Rightarrow> vec \<Rightarrow> mat list \<Rightarrow> mat list \<Rightarrow> mat \<Rightarrow> vec"
  where
  "ForwardDynamics ldlt_solve thetalist dthetalist taulist g Ftip Mlist Glist Slist =
     (let totalForce =
            vsub (vsub (vsub taulist (VelQuadraticForces thetalist dthetalist Mlist Glist Slist))
                    (GravityForces thetalist g Mlist Glist Slist))
              (EndEffectorForces thetalist Ftip Mlist Glist Slist);
          M = MassMatrix thetalist Mlist Glist Slist
      in ldlt_solve M totalForce)"

definition EulerStep :: "vec \<Rightarrow> vec \<Rightarrow> vec \<Rightarrow> real \<Rightarrow> vec \<times> vec" where
  "EulerStep thetalist dthetalist ddthetalist dt =
     (vadd thetalist (smult dt dthetalist), vadd dthetalist (smult dt ddthetalist))"

section \<open>Trajectory generation\<close>

definition CubicTimeScaling :: "real \<Rightarrow> real \<Rightarrow> real" where
  "CubicTimeScaling Tf t =
     (let timeratio = 1 * t / Tf in 3 * timeratio ^ 2 - 2 * timeratio ^ 3)"

definition QuinticTimeScaling :: "real \<Rightarrow> real \<Rightarrow> real" where
  "QuinticTimeScaling Tf t =
     (let timeratio = 1 * t / Tf
      in 10 * timeratio ^ 3 - 15 * timeratio ^ 4 + 6 * timeratio ^ 5)"

section \<open>Control\<close>

definition ComputedTorque ::
  "vec \<Rightarrow> vec \<Rightarrow> vec \<Rightarrow> vec \<Rightarrow> mat list \<Rightarrow> mat list \<Rightarrow> mat \<Rightarrow> vec \<Rightarrow> vec \<Rightarrow> vec
     \<Rightarrow> real \<Rightarrow> real \<Rightarrow> real \<Rightarrow> vec" where
  "ComputedTorque thetalist dthetalist eint g Mlist Glist Slist thetalistd dthetalistd ddthetalistd
       Kp Ki Kd =
     (let e = vsub thetalistd thetalist;
          tau_feedforward =
            mv (MassMatrix thetalist Mlist Glist Slist)
              (vadd (vadd (smult Kp e) (smult Ki (vadd eint e)))
                 (smult Kd (vsub dthetalistd dthetalist)));
          Ftip = vzero 6;
          tau_inversedyn = InverseDynamics thetalist dthetalist ddthetalistd g Ftip Mlist Glist Slist
      in vadd tau_feedforward tau_inversedyn)"

text \<open>
  The control law as the specification words it, with the integral gain applied to the
  accumulated error \<open>eint\<close> alone; \<open>ComputedTorque\<close> above is the source.
\<close>

definition ComputedTorque_spec ::
  "vec \<Rightarrow> vec \<Rightarrow> vec \<Rightarrow> vec \<Rightarrow> mat list \<Rightarrow> mat list \<Rightarrow> mat \<Rightarrow> vec \<Rightarrow> vec \<Rightarrow> vec
     \<Rightarrow> real \<Rightarrow> real \<Rightarrow> real \<Rightarrow> vec" where
  "ComputedTorque_spec thetalist dthetalist eint g Mlist Glist Slist thetalistd dthetalistd
       ddthetalistd Kp Ki Kd =
     (let e = vsub thetalistd thetalist
      in vadd (mv (MassMatrix thetalist Mlist Glist Slist)
                 (vadd (vadd (smult Kp e) (smult Ki eint)) (smult Kd (vsub dthetalistd dthetalist))))
           (InverseDynamics thetalist dthetalist ddthetalistd g (vzero 6) Mlist Glist Slist))"

text \<open>
  The state of the loop of \<open>SimulateControl\<close>.  The matrices of desired joint values have
  one row per time step, so the column \<open>i\<close> of their transpose is their row \<open>i\<close>; the
  output matrices \<open>taumatT\<close> and \<open>thetamatT\<close> are kept as the lists of their columns.
\<close>

record control_state =
  thetacurrent :: vec
  dthetacurrent :: vec
  eint_acc :: vec
  taumatT :: "vec list"
  thetamatT :: "vec list"

definition control_step ::
  "(mat \<Rightarrow> vec \<Rightarrow> vec) \<Rightarrow> vec \<Rightarrow> mat \<Rightarrow> mat list \<Rightarrow> mat list \<Rightarrow> mat \<Rightarrow> mat \<Rightarrow> mat \<Rightarrow> mat
     \<Rightarrow> vec \<Rightarrow> mat list \<Rightarrow> mat list \<Rightarrow> real \<Rightarrow> real \<Rightarrow> real \<Rightarrow> real \<Rightarrow> int
     \<Rightarrow> nat \<Rightarrow> control_state \<Rightarrow> control_state" where
  "control_step ldlt_solve g Ftipmat Mlist Glist Slist thetamatd dthetamatd ddthetamatd
       gtilde Mtildelist Gtildelist Kp Ki Kd dt intRes i s =
     (let taulist = ComputedTorque (thetacurrent s) (dthetacurrent s) (eint_acc s) gtilde
                      Mtildelist Gtildelist Slist (thetamatd ! i) (dthetamatd ! i)
                      (ddthetamatd ! i) Kp Ki Kd;
          (th, dth) =
             fold (\<lambda>j (th, dth).
                     let ddthetalist = ForwardDynamics ldlt_solve th dth taulist g (Ftipmat ! i)
                                         Mlist Glist Slist
                     in EulerStep th dth ddthetalist (dt / real_of_int intRes))
               [0..<nat intRes] (thetacurrent s, dthetacurrent s)
      in s\<lparr> thetacurrent := th, dthetacurrent := dth,
             taumatT := (taumatT s)[i := taulist],
             thetamatT := (thetamatT s)[i := th],
             eint_acc := vadd (eint_acc s) (smult dt (vsub (thetamatd ! i) th)) \<rparr>)"

definition SimulateControl ::
  "(mat \<Rightarrow> vec \<Rightarrow> vec) \<Rightarrow> vec \<Rightarrow> vec \<Rightarrow> vec \<Rightarrow> mat \<Rightarrow> mat list \<Rightarrow> mat list \<Rightarrow> mat \<Rightarrow> mat \<Rightarrow> mat
     \<Rightarrow> mat \<Rightarrow> vec \<Rightarrow> mat list \<Rightarrow> mat list \<Rightarrow> real \<Rightarrow> real \<Rightarrow> real \<Rightarrow> real \<Rightarrow> int
     \<Rightarrow> mat \<times> mat" where
  "SimulateControl ldlt_solve thetalist dthetalist g Ftipmat Mlist Glist Slist thetamatd dthetamatd
       ddthetamatd gtilde Mtildelist Gtildelist Kp Ki Kd dt intRes =
     (let m = ncols thetamatd;
          n = length thetamatd;
          s0 = \<lparr> thetacurrent = thetalist, dthetacurrent = dthetalist, eint_acc = vzero m,
                 taumatT = replicate n (vzero m), thetamatT = replicate n (vzero m) \<rparr>;
          s = fold (control_step ldlt_solve g Ftipmat Mlist Glist Slist thetamatd dthetamatd
                      ddthetamatd gtilde Mtildelist Gtildelist Kp Ki Kd dt intRes) [0..<n] s0
      in (taumatT s, thetamatT s))"

text \<open>
  The state of the loop of \<open>SimulateControl\<close> when its counter \<open>i\<close> has reached \<open>k\<close>.
\<close>

definition SimulateControl_state ::
  "(mat \<Rightarrow> vec \<Rightarrow> vec) \<Rightarrow> vec \<Rightarrow> vec \<Rightarrow> vec \<Rightarrow> mat \<Rightarrow> mat list \<Rightarrow> mat list \<Rightarrow> mat \<Rightarrow> mat \<Rightarrow> mat
     \<Rightarrow> mat \<Rightarrow> vec \<Rightarrow> mat list \<Rightarrow> mat list \<Rightarrow> real \<Rightarrow> real \<Rightarrow> real \<Rightarrow> real \<Rightarrow> int
     \<Rightarrow> nat \<Rightarrow> control_state" where
  "SimulateControl_state ldlt_solve thetalist dthetalist g Ftipmat Mlist Glist Slist thetamatd
       dthetamatd ddthetamatd gtilde Mtildelist Gtildelist Kp Ki Kd dt intRes k =
     fold (control_step ldlt_solve g Ftipmat Mlist Glist Slist thetamatd dthetamatd
             ddthetamatd gtilde Mtildelist Gtildelist Kp Ki Kd dt intRes) [0..<k]
       \<lparr> thetacurrent = thetalist, dthetacurrent = dthetalist,
         eint_acc = vzero (ncols thetamatd),
         taumatT = replicate (length thetamatd) (vzero (ncols thetamatd)),
         thetamatT = replicate (length thetamatd) (vzero (ncols thetamatd)) \<rparr>"

section \<open>Properties of matrices and models\<close>

text \<open>
  A square matrix of size \<open>n\<close>, symmetry and positive definiteness of a matrix given by its
  rows, and a home transform: a 4x4 matrix with last row \<open>(0, 0, 0, 1)\<close> whose rotation
  block \<open>R\<close> is orthogonal (\<open>R R\<^sup>T = I\<close>).
\<close>

definition is_square :: "nat \<Rightarrow> mat \<Rightarrow> bool" where
  "is_square n A \<longleftrightarrow> length A = n \<and> (\<forall>r\<in>set A. length r = n)"

definition is_symmetric :: "mat \<Rightarrow> bool" where
  "is_symmetric A \<longleftrightarrow> (\<forall>i<length A. \<forall>j<length A. A ! i ! j = A ! j ! i)"

definition positive_definite :: "mat \<Rightarrow> bool" where
  "positive_definite A \<longleftrightarrow>
     (\<forall>x. length x = length A \<and> x \<noteq> vzero (length A) \<longrightarrow> 0 < dot x (mv A x))"

definition is_transform :: "mat \<Rightarrow> bool" where
  "is_transform T \<longleftrightarrow>
     is_square 4 T \<and> T ! 3 = [0, 0, 0, 1]
     \<and> mm (block T 0 0 3 3) (mtranspose (block T 0 0 3 3)) = Identity 3"

text \<open>The transpose of the rotation block of \<open>T\<close> maps no 3-vector but zero to zero.\<close>

definition rot_inj :: "mat \<Rightarrow> bool" where
  "rot_inj T \<longleftrightarrow> (\<forall>w0 w1 w2. mv (mtranspose (block T 0 0 3 3)) [w0, w1, w2] = [0, 0, 0]
                      \<longrightarrow> w0 = 0 \<and> w1 = 0 \<and> w2 = 0)"

section \<open>The three-joint chain of the validation harness\<close>

text \<open>
  The fixture of \<open>MRTest.InverseDynamicsTest\<close>: four home transforms, three diagonal
  spatial inertias and the matrix \<open>Slist\<close>, the transpose of the 3x6 matrix the test
  writes down; the decimal literals are read as the rationals they denote.
\<close>

definition M01 :: mat where
  "M01 = [[1, 0, 0, 0], [0, 1, 0, 0], [0, 0, 1, 89159 / 1000000], [0, 0, 0, 1]]"

definition M12 :: mat where
  "M12 = [[0, 0, 1, 28 / 100], [0, 1, 0, 13585 / 100000], [- 1, 0, 0, 0], [0, 0, 0, 1]]"

definition M23 :: mat where
  "M23 = [[1, 0, 0, 0], [0, 1, 0, - (1197 / 10000)], [0, 0, 1, 395 / 1000], [0, 0, 0, 1]]"

definition M34 :: mat where
  "M34 = [[1, 0, 0, 0], [0, 1, 0, 0], [0, 0, 1, 14225 / 100000], [0, 0, 0, 1]]"

definition asDiagonal6 :: "vec \<Rightarrow> mat" where
  "asDiagonal6 d =
     [[d ! 0, 0, 0, 0, 0, 0], [0, d ! 1, 0, 0, 0, 0], [0, 0, d ! 2, 0, 0, 0],
      [0, 0, 0, d ! 3, 0, 0], [0, 0, 0, 0, d ! 4, 0], [0, 0, 0, 0, 0, d ! 5]]"

definition G1 :: vec where
  "G1 = [10267 / 1000000, 10267 / 1000000, 666 / 100000, 37 / 10, 37 / 10, 37 / 10]"

definition G2 :: vec where
  "G2 = [22689 / 100000, 22689 / 100000, 151074 / 10000000, 8393 / 1000, 8393 / 1000, 8393 / 1000]"

definition G3 :: vec where
  "G3 = [494433 / 10000000, 494433 / 10000000, 4095 / 1000000, 2275 / 1000, 2275 / 1000, 2275 / 1000]"

definition test_Mlist :: "mat list" where
  "test_Mlist = [M01, M12, M23, M34]"

definition test_Glist :: "mat list" where
  "test_Glist = [asDiagonal6 G1, asDiagonal6 G2, asDiagonal6 G3]"

definition test_SlistT :: mat where
  "test_SlistT = [[1, 0, 1, 0, 1, 0], [0, 1, 0, - (89 / 1000), 0, 0], [0, 1, 0, - (89 / 1000), 0, 425 / 1000]]"

definition test_Slist :: mat where
  "test_Slist = mtranspose test_SlistT"

text \<open>
  The inputs of the inverse-dynamics test of the validation harness, and short names for the
  quantities of the Newton-Euler recursion on this chain.
\<close>

definition test_thetalist :: vec where
  "test_thetalist = [1 / 10, 1 / 10, 1 / 10]"

definition test_dthetalist :: vec where
  "test_dthetalist = [1 / 10, 2 / 10, 3 / 10]"

definition test_ddthetalist :: vec where
  "test_ddthetalist = [2, 15 / 10, 1]"

definition test_g :: vec where
  "test_g = [0, 0, - (98 / 10)]"

definition test_Ftip :: vec where
  "test_Ftip = [1, 1, 1, 1, 1, 1]"

abbreviation test_A :: "nat \<Rightarrow> vec" where
  "test_A i \<equiv> A_link test_Mlist test_Slist i"

abbreviation test_AdT :: "nat \<Rightarrow> mat" where
  "test_AdT i \<equiv> AdT_link test_thetalist test_Mlist test_Slist i"

abbreviation test_V :: "nat \<Rightarrow> vec" where
  "test_V i \<equiv> V_link test_thetalist test_dthetalist test_Mlist test_Slist i"

abbreviation test_Vd :: "nat \<Rightarrow> vec" where
  "test_Vd i \<equiv> Vd_link test_thetalist test_dthetalist test_ddthetalist test_g test_Mlist test_Slist i"

abbreviation test_F :: "nat \<Rightarrow> vec" where
  "test_F d \<equiv> F_link test_thetalist test_dthetalist test_ddthetalist test_g test_Ftip test_Mlist
     test_Glist test_Slist d"

section \<open>Enclosures\<close>

text \<open>
  \<open>vnear r v c\<close> says that the vectors \<open>v\<close> and \<open>c\<close> have the same length and differ by at
  most \<open>r\<close> in every entry, \<open>mnear\<close> says the same of two matrices, and \<open>l1\<close> is the sum of
  the absolute values of the entries.  They are used to enclose the real numbers that
  \<open>InverseDynamics\<close> computes on the chain above between rationals.
\<close>

definition vnear :: "real \<Rightarrow> vec \<Rightarrow> vec \<Rightarrow> bool" where
  "vnear r v c = list_all2 (\<lambda>x y. \<bar>x - y\<bar> \<le> r) v c"

definition mnear :: "real \<Rightarrow> mat \<Rightarrow> mat \<Rightarrow> bool" where
  "mnear r A C = list_all2 (vnear r) A C"

definition l1 :: "vec \<Rightarrow> real" where
  "l1 v = sum_list (map abs v)"

section \<open>Basic facts\<close>

lemma dot_self_nonneg: "0 \<le> dot v v"
  unfolding dot_def by (induction v) auto

lemma dot_self_eq_0_iff: "dot v v = 0 \<longleftrightarrow> (\<forall>x \<in> set v. x = 0)"
proof (induction v)
  case Nil
  show ?case by (simp add: dot_def)
next
  case (Cons a v)
  have "0 \<le> dot v v" by (rule dot_self_nonneg)
  moreover have "dot (a # v) (a # v) = a * a + dot v v" by (simp add: dot_def)
  moreover have "0 \<le> a * a" by simp
  ultimately have "dot (a # v) (a # v) = 0 \<longleftrightarrow> a = 0 \<and> dot v v = 0"
    by (simp add: add_nonneg_eq_0_iff)
  with Cons show ?case by simp
qed

lemma vnorm_nonneg: "0 \<le> vnorm v"
  by (simp add: vnorm_def dot_self_nonneg)

lemma vnorm_eq_0_iff: "vnorm v = 0 \<longleftrightarrow> (\<forall>x \<in> set v. x = 0)"
  by (simp add: vnorm_def dot_self_eq_0_iff)

lemma mnorm_nonneg: "0 \<le> mnorm A"
  unfolding mnorm_def by (auto intro!: sum_list_nonneg simp: dot_self_nonneg)

section \<open>Time scaling\<close>

text \<open>
  Claim C9.  For every final time \<open>Tf > 0\<close> the cubic and the quintic time scaling are 0
  at \<open>t = 0\<close> and 1 at \<open>t = Tf\<close>, and they compute \<open>3r\<^sup>2 - 2r\<^sup>3\<close> and
  \<open>10r\<^sup>3 - 15r\<^sup>4 + 6r\<^sup>5\<close> with \<open>r = t / Tf\<close>.
\<close>

theorem time_scaling_boundary:
  assumes "0 < Tf"
  shows "CubicTimeScaling Tf 0 = 0 \<and> CubicTimeScaling Tf Tf = 1
       \<and> QuinticTimeScaling Tf 0 = 0 \<and> QuinticTimeScaling Tf Tf = 1
       \<and> CubicTimeScaling Tf t = 3 * (t / Tf) ^ 2 - 2 * (t / Tf) ^ 3
       \<and> QuinticTimeScaling Tf t = 10 * (t / Tf) ^ 3 - 15 * (t / Tf) ^ 4 + 6 * (t / Tf) ^ 5"
  using assms by (simp add: CubicTimeScaling_def QuinticTimeScaling_def Let_def)

theorem time_scaling_boundary_witness:
  "CubicTimeScaling 2 0 = 0 \<and> CubicTimeScaling 2 2 = 1
       \<and> QuinticTimeScaling 2 0 = 0 \<and> QuinticTimeScaling 2 2 = 1
       \<and> CubicTimeScaling 2 (3 / 5) = 3 * ((3 / 5) / 2) ^ 2 - 2 * ((3 / 5) / 2) ^ 3
       \<and> QuinticTimeScaling 2 (3 / 5)
           = 10 * ((3 / 5) / 2) ^ 3 - 15 * ((3 / 5) / 2) ^ 4 + 6 * ((3 / 5) / 2) ^ 5"
  using time_scaling_boundary [of 2 "3 / 5"] by simp

section \<open>Single-precision rounding\<close>

lemma round_even_eq_0_iff: "round_even y = 0 \<longleftrightarrow> \<bar>y\<bar> \<le> 1 / 2"
proof
  assume z: "round_even y = 0"
  define f where "f = \<lfloor>y\<rfloor>"
  have b: "of_int f \<le> y" "y < of_int f + 1" unfolding f_def by linarith+
  from z have "f = 0 \<and> y - of_int f \<le> 1 / 2 \<or> f = - 1 \<and> 1 / 2 \<le> y - of_int f"
    unfolding round_even_def Let_def f_def [symmetric]
    by (auto split: if_splits)
  then show "\<bar>y\<bar> \<le> 1 / 2" using b by auto
next
  assume a: "\<bar>y\<bar> \<le> 1 / 2"
  consider "y < - (1 / 2)" | "y = - (1 / 2)" | "- (1 / 2) < y \<and> y < 0" | "0 \<le> y \<and> y < 1 / 2" | "y = 1 / 2"
    | "1 / 2 < y" by linarith
  then show "round_even y = 0"
  proof cases
    case 1 then show ?thesis using a by linarith
  next
    case 2
    have "\<lfloor>y\<rfloor> = - 1" unfolding 2 by (simp add: floor_eq_iff)
    then show ?thesis unfolding round_even_def Let_def by (simp add: 2)
  next
    case 3
    have "\<lfloor>y\<rfloor> = - 1" using 3 by (simp add: floor_eq_iff)
    then show ?thesis unfolding round_even_def Let_def using 3 by simp
  next
    case 4
    have "\<lfloor>y\<rfloor> = 0" using 4 by (simp add: floor_eq_iff)
    then show ?thesis unfolding round_even_def Let_def using 4 by simp
  next
    case 5
    have "\<lfloor>y\<rfloor> = 0" unfolding 5 by (simp add: floor_eq_iff)
    then show ?thesis unfolding round_even_def Let_def by (simp add: 5)
  next
    case 6 then show ?thesis using a by linarith
  qed
qed

lemma round_even_nonneg: "0 \<le> y \<Longrightarrow> 0 \<le> round_even y"
  unfolding round_even_def Let_def by (auto simp: not_less)

lemma round_even_of_int: "round_even (of_int n) = n"
  unfolding round_even_def Let_def by simp

lemma fl_0 [simp]: "fl 0 = Fin 0"
  by (simp add: fl_def)

lemma ulp_ge: "2 powr (- 149) \<le> 2 powr (of_int (max (- 126) e) - 23 :: real)"
  by (rule powr_mono) auto

lemma fl_eq_0_iff: "fl x = Fin 0 \<longleftrightarrow> \<bar>x\<bar> \<le> 2 powr (- 150)"
proof (cases "x = 0")
  case True
  then show ?thesis by simp
next
  case False
  define e where "e = max (- 126) \<lfloor>log 2 \<bar>x\<bar>\<rfloor>"
  define u :: real where "u = 2 powr (of_int e - 23)"
  have upos: "0 < u" by (simp add: u_def)
  have flx: "fl x = (if 2 ^ 128 \<le> \<bar>of_int (round_even (x / u)) * u\<bar>
      then (if 0 < x then PInf else NInf) else Fin (of_int (round_even (x / u)) * u))"
    using False by (simp add: fl_def Let_def e_def u_def)
  have zero: "fl x = Fin 0 \<longleftrightarrow> \<bar>x\<bar> \<le> u / 2"
  proof -
    have "fl x = Fin 0 \<longleftrightarrow> round_even (x / u) = 0"
      unfolding flx using upos by (auto split: if_splits)
    also have "\<dots> \<longleftrightarrow> \<bar>x / u\<bar> \<le> 1 / 2" by (rule round_even_eq_0_iff)
    also have "\<dots> \<longleftrightarrow> \<bar>x\<bar> \<le> u / 2"
      using upos by (simp add: abs_divide field_simps)
    finally show ?thesis .
  qed
  show ?thesis
  proof (cases "\<lfloor>log 2 \<bar>x\<bar>\<rfloor> < - 126")
    case True
    then have e: "e = - 126" by (simp add: e_def)
    have u: "u = 2 powr (- 149)" by (simp add: u_def e)
    have "2 powr (- 149) / 2 = (2::real) powr (- 150)"
      using powr_add [of "2::real" "- 150" 1] by simp
    then show ?thesis unfolding zero u by simp
  next
    case f: False
    then have e: "e = \<lfloor>log 2 \<bar>x\<bar>\<rfloor>" by (simp add: e_def)
    have "of_int e \<le> log 2 \<bar>x\<bar>" unfolding e by linarith
    then have "2 powr (of_int e) \<le> 2 powr (log 2 \<bar>x\<bar>)" by (simp only: powr_le_cancel_iff)
    then have lo: "2 powr (of_int e) \<le> \<bar>x\<bar>" using False by simp
    have "u < 2 powr (of_int e)" unfolding u_def by (rule powr_less_mono) auto
    then have nz: "\<not> \<bar>x\<bar> \<le> u / 2" using lo upos by linarith
    have "- 126 \<le> log 2 \<bar>x\<bar>" using f by linarith
    then have "2 powr (- 126) \<le> 2 powr (log 2 \<bar>x\<bar>)" by (simp only: powr_le_cancel_iff)
    then have "2 powr (- 126) \<le> \<bar>x\<bar>" using False by simp
    moreover have "(2::real) powr (- 150) < 2 powr (- 126)" by (rule powr_less_mono) auto
    ultimately have "\<not> \<bar>x\<bar> \<le> 2 powr (- 150)" by linarith
    then show ?thesis using zero nz by simp
  qed
qed

lemma fl_nonneg: "0 \<le> x \<Longrightarrow> nonneg_float (fl x)"
proof (cases "x = 0")
  case True
  then show ?thesis by (simp add: nonneg_float_def)
next
  case False
  assume "0 \<le> x"
  then have pos: "0 < x" using False by simp
  define e where "e = max (- 126) \<lfloor>log 2 \<bar>x\<bar>\<rfloor>"
  define u :: real where "u = 2 powr (of_int e - 23)"
  define n where "n = round_even (x / u)"
  have upos: "0 < u" by (simp add: u_def)
  have uge: "2 powr (- 149) \<le> u" unfolding u_def e_def by (rule ulp_ge)
  have flx: "fl x = (if 2 ^ 128 \<le> \<bar>of_int n * u\<bar> then PInf else Fin (of_int n * u))"
    using False pos by (simp add: fl_def Let_def e_def u_def n_def)
  have n0: "0 \<le> n" unfolding n_def using pos upos by (intro round_even_nonneg) simp
  have "of_int n * u = 0 \<or> 2 powr (- 149) \<le> of_int n * u"
  proof (cases "n = 0")
    case True
    then show ?thesis by simp
  next
    case False
    then have "1 \<le> n" using n0 by simp
    then have "1 * u \<le> of_int n * u" using upos by (intro mult_right_mono) auto
    then show ?thesis using uge by simp
  qed
  then show ?thesis unfolding flx nonneg_float_def by auto
qed

lemma fl_pow2:
  assumes "- 126 \<le> k" and "k \<le> 127"
  shows "fl (2 powr of_int k) = Fin (2 powr of_int k)"
proof -
  have nz: "(2::real) powr of_int k \<noteq> 0" by simp
  have lg: "\<lfloor>log 2 \<bar>2 powr of_int k\<bar>\<rfloor> = k" by simp
  have e: "max (- 126) k = k" using assms by simp
  have q: "2 powr of_int k / 2 powr (of_int k - 23) = (of_int 8388608 :: real)"
    using powr_diff [of "2::real" "of_int k" "of_int k - 23", symmetric]
      powr_realpow [of "2::real" 23] by simp
  have r: "of_int (8388608::int) * 2 powr (of_int k - 23) = (2::real) powr of_int k"
    using q by (simp add: field_simps)
  have "(2::real) powr of_int k \<le> 2 powr 127" using assms by (intro powr_mono) auto
  also have "\<dots> < 2 powr 128" by (rule powr_less_mono) auto
  also have "\<dots> = 2 ^ 128" using powr_realpow [of "2::real" 128] by simp
  finally have small: "\<not> 2 ^ 128 \<le> \<bar>(2::real) powr of_int k\<bar>" by simp
  show ?thesis
    unfolding fl_def Let_def lg e q round_even_of_int r using nz small by simp
qed

lemma nonneg_float_cases:
  assumes "nonneg_float v"
  obtains "v = PInf" | "v = Fin 0" | r where "v = Fin r" "2 powr (- 149) \<le> r"
  using assms unfolding nonneg_float_def by auto

lemma pow_small: "(2::real) powr (- 150) < 2 powr (- 149)"
  by (rule powr_less_mono) auto

lemma fadd_nonneg:
  assumes "nonneg_float a" and "nonneg_float b"
  shows "nonneg_float (fadd a b)" and "fadd a b = Fin 0 \<longleftrightarrow> a = Fin 0 \<and> b = Fin 0"
proof -
  have "nonneg_float (fadd a b) \<and> (fadd a b = Fin 0 \<longleftrightarrow> a = Fin 0 \<and> b = Fin 0)"
  proof (rule nonneg_float_cases [OF assms(1)]; rule nonneg_float_cases [OF assms(2)])
    fix r s :: real
    assume a: "a = Fin r" "2 powr (- 149) \<le> r" and b: "b = Fin s" "2 powr (- 149) \<le> s"
    have p: "0 < (2::real) powr (- 149)" by simp
    have rs: "0 < r" "0 < s" using a b p by linarith+
    then have "0 \<le> r + s" by linarith
    then have n: "nonneg_float (fl (r + s))" by (rule fl_nonneg)
    have "\<not> \<bar>r + s\<bar> \<le> 2 powr (- 150)" using a b p pow_small by linarith
    then show ?thesis using n a b rs by (simp add: fl_eq_0_iff)
  next
    fix r :: real
    assume a: "a = Fin r" "2 powr (- 149) \<le> r" and b: "b = Fin 0"
    have p: "0 < (2::real) powr (- 149)" by simp
    have rs: "0 < r" using a p by linarith
    then have "0 \<le> r" by linarith
    then have n: "nonneg_float (fl r)" by (rule fl_nonneg)
    have "\<not> \<bar>r\<bar> \<le> 2 powr (- 150)" using a p pow_small by linarith
    then show ?thesis using n a b rs by (simp add: fl_eq_0_iff)
  next
    fix s :: real
    assume a: "a = Fin 0" and b: "b = Fin s" "2 powr (- 149) \<le> s"
    have p: "0 < (2::real) powr (- 149)" by simp
    have rs: "0 < s" using b p by linarith
    then have "0 \<le> s" by linarith
    then have n: "nonneg_float (fl s)" by (rule fl_nonneg)
    have "\<not> \<bar>s\<bar> \<le> 2 powr (- 150)" using b p pow_small by linarith
    then show ?thesis using n a b rs by (simp add: fl_eq_0_iff)
  qed (auto simp: nonneg_float_def)
  then show "nonneg_float (fadd a b)" and "fadd a b = Fin 0 \<longleftrightarrow> a = Fin 0 \<and> b = Fin 0"
    by blast+
qed

lemma fsqrt_nonneg:
  assumes "nonneg_float a"
  shows "nonneg_float (fsqrt a)" and "fsqrt a = Fin 0 \<longleftrightarrow> a = Fin 0"
proof -
  have "nonneg_float (fsqrt a) \<and> (fsqrt a = Fin 0 \<longleftrightarrow> a = Fin 0)"
  proof (rule nonneg_float_cases [OF assms])
    fix r :: real
    assume a: "a = Fin r" "2 powr (- 149) \<le> r"
    have p: "0 < (2::real) powr (- 149)" by simp
    have rp: "0 < r" using a p by linarith
    have r0: "0 \<le> r" using rp by linarith
    have n: "nonneg_float (fl (sqrt r))" by (rule fl_nonneg) (simp add: r0)
    have "(2 powr (- 150))\<^sup>2 = (2::real) powr (- 300)"
      using powr_add [of "2::real" "- 150" "- 150"] by (simp add: power2_eq_square)
    also have "\<dots> < 2 powr (- 149)" by (rule powr_less_mono) auto
    also have "\<dots> \<le> r" by (rule a(2))
    finally have "sqrt ((2 powr (- 150))\<^sup>2) < sqrt r" by (simp only: real_sqrt_less_iff)
    then have "2 powr (- 150) < sqrt r" by simp
    then have "\<not> \<bar>sqrt r\<bar> \<le> 2 powr (- 150)" using r0 by simp
    then show ?thesis using n a rp by (simp add: fl_eq_0_iff)
  qed (auto simp: nonneg_float_def)
  then show "nonneg_float (fsqrt a)" and "fsqrt a = Fin 0 \<longleftrightarrow> a = Fin 0" by blast+
qed

lemma fsquare:
  "nonneg_float (fmul (Fin x) (Fin x))"
  "fmul (Fin x) (Fin x) = Fin 0 \<longleftrightarrow> \<bar>x\<bar> \<le> 2 powr (- 75)"
proof -
  show "nonneg_float (fmul (Fin x) (Fin x))" by (simp add: fl_nonneg)
  have e: "(2 powr (- 75))\<^sup>2 = (2::real) powr (- 150)"
    using powr_add [of "2::real" "- 75" "- 75"] by (simp add: power2_eq_square)
  have "\<bar>x * x\<bar> \<le> 2 powr (- 150) \<longleftrightarrow> x\<^sup>2 \<le> (2 powr (- 75))\<^sup>2"
    unfolding e by (simp add: power2_eq_square)
  also have "\<dots> \<longleftrightarrow> \<bar>x\<bar> \<le> \<bar>2 powr (- 75)\<bar>" by (rule abs_le_square_iff [symmetric])
  finally show "fmul (Fin x) (Fin x) = Fin 0 \<longleftrightarrow> \<bar>x\<bar> \<le> 2 powr (- 75)"
    by (simp add: fl_eq_0_iff)
qed

lemma Vector3f_norm_nonneg: "nonneg_float (Vector3f_norm x y z)"
  unfolding Vector3f_norm_def by (intro fsqrt_nonneg fadd_nonneg fsquare)

lemma Vector3f_norm_eq_0_iff:
  "Vector3f_norm x y z = Fin 0
     \<longleftrightarrow> \<bar>x\<bar> \<le> 2 powr (- 75) \<and> \<bar>y\<bar> \<le> 2 powr (- 75) \<and> \<bar>z\<bar> \<le> 2 powr (- 75)"
  unfolding Vector3f_norm_def
  by (simp add: fsqrt_nonneg(2) fadd_nonneg fsquare del: fmul.simps fadd.simps fsqrt.simps)

lemma fNearZero_0: "fNearZero (Fin 0)"
  by (simp add: fNearZero_def)

lemma fl_values:
  "fl 1 = Fin 1" "fl 2 = Fin 2" "fl 4 = Fin 4" "fl (1 / 4) = Fin (1 / 4)"
proof -
  have q: "(2::real) powr (- 2) = 1 / 4" by (simp add: powr_minus_divide)
  show "fl 1 = Fin 1" "fl 2 = Fin 2" "fl 4 = Fin 4" "fl (1 / 4) = Fin (1 / 4)"
    using fl_pow2 [of 0] fl_pow2 [of 1] fl_pow2 [of 2] fl_pow2 [of "- 2"] by (simp_all add: q)
qed

lemma not_negative_cases:
  assumes "not_negative v"
  obtains "v = NaN" | "v = PInf" | r where "v = Fin r" "0 \<le> r"
proof -
  have "0 \<le> r" if "2 powr (- 149) \<le> r" for r :: real
  proof -
    have "0 < (2::real) powr (- 149)" by simp
    then show ?thesis using that by linarith
  qed
  then show ?thesis
    using assms that unfolding not_negative_def nonneg_float_def by auto
qed

lemma fmul_self_not_negative: "not_negative (fmul x x)"
proof (cases x)
  case (Fin r)
  show ?thesis unfolding Fin not_negative_def using fsquare(1) [of r] by blast
qed (simp_all add: not_negative_def nonneg_float_def)

lemma fadd_not_negative:
  assumes "not_negative a" and "not_negative b"
  shows "not_negative (fadd a b)"
proof (rule not_negative_cases [OF assms(1)]; rule not_negative_cases [OF assms(2)])
  fix r s :: real
  assume "a = Fin r" "0 \<le> r" "b = Fin s" "0 \<le> s"
  then show ?thesis by (simp add: not_negative_def fl_nonneg)
qed (auto simp: not_negative_def nonneg_float_def)

lemma foldl_fadd_not_negative:
  "not_negative a \<Longrightarrow> \<forall>x \<in> set xs. not_negative x \<Longrightarrow> not_negative (foldl fadd a xs)"
  by (induction xs arbitrary: a) (simp_all add: fadd_not_negative)

lemma fsum_not_negative:
  assumes "\<forall>x \<in> set xs. not_negative x"
  shows "not_negative (fsum xs)"
proof (cases xs)
  case Nil
  then show ?thesis by (simp add: not_negative_def nonneg_float_def)
next
  case (Cons a as)
  then show ?thesis using assms by (simp add: foldl_fadd_not_negative)
qed

lemma fsqrt_not_negative:
  assumes "not_negative a"
  shows "not_negative (fsqrt a)"
proof (rule not_negative_cases [OF assms])
  fix r :: real
  assume "a = Fin r" "0 \<le> r"
  then show ?thesis by (simp add: not_negative_def fl_nonneg)
qed (auto simp: not_negative_def nonneg_float_def)

lemma fabs_not_negative: "not_negative v \<Longrightarrow> fabs v = v"
  by (erule not_negative_cases) simp_all

lemma fl_exact:
  assumes "2 powr of_int k \<le> \<bar>x\<bar>" and "\<bar>x\<bar> < 2 powr (of_int k + 1)"
    and "- 126 \<le> k" and "k \<le> 127" and "x = of_int m * 2 powr (of_int k - 23)"
  shows "fl x = Fin x"
proof -
  have pos: "0 < \<bar>x\<bar>" using assms(1) by (rule less_le_trans [rotated]) simp
  then have nz: "x \<noteq> 0" by simp
  have lg: "\<lfloor>log 2 \<bar>x\<bar>\<rfloor> = k"
    using floor_log_eq_powr_iff [of "\<bar>x\<bar>" 2 k] pos assms(1,2) by simp
  have e: "max (- 126) k = k" using assms by simp
  have q: "x / 2 powr (of_int k - 23) = of_int m" using assms(5) by simp
  have r: "of_int m * 2 powr (of_int k - 23) = x" using assms(5) by simp
  have "2 powr (of_int k + 1) \<le> (2::real) powr 128" using assms by (intro powr_mono) auto
  also have "\<dots> = 2 ^ 128" using powr_realpow [of "2::real" 128] by simp
  finally have small: "\<not> 2 ^ 128 \<le> \<bar>x\<bar>" using assms(2) by simp
  show ?thesis
    unfolding fl_def Let_def lg e q round_even_of_int r using nz small by simp
qed

lemma fl_3_9: "fl 3 = Fin 3" "fl 9 = Fin 9"
proof -
  have a: "(2::real) powr (- 22) = 1 / 4194304" "(2::real) powr (- 20) = 1 / 1048576"
    using powr_realpow [of "2::real" 22] powr_realpow [of "2::real" 20]
    by (simp_all add: powr_minus_divide)
  have b: "(2::real) powr 2 = 4" "(2::real) powr 3 = 8" "(2::real) powr 4 = 16"
    using powr_realpow [of "2::real" 2] powr_realpow [of "2::real" 3] powr_realpow [of "2::real" 4]
    by simp_all
  show "fl 3 = Fin 3"
  proof (rule fl_exact [where k = 1 and m = 12582912])
    show "2 powr of_int 1 \<le> \<bar>3::real\<bar>" by simp
    show "\<bar>3::real\<bar> < 2 powr (of_int 1 + 1)" using b(1) by simp
    show "(3::real) = of_int 12582912 * 2 powr (of_int 1 - 23)" using a(1) by simp
  qed simp_all
  show "fl 9 = Fin 9"
  proof (rule fl_exact [where k = 3 and m = 9437184])
    show "2 powr of_int 3 \<le> \<bar>9::real\<bar>" using b(2) by simp
    show "\<bar>9::real\<bar> < 2 powr (of_int 3 + 1)" using b(3) by simp
    show "(9::real) = of_int 9437184 * 2 powr (of_int 3 - 23)" using a(2) by simp
  qed simp_all
qed

lemma fmnorm_not_negative: "not_negative (fmnorm A)"
  unfolding fmnorm_def
  by (intro fsqrt_not_negative fsum_not_negative) (auto simp: fmul_self_not_negative)

section \<open>Screw-axis decomposition\<close>

text \<open>
  Claim C10, as the claim states it: a nonzero linear part would give a nonzero divisor.
  The input \<open>(0, 0, 0, 2\<^sup>-\<^sup>8\<^sup>0, 0, 0)\<close> has a nonzero linear part, and every entry is a
  binary32 number; the square \<open>2\<^sup>-\<^sup>1\<^sup>6\<^sup>0\<close> rounds to zero, both computed norms are zero, and
  \<open>AxisAng6\<close> divides by zero.
\<close>

theorem AxisAng6_underflow:
  "[2 powr (- 80), 0, 0] \<noteq> [0, 0, 0 :: real]
   \<and> AxisAng6 [0, 0, 0, 2 powr (- 80), 0, 0] = None"
proof -
  have s: "(2::real) powr (- 80) \<le> 2 powr (- 75)" by (rule powr_mono) auto
  have z: "Vector3f_norm 0 0 0 = Fin 0" by (simp add: Vector3f_norm_eq_0_iff)
  have l: "Vector3f_norm (2 powr (- 80)) 0 0 = Fin 0" using s by (simp add: Vector3f_norm_eq_0_iff)
  show ?thesis
    by (simp add: AxisAng6_def AxisAng6_theta_def z l fNearZero_0)
qed

text \<open>
  Claim C10, amended.  \<open>AxisAng6\<close> divides the whole 6-vector by \<open>theta\<close>, the computed norm
  of the angular part or, when that is below \<open>1e-6\<close>, the computed norm of the linear part.
  The divisor is zero exactly when the computed angular norm is below \<open>1e-6\<close> and every
  entry of the linear part has magnitude at most \<open>2\<^sup>-\<^sup>7\<^sup>5\<close> (its square rounds to zero); then
  nothing guards the division.  In every other case the result is the entrywise quotient
  followed by \<open>theta\<close>.
\<close>

theorem AxisAng6_divisor:
  "AxisAng6_theta expc6
     = (if flt (fabs (Vector3f_norm (expc6 ! 0) (expc6 ! 1) (expc6 ! 2))) (Fin (1 / 1000000))
        then Vector3f_norm (expc6 ! 3) (expc6 ! 4) (expc6 ! 5)
        else Vector3f_norm (expc6 ! 0) (expc6 ! 1) (expc6 ! 2))
   \<and> (AxisAng6_theta expc6 = Fin 0
        \<longleftrightarrow> flt (fabs (Vector3f_norm (expc6 ! 0) (expc6 ! 1) (expc6 ! 2))) (Fin (1 / 1000000))
            \<and> \<bar>expc6 ! 3\<bar> \<le> 2 powr (- 75) \<and> \<bar>expc6 ! 4\<bar> \<le> 2 powr (- 75)
            \<and> \<bar>expc6 ! 5\<bar> \<le> 2 powr (- 75))
   \<and> (AxisAng6_theta expc6 = Fin 0 \<longrightarrow> AxisAng6 expc6 = None)
   \<and> (AxisAng6_theta expc6 \<noteq> Fin 0
        \<longrightarrow> AxisAng6 expc6
            = Some (map (\<lambda>x. fdiv (Fin x) (AxisAng6_theta expc6)) expc6 @ [AxisAng6_theta expc6]))"
proof -
  let ?a = "Vector3f_norm (expc6 ! 0) (expc6 ! 1) (expc6 ! 2)"
  have "?a \<noteq> Fin 0" if "\<not> fNearZero ?a"
    using that fNearZero_0 by auto
  then show ?thesis
    by (auto simp: AxisAng6_theta_def AxisAng6_def Let_def Vector3f_norm_eq_0_iff fNearZero_def)
qed

theorem AxisAng6_divisor_witness:
  "AxisAng6 [0, 0, 0, 0, 0, 0] = None
   \<and> AxisAng6 [2, 0, 0, 4, 0, 1 / 2] = Some [Fin 1, Fin 0, Fin 0, Fin 2, Fin 0, Fin (1 / 4), Fin 2]"
proof -
  have z: "Vector3f_norm 0 0 0 = Fin 0" by (simp add: Vector3f_norm_eq_0_iff)
  have n: "Vector3f_norm 2 0 0 = Fin 2" by (simp add: Vector3f_norm_def fl_values)
  have t: "AxisAng6_theta [2, 0, 0, 4, 0, 1 / 2] = Fin 2"
    by (simp add: AxisAng6_theta_def n fNearZero_def)
  show ?thesis
    using AxisAng6_divisor [of "[0, 0, 0, 0, 0, 0]"] AxisAng6_divisor [of "[2, 0, 0, 4, 0, 1 / 2]"]
    by (simp add: z t fNearZero_0 fl_values)
qed

section \<open>Distance to the rotation group\<close>

text \<open>
  Claim C8, as the claim states it: a matrix with positive determinant would get the
  Frobenius norm of \<open>M\<^sup>T M - I\<close>.  The matrix with \<open>2\<^sup>-\<^sup>6\<^sup>0\<close> on the diagonal has the positive
  determinant \<open>2\<^sup>-\<^sup>1\<^sup>8\<^sup>0\<close> and the Frobenius distance below 2, but the computed determinant
  rounds to zero and \<open>DistanceToSO3\<close> returns the sentinel \<open>1.0e9\<close>.
\<close>

theorem DistanceToSO3_underflow:
  "0 < determinant3 [[2 powr (- 60), 0, 0], [0, 2 powr (- 60), 0], [0, 0, 2 powr (- 60)]]
   \<and> DistanceToSO3 [[2 powr (- 60), 0, 0], [0, 2 powr (- 60), 0], [0, 0, 2 powr (- 60)]]
       = Fin 1000000000
   \<and> mnorm (msub (mm (mtranspose [[2 powr (- 60), 0, 0], [0, 2 powr (- 60), 0],
                                     [0, 0, 2 powr (- 60)]])
                        [[2 powr (- 60), 0, 0], [0, 2 powr (- 60), 0], [0, 0, 2 powr (- 60)]])
                  (Identity 3)) < 2"
proof -
  define s :: real where "s = 2 powr (- 60)"
  have spos: "0 < s" by (simp add: s_def)
  have ss: "s * s = 2 powr (- 120)"
    unfolding s_def using powr_add [of "2::real" "- 60" "- 60"] by simp
  have sss: "s * 2 powr (- 120) = 2 powr (- 180)"
    unfolding s_def using powr_add [of "2::real" "- 60" "- 120"] by simp
  have f1: "fl (2 powr (- 120)) = Fin (2 powr (- 120))" using fl_pow2 [of "- 120"] by simp
  have "(2::real) powr (- 180) \<le> 2 powr (- 150)" by (rule powr_mono) auto
  then have f2: "fl (2 powr (- 180)) = Fin 0" by (simp add: fl_eq_0_iff)
  have det: "Matrix3f_determinant [[s, 0, 0], [0, s, 0], [0, 0, s]] = Fin 0"
    by (simp add: Matrix3f_determinant_def det3_helper_def fsub_def ss sss f1 f2)
  have d: "DistanceToSO3 [[s, 0, 0], [0, s, 0], [0, 0, s]] = Fin 1000000000"
    by (simp add: DistanceToSO3_def det fgt_def)
  have e: "0 < determinant3 [[s, 0, 0], [0, s, 0], [0, 0, s]]"
    using spos by (simp add: determinant3_def)
  have lt: "s * s < 1"
  proof -
    have "(2::real) powr (- 120) < 2 powr 0" by (rule powr_less_mono) auto
    then show ?thesis by (simp add: ss)
  qed
  have p0: "0 < s * s" using spos by simp
  have sq: "(s * s - 1) * (s * s - 1) < 1"
  proof -
    have "(s * s - 1) * (s * s - 1) = 1 - (s * s) * (2 - s * s)" by (simp add: algebra_simps)
    moreover have "0 < 2 - s * s" using lt by linarith
    then have "0 < (s * s) * (2 - s * s)" by (rule mult_pos_pos [OF p0])
    ultimately show ?thesis by linarith
  qed
  have "mnorm (msub (mm (mtranspose [[s, 0, 0], [0, s, 0], [0, 0, s]])
                        [[s, 0, 0], [0, s, 0], [0, 0, s]]) (Identity 3))
      = sqrt (3 * ((s * s - 1) * (s * s - 1)))"
    by (simp add: mnorm_def msub_def mm_def mtranspose_def mcol_def ncols_def Identity_def
        vsub_def dot_def upt_conv_Cons)
  also have "\<dots> < sqrt 4" using sq by (simp only: real_sqrt_less_iff)
  also have "\<dots> = 2" using real_sqrt_abs [of 2] by simp
  finally show ?thesis using d e unfolding s_def by simp
qed

text \<open>
  Claim C8, amended.  For a 3x3 matrix whose determinant as computed in single precision
  is not greater than 0 (zero, negative or NaN), \<open>DistanceToSO3\<close> returns the sentinel
  \<open>1.0e9\<close> (which is not below \<open>1e8\<close>) and \<open>TestIfSO3\<close> is false; for a matrix whose computed
  determinant is positive it returns the computed Frobenius norm of \<open>M\<^sup>T M - I\<close>, and
  \<open>TestIfSO3\<close> is true exactly when that distance is below \<open>1e-3\<close>.
\<close>

theorem DistanceToSO3_sentinel:
  "(\<not> fgt (Matrix3f_determinant M) (Fin 0)
      \<longrightarrow> DistanceToSO3 M = Fin 1000000000 \<and> \<not> flt (DistanceToSO3 M) (Fin 100000000)
        \<and> \<not> TestIfSO3 M)
   \<and> (fgt (Matrix3f_determinant M) (Fin 0)
      \<longrightarrow> DistanceToSO3 M
            = fmnorm (fmsub (fmm (fmtranspose (to_float M)) (to_float M)) (fIdentity 3))
        \<and> (TestIfSO3 M \<longleftrightarrow> flt (DistanceToSO3 M) (Fin (1 / 1000))))"
  using fabs_not_negative [OF fmnorm_not_negative
      [of "fmsub (fmm (fmtranspose (to_float M)) (to_float M)) (fIdentity 3)"]]
  by (simp add: DistanceToSO3_def TestIfSO3_def)

theorem DistanceToSO3_sentinel_witness:
  "DistanceToSO3 [[0, 0, 0], [0, 0, 0], [0, 0, 0]] = Fin 1000000000
   \<and> \<not> TestIfSO3 [[0, 0, 0], [0, 0, 0], [0, 0, 0]]
   \<and> DistanceToSO3 [[1, 0, 0], [0, 1, 0], [0, 0, 1]] = Fin 0
   \<and> TestIfSO3 [[1, 0, 0], [0, 1, 0], [0, 0, 1]]
   \<and> DistanceToSO3 [[2, 0, 0], [0, 1, 0], [0, 0, 1]] = Fin 3
   \<and> \<not> TestIfSO3 [[2, 0, 0], [0, 1, 0], [0, 0, 1]]"
proof -
  have sq: "sqrt 9 = 3" using real_sqrt_abs [of 3] by simp
  have d2: "Matrix3f_determinant [[2, 0, 0], [0, 1, 0], [0, 0, 1]] = Fin 2"
    by (simp add: Matrix3f_determinant_def det3_helper_def fsub_def fl_values)
  have n2: "fmnorm (fmsub (fmm (fmtranspose (to_float [[2, 0, 0], [0, 1, 0], [0, 0, 1]]))
                              (to_float [[2, 0, 0], [0, 1, 0], [0, 0, 1]])) (fIdentity 3)) = Fin 3"
    by (simp add: fmnorm_def fmsub_def fmm_def fmtranspose_def to_float_def fIdentity_def fdot_def
        fmcol_def fncols_def upt_conv_Cons fsub_def fl_values fl_3_9 sq)
  have d0: "Matrix3f_determinant [[0, 0, 0], [0, 0, 0], [0, 0, 0]] = Fin 0"
    by (simp add: Matrix3f_determinant_def det3_helper_def fsub_def)
  have d1: "Matrix3f_determinant [[1, 0, 0], [0, 1, 0], [0, 0, 1]] = Fin 1"
    by (simp add: Matrix3f_determinant_def det3_helper_def fsub_def fl_values)
  have n1: "fmnorm (fmsub (fmm (fmtranspose (to_float [[1, 0, 0], [0, 1, 0], [0, 0, 1]]))
                              (to_float [[1, 0, 0], [0, 1, 0], [0, 0, 1]])) (fIdentity 3)) = Fin 0"
    by (simp add: fmnorm_def fmsub_def fmm_def fmtranspose_def to_float_def fIdentity_def fdot_def
        fmcol_def fncols_def upt_conv_Cons fsub_def fl_values)
  show ?thesis
    using DistanceToSO3_sentinel [of "[[0, 0, 0], [0, 0, 0], [0, 0, 0]]"]
      DistanceToSO3_sentinel [of "[[1, 0, 0], [0, 1, 0], [0, 0, 1]]"]
      DistanceToSO3_sentinel [of "[[2, 0, 0], [0, 1, 0], [0, 0, 1]]"]
    by (simp add: d0 d1 d2 n1 n2 fgt_def)
qed

section \<open>Matrix logarithm of a rotation\<close>






section \<open>Forward kinematics in the space frame\<close>

lemma Zero_3_3: "Zero 3 3 = [[0, 0, 0], [0, 0, 0], [0, 0, 0]]"
  by (simp add: Zero_def numeral_3_eq_3)

lemmas lin_defs = dot_def vadd_def vsub_def smult_def mcol_def ncols_def mtranspose_def mv_def
  mm_def madd_def msub_def mscale_def Identity_def Zero_3_3 block_def hcat_def upt_conv_Cons

lemmas exp_defs = MatrixExp6_def VecTose3_def VecToso3_def so3ToVec_def NearZero_def vnorm_def
  AxisAng3_def Normalize_def MatrixExp3_def mnorm_def Let_def

lemma sqrt2_not_near_zero: "\<not> sqrt 2 * 1000000 < 1"
proof -
  have "1 \<le> sqrt 2" by simp
  then show ?thesis by linarith
qed

lemma cos_1_neq_1: "cos (1::real) \<noteq> 1"
proof
  assume c: "cos (1::real) = 1"
  have "(sin (1::real))\<^sup>2 + (cos 1)\<^sup>2 = 1" by simp
  with c have "sin (1::real) = 0" by simp
  moreover have "0 < sin (1::real)" by (rule sin_gt_zero_02) simp_all
  ultimately show False by simp
qed

lemma exp_rot_z_1:
  "MatrixExp6 (VecTose3 [0, 0, 1, 0, 0, 0])
     = [[cos 1, - sin 1, 0, 0], [sin 1, cos 1, 0, 0], [0, 0, 1, 0], [0, 0, 0, 1]]"
  by (simp add: exp_defs lin_defs sqrt2_not_near_zero)

lemma exp_trans_x_1:
  "MatrixExp6 (VecTose3 [0, 0, 0, 1, 0, 0])
     = [[1, 0, 0, 1], [0, 1, 0, 0], [0, 0, 1, 0], [0, 0, 0, 1]]"
  by (simp add: exp_defs lin_defs)

text \<open>
  Claim C3, as the claim states it: \<open>FKinSpace\<close> would be the product with the
  exponential of the last joint leftmost, \<open>exp([S\<^sub>n]\<theta>\<^sub>n) \<cdots> exp([S\<^sub>1]\<theta>\<^sub>1) M\<close>.  For two
  joints, a rotation about \<open>z\<close> followed by a translation along \<open>x\<close>, both by 1, and
  \<open>M\<close> the identity, the source returns a pose whose \<open>x\<close> position is \<open>cos 1\<close>, the claimed
  product one whose \<open>x\<close> position is 1.
\<close>

theorem FKinSpace_not_last_leftmost:
  "FKinSpace (Identity 4) [[0, 0], [0, 0], [1, 0], [0, 1], [0, 0], [0, 0]] [1, 1]
     = [[cos 1, - sin 1, 0, cos 1], [sin 1, cos 1, 0, sin 1], [0, 0, 1, 0], [0, 0, 0, 1]]
   \<and> foldr mm (rev (map (joint_exp [[0, 0], [0, 0], [1, 0], [0, 1], [0, 0], [0, 0]] [1, 1]) [0..<2]))
        (Identity 4)
     = [[cos 1, - sin 1, 0, 1], [sin 1, cos 1, 0, 0], [0, 0, 1, 0], [0, 0, 0, 1]]
   \<and> FKinSpace (Identity 4) [[0, 0], [0, 0], [1, 0], [0, 1], [0, 0], [0, 0]] [1, 1]
     \<noteq> foldr mm (rev (map (joint_exp [[0, 0], [0, 0], [1, 0], [0, 1], [0, 0], [0, 0]] [1, 1]) [0..<2]))
        (Identity 4)"
proof -
  have c0: "mcol [[0, 0], [0, 0], [1, 0], [0, 1], [0, 0], [0, 0]] 0 = [0, 0, 1, 0, 0, 0]"
    and c1: "mcol [[0, 0], [0, 0], [1, 0], [0, 1], [0, 0], [0, 0]] (Suc 0) = [0, 0, 0, 1, 0, 0]"
    by (simp_all add: mcol_def)
  have s: "smult 1 v = v" for v by (induction v) (simp_all add: smult_def)
  have a: "FKinSpace (Identity 4) [[0, 0], [0, 0], [1, 0], [0, 1], [0, 0], [0, 0]] [1, 1]
     = [[cos 1, - sin 1, 0, cos 1], [sin 1, cos 1, 0, sin 1], [0, 0, 1, 0], [0, 0, 0, 1]]"
    unfolding FKinSpace_def
    by (simp add: upt_conv_Cons c0 c1 s exp_rot_z_1 exp_trans_x_1)
      (simp add: lin_defs)
  have b: "foldr mm (rev (map (joint_exp [[0, 0], [0, 0], [1, 0], [0, 1], [0, 0], [0, 0]] [1, 1]) [0..<2]))
        (Identity 4)
     = [[cos 1, - sin 1, 0, 1], [sin 1, cos 1, 0, 0], [0, 0, 1, 0], [0, 0, 0, 1]]"
    by (simp add: upt_conv_Cons joint_exp_def c0 c1 s exp_rot_z_1 exp_trans_x_1)
      (simp add: lin_defs)
  show ?thesis
    unfolding a b using cos_1_neq_1 by simp
qed

text \<open>
  Claim C3, amended.  \<open>FKinSpace M Slist \<theta>\<close> is the product
  \<open>exp([S\<^sub>1]\<theta>\<^sub>1) \<cdots> exp([S\<^sub>n]\<theta>\<^sub>n) M\<close>: the exponential of the first joint is the
  leftmost factor and that of the last joint stands next to \<open>M\<close>.
\<close>

theorem FKinSpace_product:
  "FKinSpace M Slist thetaList
     = foldr mm (map (joint_exp Slist thetaList) [0..<length thetaList]) M"
proof -
  have "FKinSpace M Slist thetaList
          = foldr (\<lambda>i T. mm (joint_exp Slist thetaList i) T) [0..<length thetaList] M"
    by (simp add: FKinSpace_def joint_exp_def foldr_conv_fold)
  also have "\<dots> = foldr mm (map (joint_exp Slist thetaList) [0..<length thetaList]) M"
    by (simp add: foldr_map comp_def)
  finally show ?thesis .
qed

section \<open>Identity transforms\<close>

lemma inv_id4: "TransInv (Identity 4) = Identity 4"
  by (simp add: TransInv_def TransToRp_def lin_defs)

lemma exp_zero6: "MatrixExp6 (VecTose3 [0, 0, 0, 0, 0, 0]) = Identity 4"
  by (simp add: exp_defs lin_defs)

lemma adjoint_id4: "Adjoint (Identity 4) = Identity 6"
  by (simp add: Adjoint_def TransToRp_def VecToso3_def lin_defs)

section \<open>The Newton-Euler passes as recurrences\<close>

text \<open>
  After \<open>k\<close> iterations the forward loop has stored the recurrences up to index \<open>k\<close>, and
  after \<open>d\<close> iterations the backward loop holds the wrench on link \<open>n - d\<close> and the torques
  of the joints \<open>n - d, \<dots>, n - 1\<close>.
\<close>

lemma forward_pass_invariant:
  fixes thetalist dthetalist ddthetalist g :: vec and Mlist :: "mat list" and Slist :: mat
    and k n :: nat
  assumes "k \<le> n" "n = length thetalist"
  defines "s \<equiv> fold (forward_pass thetalist dthetalist ddthetalist Mlist Slist) [0..<k]
                 (newton_euler_init n g Mlist)"
  shows "Mi s = Mcum Mlist k \<and> length (Ai s) = n \<and> length (AdTi s) = n + 1
       \<and> length (Vi s) = n + 1 \<and> length (Vdi s) = n + 1
       \<and> (\<forall>j<k. Ai s ! j = A_link Mlist Slist j \<and> AdTi s ! j = AdT_link thetalist Mlist Slist j)
       \<and> AdTi s ! n = AdT_link thetalist Mlist Slist n
       \<and> (\<forall>j\<le>k. Vi s ! j = V_link thetalist dthetalist Mlist Slist j
                 \<and> Vdi s ! j = Vd_link thetalist dthetalist ddthetalist g Mlist Slist j)"
  using assms(1) unfolding s_def
proof (induction k)
  case 0
  show ?case
    by (simp add: newton_euler_init_def AdT_link_def assms(2) nth_list_update
        V_link.simps Vd_link.simps del: replicate.simps)
next
  case (Suc k)
  define s0 where "s0 = fold (forward_pass thetalist dthetalist ddthetalist Mlist Slist) [0..<k]
                 (newton_euler_init n g Mlist)"
  from Suc have IH: "Mi s0 = Mcum Mlist k" "length (Ai s0) = n" "length (AdTi s0) = n + 1"
    "length (Vi s0) = n + 1" "length (Vdi s0) = n + 1"
    "\<And>j. j < k \<Longrightarrow> Ai s0 ! j = A_link Mlist Slist j"
    "\<And>j. j < k \<Longrightarrow> AdTi s0 ! j = AdT_link thetalist Mlist Slist j"
    "AdTi s0 ! n = AdT_link thetalist Mlist Slist n"
    "\<And>j. j \<le> k \<Longrightarrow> Vi s0 ! j = V_link thetalist dthetalist Mlist Slist j"
    "\<And>j. j \<le> k \<Longrightarrow> Vdi s0 ! j = Vd_link thetalist dthetalist ddthetalist g Mlist Slist j"
    unfolding s0_def by auto
  have kn: "k < n" using Suc.prems by simp
  have step: "fold (forward_pass thetalist dthetalist ddthetalist Mlist Slist) [0..<Suc k]
                 (newton_euler_init n g Mlist)
              = forward_pass thetalist dthetalist ddthetalist Mlist Slist k s0"
    by (simp add: s0_def)
  have A: "mv (Adjoint (TransInv (mm (Mcum Mlist k) (Mlist ! k)))) (mcol Slist k) = A_link Mlist Slist k"
    by (simp add: A_link_def)
  have T: "Adjoint (mm (MatrixExp6 (VecTose3 (smult (- (thetalist ! k)) (A_link Mlist Slist k))))
                      (TransInv (Mlist ! k))) = AdT_link thetalist Mlist Slist k"
    using kn assms(2) by (simp add: AdT_link_def)
  have V: "vadd (mv (AdT_link thetalist Mlist Slist k) (V_link thetalist dthetalist Mlist Slist k))
       (smult (dthetalist ! k) (A_link Mlist Slist k)) = V_link thetalist dthetalist Mlist Slist (Suc k)"
    by (simp add: V_link.simps)
  have len: "k < length (Ai s0)" "k < length (AdTi s0)" "n < length (AdTi s0)"
    "Suc k < length (Vi s0)" "Suc k < length (Vdi s0)" "k \<noteq> n"
    using kn IH(2-5) by simp_all
  show ?case
    unfolding step unfolding forward_pass_def Let_def
    using len
    by (auto simp: IH A T V nth_list_update less_Suc_eq le_Suc_eq Vd_link.simps(2))
qed


lemma backward_pass_invariant:
  fixes thetalist dthetalist ddthetalist g Ftip :: vec and Mlist Glist :: "mat list"
    and Slist :: mat and d n :: nat
  assumes "d \<le> n" "n = length thetalist"
  defines "s \<equiv> fold (forward_pass thetalist dthetalist ddthetalist Mlist Slist) [0..<n]
                 (newton_euler_init n g Mlist)"
  shows "\<exists>tl. fold (backward_pass Glist s) (rev [n - d..<n]) (Ftip, vzero n)
                 = (F_link thetalist dthetalist ddthetalist g Ftip Mlist Glist Slist d, tl)
              \<and> length tl = n
              \<and> (\<forall>j. n - d \<le> j \<and> j < n \<longrightarrow>
                    tl ! j = dot (F_link thetalist dthetalist ddthetalist g Ftip Mlist Glist Slist (n - j))
                               (A_link Mlist Slist j))"
  using assms(1)
proof (induction d)
  case 0
  show ?case by (simp add: vzero_def F_link.simps)
next
  case (Suc d)
  define m where "m = n - Suc d"
  have m0: "m < n" "Suc m = n - d" "n - Suc d = m"
    using Suc.prems by (simp_all add: m_def Suc_diff_Suc)
  have m: "m < n" "Suc m = n - d" "n - Suc d = m" "[m..<n] = m # [n - d..<n]"
    using m0 by (simp_all add: upt_conv_Cons)
  from Suc obtain tl where tl:
    "fold (backward_pass Glist s) (rev [n - d..<n]) (Ftip, vzero n)
       = (F_link thetalist dthetalist ddthetalist g Ftip Mlist Glist Slist d, tl)"
    "length tl = n"
    "\<And>j. n - d \<le> j \<Longrightarrow> j < n \<Longrightarrow>
        tl ! j = dot (F_link thetalist dthetalist ddthetalist g Ftip Mlist Glist Slist (n - j))
                   (A_link Mlist Slist j)"
    by auto
  note inv = forward_pass_invariant [OF le_refl assms(2), where dthetalist = dthetalist
      and ddthetalist = ddthetalist and Mlist = Mlist and Slist = Slist and g = g,
      folded s_def]
  have f: "Ai s ! m = A_link Mlist Slist m"
    "AdTi s ! Suc m = AdT_link thetalist Mlist Slist (Suc m)"
    "Vi s ! Suc m = V_link thetalist dthetalist Mlist Slist (Suc m)"
    "Vdi s ! Suc m = Vd_link thetalist dthetalist ddthetalist g Mlist Slist (Suc m)"
  proof -
    from inv have a: "\<forall>j<n. Ai s ! j = A_link Mlist Slist j
                          \<and> AdTi s ! j = AdT_link thetalist Mlist Slist j"
      and b: "AdTi s ! n = AdT_link thetalist Mlist Slist n"
      and c: "\<forall>j\<le>n. Vi s ! j = V_link thetalist dthetalist Mlist Slist j
                 \<and> Vdi s ! j = Vd_link thetalist dthetalist ddthetalist g Mlist Slist j"
      by blast+
    from a m(1) show "Ai s ! m = A_link Mlist Slist m" by blast
    from c m(1) show "Vi s ! Suc m = V_link thetalist dthetalist Mlist Slist (Suc m)"
      and "Vdi s ! Suc m = Vd_link thetalist dthetalist ddthetalist g Mlist Slist (Suc m)"
      by (simp_all add: Suc_le_eq)
    show "AdTi s ! Suc m = AdT_link thetalist Mlist Slist (Suc m)"
    proof (cases "Suc m = n")
      case True
      with b show ?thesis by simp
    next
      case False
      with m(1) have "Suc m < n" by simp
      with a show ?thesis by blast
    qed
  qed
  have F: "F_link thetalist dthetalist ddthetalist g Ftip Mlist Glist Slist (Suc d)
      = vsub (vadd (mv (mtranspose (AdT_link thetalist Mlist Slist (Suc m)))
                       (F_link thetalist dthetalist ddthetalist g Ftip Mlist Glist Slist d))
                 (mv (Glist ! m) (Vd_link thetalist dthetalist ddthetalist g Mlist Slist (Suc m))))
           (mv (mtranspose (ad (V_link thetalist dthetalist Mlist Slist (Suc m))))
              (mv (Glist ! m) (V_link thetalist dthetalist Mlist Slist (Suc m))))"
    using m(3) assms(2) by (simp add: Let_def F_link.simps)
  have "fold (backward_pass Glist s) (rev [n - Suc d..<n]) (Ftip, vzero n)
      = backward_pass Glist s m
          (F_link thetalist dthetalist ddthetalist g Ftip Mlist Glist Slist d, tl)"
    by (simp add: m(3,4) tl(1))
  also have "\<dots> = (F_link thetalist dthetalist ddthetalist g Ftip Mlist Glist Slist (Suc d),
        tl[m := dot (F_link thetalist dthetalist ddthetalist g Ftip Mlist Glist Slist (Suc d))
                  (A_link Mlist Slist m)])"
    unfolding backward_pass_def Let_def F by (simp add: f)
  finally have st: "fold (backward_pass Glist s) (rev [n - Suc d..<n]) (Ftip, vzero n)
      = (F_link thetalist dthetalist ddthetalist g Ftip Mlist Glist Slist (Suc d),
        tl[m := dot (F_link thetalist dthetalist ddthetalist g Ftip Mlist Glist Slist (Suc d))
                  (A_link Mlist Slist m)])" .
  have nm: "n - m = Suc d" using Suc.prems by (simp add: m_def)
  show ?case
    unfolding st
  proof (intro exI conjI allI impI)
    show "(F_link thetalist dthetalist ddthetalist g Ftip Mlist Glist Slist (Suc d),
        tl[m := dot (F_link thetalist dthetalist ddthetalist g Ftip Mlist Glist Slist (Suc d))
                  (A_link Mlist Slist m)])
      = (F_link thetalist dthetalist ddthetalist g Ftip Mlist Glist Slist (Suc d),
        tl[m := dot (F_link thetalist dthetalist ddthetalist g Ftip Mlist Glist Slist (Suc d))
                  (A_link Mlist Slist m)])" by (rule refl)
    show "length (tl[m := dot (F_link thetalist dthetalist ddthetalist g Ftip Mlist Glist Slist (Suc d))
                  (A_link Mlist Slist m)]) = n" by (simp add: tl(2))
  next
    fix j assume j: "n - Suc d \<le> j \<and> j < n"
    show "tl[m := dot (F_link thetalist dthetalist ddthetalist g Ftip Mlist Glist Slist (Suc d))
                  (A_link Mlist Slist m)] ! j
          = dot (F_link thetalist dthetalist ddthetalist g Ftip Mlist Glist Slist (n - j))
              (A_link Mlist Slist j)"
    proof (cases "j = m")
      case True
      then show ?thesis using m(1) tl(2) nm by simp
    next
      case False
      with j m have "n - d \<le> j" by simp
      with tl(3) j False show ?thesis by simp
    qed
  qed
qed

lemma InverseDynamics_closed:
  "InverseDynamics thetalist dthetalist ddthetalist g Ftip Mlist Glist Slist
     = map (\<lambda>j. dot (F_link thetalist dthetalist ddthetalist g Ftip Mlist Glist Slist
                        (length thetalist - j)) (A_link Mlist Slist j))
         [0..<length thetalist]"
proof -
  from backward_pass_invariant [OF le_refl refl, where thetalist = thetalist and Glist = Glist
      and dthetalist = dthetalist and ddthetalist = ddthetalist and Mlist = Mlist
      and Slist = Slist and g = g and Ftip = Ftip]
  obtain tl where tl:
    "fold (backward_pass Glist
            (fold (forward_pass thetalist dthetalist ddthetalist Mlist Slist) [0..<length thetalist]
                 (newton_euler_init (length thetalist) g Mlist)))
          (rev [0..<length thetalist]) (Ftip, vzero (length thetalist))
       = (F_link thetalist dthetalist ddthetalist g Ftip Mlist Glist Slist (length thetalist), tl)"
    "length tl = length thetalist"
    "\<And>j. j < length thetalist \<Longrightarrow>
        tl ! j = dot (F_link thetalist dthetalist ddthetalist g Ftip Mlist Glist Slist
                        (length thetalist - j)) (A_link Mlist Slist j)"
    by auto
  have "InverseDynamics thetalist dthetalist ddthetalist g Ftip Mlist Glist Slist = tl"
    by (simp add: InverseDynamics_def Let_def tl(1))
  also have "tl = map (\<lambda>j. dot (F_link thetalist dthetalist ddthetalist g Ftip Mlist Glist Slist
                        (length thetalist - j)) (A_link Mlist Slist j))
         [0..<length thetalist]"
    by (rule nth_equalityI) (simp_all add: tl(2,3))
  finally show ?thesis .
qed

section \<open>Vector algebra on lists\<close>

lemma length_vadd [simp]: "length (vadd u v) = min (length u) (length v)"
  by (simp add: vadd_def)

lemma length_vsub [simp]: "length (vsub u v) = min (length u) (length v)"
  by (simp add: vsub_def)

lemma length_smult [simp]: "length (smult c v) = length v"
  by (simp add: smult_def)

lemma length_vzero [simp]: "length (vzero n) = n"
  by (simp add: vzero_def)

lemma length_mv [simp]: "length (mv A x) = length A"
  by (simp add: mv_def)

lemma length_mtranspose [simp]: "length (mtranspose A) = ncols A"
  by (simp add: mtranspose_def)

lemma length_Adjoint [simp]: "length (Adjoint T) = 6"
  by (simp add: Adjoint_def TransToRp_def hcat_def block_def mm_def VecToso3_def Zero_def)

lemma ncols_Adjoint [simp]: "ncols (Adjoint T) = 6"
  by (simp add: Adjoint_def TransToRp_def hcat_def block_def mm_def VecToso3_def Zero_def
      ncols_def upt_conv_Cons eval_nat_numeral)

lemma length_ad [simp]: "length (ad V) = 6"
  by (simp add: ad_def hcat_def VecToso3_def Zero_def Let_def)

lemma ncols_ad [simp]: "ncols (ad V) = 6"
  by (simp add: ad_def hcat_def VecToso3_def Zero_def Let_def ncols_def eval_nat_numeral)

lemma dot_Nil [simp]: "dot [] v = 0" "dot u [] = 0"
  by (simp_all add: dot_def)

lemma dot_Cons [simp]: "dot (a # u) (b # v) = a * b + dot u v"
  by (simp add: dot_def)

lemma vadd_Cons [simp]: "vadd (a # u) (b # v) = (a + b) # vadd u v"
  and vadd_Nil [simp]: "vadd [] v = []" "vadd u [] = []"
  by (simp_all add: vadd_def)

lemma vsub_Cons [simp]: "vsub (a # u) (b # v) = (a - b) # vsub u v"
  and vsub_Nil [simp]: "vsub [] v = []" "vsub u [] = []"
  by (simp_all add: vsub_def)

lemma smult_Cons [simp]: "smult c (a # u) = c * a # smult c u"
  and smult_Nil [simp]: "smult c [] = []"
  by (simp_all add: smult_def)

lemma dot_commute: "dot u v = dot v u"
proof (induction u arbitrary: v)
  case Nil
  show ?case by simp
next
  case (Cons a u)
  then show ?case by (cases v) simp_all
qed

lemma dot_vadd_right: "length x = length y \<Longrightarrow> dot r (vadd x y) = dot r x + dot r y"
proof (induction x y arbitrary: r rule: list_induct2)
  case Nil
  show ?case by simp
next
  case (Cons a x b y)
  then show ?case by (cases r) (simp_all add: algebra_simps)
qed

lemma dot_vsub_right: "length x = length y \<Longrightarrow> dot r (vsub x y) = dot r x - dot r y"
proof (induction x y arbitrary: r rule: list_induct2)
  case Nil
  show ?case by simp
next
  case (Cons a x b y)
  then show ?case by (cases r) (simp_all add: algebra_simps)
qed

lemma dot_smult_right: "dot r (smult c x) = c * dot r x"
proof (induction x arbitrary: r)
  case Nil
  show ?case by simp
next
  case (Cons a x)
  then show ?case by (cases r) (simp_all add: algebra_simps)
qed

lemma dot_vzero_right [simp]: "dot r (vzero n) = 0"
proof (induction n arbitrary: r)
  case 0
  show ?case by (simp add: vzero_def)
next
  case (Suc n)
  then show ?case by (cases r) (simp_all add: vzero_def)
qed

lemma dot_vadd_left: "length x = length y \<Longrightarrow> dot (vadd x y) r = dot x r + dot y r"
  by (simp add: dot_commute [of _ r] dot_vadd_right)

lemma dot_vsub_left: "length x = length y \<Longrightarrow> dot (vsub x y) r = dot x r - dot y r"
  by (simp add: dot_commute [of _ r] dot_vsub_right)

lemma dot_smult_left: "dot (smult c x) r = c * dot x r"
  by (simp add: dot_commute [of _ r] dot_smult_right)

lemma dot_vzero_left [simp]: "dot (vzero n) r = 0"
  by (simp add: dot_commute [of _ r])

lemma mv_vadd: "length x = length y \<Longrightarrow> mv A (vadd x y) = vadd (mv A x) (mv A y)"
  by (induction A) (simp_all add: mv_def dot_vadd_right)

lemma mv_vsub: "length x = length y \<Longrightarrow> mv A (vsub x y) = vsub (mv A x) (mv A y)"
  by (induction A) (simp_all add: mv_def dot_vsub_right)

lemma mv_smult: "mv A (smult c x) = smult c (mv A x)"
  by (induction A) (simp_all add: mv_def dot_smult_right)

lemma mv_vzero [simp]: "mv A (vzero n) = vzero (length A)"
  by (simp add: mv_def vzero_def [of "length A"] map_replicate_const)

lemma smult_zero [simp]: "smult 0 v = vzero (length v)"
  by (induction v) (simp_all add: vzero_def)

lemma smult_vzero [simp]: "smult c (vzero n) = vzero n"
  by (induction n) (simp_all add: vzero_def)

lemma vadd_vzero [simp]: "length v = n \<Longrightarrow> vadd v (vzero n) = v" "length v = n \<Longrightarrow> vadd (vzero n) v = v"
  by (induction v arbitrary: n) (auto simp: vzero_def)

lemma vsub_vzero [simp]: "length v = n \<Longrightarrow> vsub v (vzero n) = v"
  by (induction v arbitrary: n) (auto simp: vzero_def)

lemma nth_vzero [simp]: "i < n \<Longrightarrow> vzero n ! i = 0"
  by (simp add: vzero_def)

lemma nth_vadd: "i < length u \<Longrightarrow> i < length v \<Longrightarrow> vadd u v ! i = u ! i + v ! i"
  by (simp add: vadd_def)

lemma nth_vsub: "i < length u \<Longrightarrow> i < length v \<Longrightarrow> vsub u v ! i = u ! i - v ! i"
  by (simp add: vsub_def)

lemma nth_smult: "i < length v \<Longrightarrow> smult c v ! i = c * v ! i"
  by (simp add: smult_def)

section \<open>Superposition in the Newton-Euler recursion\<close>

text \<open>
  The link accelerations, the wrenches and hence the torques are additive in the triple
  (joint accelerations, gravity, tip wrench) once the second summand is taken at zero
  joint velocity, and homogeneous in the joint accelerations at zero velocity, gravity
  and tip wrench.  So the torque splits into the four terms that \<open>ForwardDynamics\<close>
  computes, and the acceleration term is the mass matrix applied to the accelerations.
\<close>

lemma length_A_link [simp]: "length (A_link Mlist Slist i) = 6"
  by (simp add: A_link_def)

lemma length_AdT_link [simp]: "length (AdT_link thetalist Mlist Slist i) = 6"
  and ncols_AdT_link [simp]: "ncols (AdT_link thetalist Mlist Slist i) = 6"
  by (simp_all add: AdT_link_def)

lemma length_V_link [simp]: "length (V_link thetalist dthetalist Mlist Slist i) = 6"
  by (cases i) (simp_all add: V_link.simps)

lemma length_Vd_link [simp]: "length (Vd_link thetalist dthetalist ddthetalist g Mlist Slist i) = 6"
  by (cases i) (simp_all add: Vd_link.simps)

lemma length_F_link:
  assumes "length Ftip = 6" "\<forall>i<length thetalist. length (Glist ! i) = 6" "d \<le> length thetalist"
  shows "length (F_link thetalist dthetalist ddthetalist g Ftip Mlist Glist Slist d) = 6"
  using assms(3)
proof (induction d)
  case 0
  show ?case by (simp add: F_link.simps assms(1))
next
  case (Suc d)
  then have "length (Glist ! (length thetalist - Suc d)) = 6"
    using assms(2) by simp
  with Suc show ?case by (simp add: F_link.simps Let_def)
qed

lemma V_link_zero:
  "i \<le> length thetalist \<Longrightarrow>
     V_link thetalist (vzero (length thetalist)) Mlist Slist i = vzero 6"
  by (induction i) (simp_all add: V_link.simps)

lemma vec6_eqI:
  assumes "length u = 6" "length v = 6" "\<And>i. i < 6 \<Longrightarrow> u ! i = v ! i"
  shows "u = v"
  using assms by (intro nth_equalityI) simp_all

lemma Vd_link_superposition:
  assumes "length ddth1 = length thetalist" "length ddth2 = length thetalist"
    and "length g1 = 3" "length g2 = 3" "i \<le> length thetalist"
  shows "Vd_link thetalist dthetalist (vadd ddth1 ddth2) (vadd g1 g2) Mlist Slist i
       = vadd (Vd_link thetalist dthetalist ddth1 g1 Mlist Slist i)
           (Vd_link thetalist (vzero (length thetalist)) ddth2 g2 Mlist Slist i)"
  using assms(5)
proof (induction i)
  case 0
  show ?case using assms(3,4) by (simp add: Vd_link.simps nth_vadd)
next
  case (Suc i)
  let ?T = "AdT_link thetalist Mlist Slist i"
  let ?A = "A_link Mlist Slist i"
  let ?a = "Vd_link thetalist dthetalist ddth1 g1 Mlist Slist i"
  let ?b = "Vd_link thetalist (vzero (length thetalist)) ddth2 g2 Mlist Slist i"
  let ?w = "smult (dthetalist ! i) (mv (ad (V_link thetalist dthetalist Mlist Slist (Suc i))) ?A)"
  from Suc have i: "i < length thetalist" and
    IH: "Vd_link thetalist dthetalist (vadd ddth1 ddth2) (vadd g1 g2) Mlist Slist i = vadd ?a ?b"
    by simp_all
  have dd: "vadd ddth1 ddth2 ! i = ddth1 ! i + ddth2 ! i"
    using i assms(1,2) by (simp add: nth_vadd)
  have L: "Vd_link thetalist dthetalist (vadd ddth1 ddth2) (vadd g1 g2) Mlist Slist (Suc i)
      = vadd (vadd (vadd (mv ?T ?a) (mv ?T ?b)) (smult (ddth1 ! i + ddth2 ! i) ?A)) ?w"
    by (simp add: Vd_link.simps IH dd mv_vadd)
  have R1: "Vd_link thetalist dthetalist ddth1 g1 Mlist Slist (Suc i)
      = vadd (vadd (mv ?T ?a) (smult (ddth1 ! i) ?A)) ?w"
    by (simp add: Vd_link.simps)
  have R2: "Vd_link thetalist (vzero (length thetalist)) ddth2 g2 Mlist Slist (Suc i)
      = vadd (mv ?T ?b) (smult (ddth2 ! i) ?A)"
    using i by (simp add: Vd_link.simps)
  show ?case
    unfolding L R1 R2
    by (rule vec6_eqI) (simp_all add: nth_vadd nth_smult algebra_simps)
qed


lemma F_link_Suc:
  "F_link thetalist dthetalist ddthetalist g Ftip Mlist Glist Slist (Suc d)
     = vsub (vadd (mv (mtranspose (AdT_link thetalist Mlist Slist (Suc (length thetalist - Suc d))))
                       (F_link thetalist dthetalist ddthetalist g Ftip Mlist Glist Slist d))
                 (mv (Glist ! (length thetalist - Suc d))
                    (Vd_link thetalist dthetalist ddthetalist g Mlist Slist
                       (Suc (length thetalist - Suc d)))))
           (mv (mtranspose (ad (V_link thetalist dthetalist Mlist Slist
                                  (Suc (length thetalist - Suc d)))))
              (mv (Glist ! (length thetalist - Suc d))
                 (V_link thetalist dthetalist Mlist Slist (Suc (length thetalist - Suc d)))))"
  by (simp add: F_link.simps Let_def)

lemma Vd_link_scale:
  assumes "length x = length thetalist" "i \<le> length thetalist"
  shows "Vd_link thetalist (vzero (length thetalist)) (smult c x) (vzero 3) Mlist Slist i
       = smult c (Vd_link thetalist (vzero (length thetalist)) x (vzero 3) Mlist Slist i)"
  using assms(2)
proof (induction i)
  case 0
  show ?case by (simp add: Vd_link.simps)
next
  case (Suc i)
  then have i: "i < length thetalist" by simp
  with Suc assms(1) show ?case
    by (simp add: Vd_link.simps mv_smult nth_smult)
      (rule vec6_eqI, simp_all add: nth_vadd nth_smult algebra_simps)
qed

lemma F_link_superposition:
  assumes "length ddth1 = length thetalist" "length ddth2 = length thetalist"
    and "length g1 = 3" "length g2 = 3" "length F1 = 6" "length F2 = 6"
    and G: "\<forall>i<length thetalist. length (Glist ! i) = 6"
    and "d \<le> length thetalist"
  shows "F_link thetalist dthetalist (vadd ddth1 ddth2) (vadd g1 g2) (vadd F1 F2) Mlist Glist Slist d
       = vadd (F_link thetalist dthetalist ddth1 g1 F1 Mlist Glist Slist d)
           (F_link thetalist (vzero (length thetalist)) ddth2 g2 F2 Mlist Glist Slist d)"
  using assms(8)
proof (induction d)
  case 0
  show ?case by (simp add: F_link.simps)
next
  case (Suc d)
  define i where "i = length thetalist - Suc d"
  let ?Tt = "mtranspose (AdT_link thetalist Mlist Slist (Suc i))"
  let ?G = "Glist ! i"
  let ?a = "Vd_link thetalist dthetalist ddth1 g1 Mlist Slist (Suc i)"
  let ?b = "Vd_link thetalist (vzero (length thetalist)) ddth2 g2 Mlist Slist (Suc i)"
  let ?f1 = "F_link thetalist dthetalist ddth1 g1 F1 Mlist Glist Slist d"
  let ?f2 = "F_link thetalist (vzero (length thetalist)) ddth2 g2 F2 Mlist Glist Slist d"
  let ?w = "mv (mtranspose (ad (V_link thetalist dthetalist Mlist Slist (Suc i))))
              (mv ?G (V_link thetalist dthetalist Mlist Slist (Suc i)))"
  have i: "i < length thetalist" "Suc i \<le> length thetalist"
    using Suc.prems by (simp_all add: i_def)
  have lG: "length ?G = 6" using G i(1) by simp
  have d: "d \<le> length thetalist" using Suc.prems by simp
  have lf: "length ?f1 = 6" "length ?f2 = 6"
    using assms(5,6) G d by (simp_all add: length_F_link)
  from Suc have IH: "F_link thetalist dthetalist (vadd ddth1 ddth2) (vadd g1 g2) (vadd F1 F2)
        Mlist Glist Slist d = vadd ?f1 ?f2"
    by simp
  have L: "F_link thetalist dthetalist (vadd ddth1 ddth2) (vadd g1 g2) (vadd F1 F2) Mlist Glist Slist (Suc d)
      = vsub (vadd (vadd (mv ?Tt ?f1) (mv ?Tt ?f2)) (vadd (mv ?G ?a) (mv ?G ?b))) ?w"
    unfolding F_link_Suc i_def [symmetric] IH
      Vd_link_superposition [OF assms(1-4) i(2)]
    by (simp add: mv_vadd lf)
  have R1: "F_link thetalist dthetalist ddth1 g1 F1 Mlist Glist Slist (Suc d)
      = vsub (vadd (mv ?Tt ?f1) (mv ?G ?a)) ?w"
    unfolding F_link_Suc i_def [symmetric] by (rule refl)
  have R2: "F_link thetalist (vzero (length thetalist)) ddth2 g2 F2 Mlist Glist Slist (Suc d)
      = vadd (mv ?Tt ?f2) (mv ?G ?b)"
    unfolding F_link_Suc i_def [symmetric]
    by (simp add: V_link_zero [OF i(2)] lG)
  show ?case
    unfolding L R1 R2
    by (rule vec6_eqI) (simp_all add: nth_vadd nth_vsub lG algebra_simps)
qed

lemma F_link_scale:
  assumes "length x = length thetalist"
    and G: "\<forall>i<length thetalist. length (Glist ! i) = 6"
    and "d \<le> length thetalist"
  shows "F_link thetalist (vzero (length thetalist)) (smult c x) (vzero 3) (vzero 6) Mlist Glist Slist d
       = smult c (F_link thetalist (vzero (length thetalist)) x (vzero 3) (vzero 6) Mlist Glist Slist d)"
  using assms(3)
proof (induction d)
  case 0
  show ?case by (simp add: F_link.simps)
next
  case (Suc d)
  define i where "i = length thetalist - Suc d"
  have i: "i < length thetalist" "Suc i \<le> length thetalist"
    using Suc.prems by (simp_all add: i_def)
  have lG: "length (Glist ! i) = 6" using G i(1) by simp
  have d: "d \<le> length thetalist" using Suc.prems by simp
  have lf: "length (F_link thetalist (vzero (length thetalist)) x (vzero 3) (vzero 6)
               Mlist Glist Slist d) = 6"
    using G d by (simp add: length_F_link)
  from Suc have IH: "F_link thetalist (vzero (length thetalist)) (smult c x) (vzero 3) (vzero 6)
        Mlist Glist Slist d
      = smult c (F_link thetalist (vzero (length thetalist)) x (vzero 3) (vzero 6) Mlist Glist Slist d)"
    by simp
  show ?case
    unfolding F_link_Suc i_def [symmetric] IH Vd_link_scale [OF assms(1) i(2)]
    by (simp add: V_link_zero [OF i(2)] lG mv_smult)
      (rule vec6_eqI, simp_all add: nth_vadd nth_smult lG lf algebra_simps)
qed

lemma vadd_map: "vadd (map f xs) (map h xs) = map (\<lambda>j. f j + h j) xs"
  by (induction xs) simp_all

lemma smult_map: "smult c (map f xs) = map (\<lambda>j. c * f j) xs"
  by (induction xs) simp_all

lemma InverseDynamics_superposition:
  assumes "length ddth1 = length thetalist" "length ddth2 = length thetalist"
    and "length g1 = 3" "length g2 = 3" "length F1 = 6" "length F2 = 6"
    and G: "\<forall>i<length thetalist. length (Glist ! i) = 6"
  shows "InverseDynamics thetalist dthetalist (vadd ddth1 ddth2) (vadd g1 g2) (vadd F1 F2)
           Mlist Glist Slist
       = vadd (InverseDynamics thetalist dthetalist ddth1 g1 F1 Mlist Glist Slist)
           (InverseDynamics thetalist (vzero (length thetalist)) ddth2 g2 F2 Mlist Glist Slist)"
proof -
  have "dot (F_link thetalist dthetalist (vadd ddth1 ddth2) (vadd g1 g2) (vadd F1 F2)
               Mlist Glist Slist (length thetalist - j)) (A_link Mlist Slist j)
      = dot (F_link thetalist dthetalist ddth1 g1 F1 Mlist Glist Slist (length thetalist - j))
          (A_link Mlist Slist j)
        + dot (F_link thetalist (vzero (length thetalist)) ddth2 g2 F2 Mlist Glist Slist
                 (length thetalist - j)) (A_link Mlist Slist j)" for j
    by (simp add: F_link_superposition [OF assms] dot_vadd_left length_F_link assms)
  then show ?thesis
    by (simp add: InverseDynamics_closed vadd_map)
qed

lemma InverseDynamics_scale:
  assumes "length x = length thetalist"
    and G: "\<forall>i<length thetalist. length (Glist ! i) = 6"
  shows "InverseDynamics thetalist (vzero (length thetalist)) (smult c x) (vzero 3) (vzero 6)
           Mlist Glist Slist
       = smult c (InverseDynamics thetalist (vzero (length thetalist)) x (vzero 3) (vzero 6)
           Mlist Glist Slist)"
  by (simp add: InverseDynamics_closed F_link_scale [OF assms] dot_smult_left smult_map)

lemma length_InverseDynamics [simp]:
  "length (InverseDynamics thetalist dthetalist ddthetalist g Ftip Mlist Glist Slist)
     = length thetalist"
  by (simp add: InverseDynamics_closed)


lemma vzero3_add [simp]: "vadd (vzero 3) (vzero 3) = vzero 3"
  and vzero6_add [simp]: "vadd (vzero 6) (vzero 6) = vzero 6"
  by simp_all

lemma InverseDynamics_decomposition:
  assumes dd: "length ddthetalist = length thetalist" and g: "length g = 3"
    and F: "length Ftip = 6" and G: "\<forall>i<length thetalist. length (Glist ! i) = 6"
  shows "InverseDynamics thetalist dthetalist ddthetalist g Ftip Mlist Glist Slist
       = vadd (VelQuadraticForces thetalist dthetalist Mlist Glist Slist)
           (vadd (InverseDynamics thetalist (vzero (length thetalist)) ddthetalist (vzero 3)
                    (vzero 6) Mlist Glist Slist)
              (vadd (GravityForces thetalist g Mlist Glist Slist)
                 (EndEffectorForces thetalist Ftip Mlist Glist Slist)))"
proof -
  let ?n = "length thetalist"
  let ?ID = "\<lambda>dth ddth g F. InverseDynamics thetalist dth ddth g F Mlist Glist Slist"
  have 1: "?ID dthetalist (vadd (vzero ?n) ddthetalist) (vadd (vzero 3) g) (vadd (vzero 6) Ftip)
      = vadd (?ID dthetalist (vzero ?n) (vzero 3) (vzero 6)) (?ID (vzero ?n) ddthetalist g Ftip)"
    by (rule InverseDynamics_superposition) (simp_all add: assms)
  have 2: "?ID (vzero ?n) (vadd ddthetalist (vzero ?n)) (vadd (vzero 3) g) (vadd (vzero 6) Ftip)
      = vadd (?ID (vzero ?n) ddthetalist (vzero 3) (vzero 6)) (?ID (vzero ?n) (vzero ?n) g Ftip)"
    by (rule InverseDynamics_superposition) (simp_all add: assms)
  have 3: "?ID (vzero ?n) (vadd (vzero ?n) (vzero ?n)) (vadd g (vzero 3)) (vadd (vzero 6) Ftip)
      = vadd (?ID (vzero ?n) (vzero ?n) g (vzero 6)) (?ID (vzero ?n) (vzero ?n) (vzero 3) Ftip)"
    by (rule InverseDynamics_superposition) (simp_all add: assms)
  show ?thesis
    using 1 2 3
    by (simp add: assms VelQuadraticForces_def GravityForces_def EndEffectorForces_def Let_def)
qed

lemma total_force:
  assumes "length a = n" "length b = n" "length c = n" "length d = n"
  shows "vsub (vsub (vsub (vadd b (vadd a (vadd c d))) b) c) d = a"
  using assms by (intro nth_equalityI) (simp_all add: nth_vadd nth_vsub)

lemma dot_sum: "length u = length v \<Longrightarrow> dot u v = (\<Sum>j<length u. u ! j * v ! j)"
proof (induction u v rule: list_induct2)
  case Nil
  show ?case by simp
next
  case (Cons a u b v)
  then show ?case by (simp add: sum.lessThan_Suc_shift del: sum.lessThan_Suc)
qed

lemma nth_set_col:
  "i < length A \<Longrightarrow> i < length v \<Longrightarrow> set_col A j v ! i = (A ! i)[j := v ! i]"
  by (simp add: set_col_def)

lemma length_set_col [simp]: "length (set_col A j v) = min (length A) (length v)"
  by (simp add: set_col_def)

lemma fold_set_col:
  assumes "\<And>j. length (c j) = n" "k \<le> n"
  shows "length (fold (\<lambda>j M. set_col M j (c j)) [0..<k] (Zero n n)) = n
       \<and> (\<forall>i<n. length (fold (\<lambda>j M. set_col M j (c j)) [0..<k] (Zero n n) ! i) = n
             \<and> (\<forall>j<k. fold (\<lambda>j M. set_col M j (c j)) [0..<k] (Zero n n) ! i ! j = c j ! i))"
  using assms(2)
proof (induction k)
  case 0
  show ?case by (simp add: Zero_def)
next
  case (Suc k)
  then show ?case
    by (auto simp: assms(1) nth_set_col nth_list_update less_Suc_eq)
qed

lemma MassMatrix_entries:
  "length (MassMatrix thetalist Mlist Glist Slist) = length thetalist"
  "i < length thetalist \<Longrightarrow> length (MassMatrix thetalist Mlist Glist Slist ! i) = length thetalist"
  "i < length thetalist \<Longrightarrow> j < length thetalist \<Longrightarrow>
     MassMatrix thetalist Mlist Glist Slist ! i ! j
       = InverseDynamics thetalist (vzero (length thetalist)) ((vzero (length thetalist))[j := 1])
           (vzero 3) (vzero 6) Mlist Glist Slist ! i"
  using fold_set_col [of "\<lambda>j. InverseDynamics thetalist (vzero (length thetalist))
        ((vzero (length thetalist))[j := 1]) (vzero 3) (vzero 6) Mlist Glist Slist"
      "length thetalist" "length thetalist"]
  by (simp_all add: MassMatrix_def Let_def)

lemma unit_step:
  assumes "k < n" "length x = n"
  shows "take (Suc k) x @ vzero (n - Suc k)
       = vadd (take k x @ vzero (n - k)) (smult (x ! k) ((vzero n)[k := 1]))"
proof (rule nth_equalityI)
  show "length (take (Suc k) x @ vzero (n - Suc k))
      = length (vadd (take k x @ vzero (n - k)) (smult (x ! k) ((vzero n)[k := 1])))"
    using assms by simp
next
  fix i assume "i < length (take (Suc k) x @ vzero (n - Suc k))"
  with assms have i: "i < n" by simp
  show "(take (Suc k) x @ vzero (n - Suc k)) ! i
      = vadd (take k x @ vzero (n - k)) (smult (x ! k) ((vzero n)[k := 1])) ! i"
  proof -
    consider "i < k" | "i = k" | "k < i" by linarith
    then show ?thesis
    proof cases
      case 1
      with assms i show ?thesis
        by (simp add: nth_vadd nth_smult nth_append nth_list_update)
    next
      case 2
      with assms i show ?thesis
        by (simp add: nth_vadd nth_smult nth_append nth_list_update)
    next
      case 3
      then have "i - Suc k < n - Suc k" "i - k < n - k" using i by simp_all
      with 3 assms i show ?thesis
        by (simp add: nth_vadd nth_smult nth_append nth_list_update)
    qed
  qed
qed

lemma InverseDynamics_basis:
  assumes x: "length x = length thetalist"
    and G: "\<forall>i<length thetalist. length (Glist ! i) = 6"
    and "k \<le> length thetalist" "i < length thetalist"
  shows "InverseDynamics thetalist (vzero (length thetalist)) (take k x @ vzero (length thetalist - k))
           (vzero 3) (vzero 6) Mlist Glist Slist ! i
       = (\<Sum>j<k. x ! j * InverseDynamics thetalist (vzero (length thetalist))
                              ((vzero (length thetalist))[j := 1]) (vzero 3) (vzero 6)
                              Mlist Glist Slist ! i)"
  using assms(3)
proof (induction k)
  case 0
  let ?n = "length thetalist"
  have "InverseDynamics thetalist (vzero ?n) (smult 0 (vzero ?n)) (vzero 3) (vzero 6) Mlist Glist Slist
      = smult 0 (InverseDynamics thetalist (vzero ?n) (vzero ?n) (vzero 3) (vzero 6) Mlist Glist Slist)"
    by (rule InverseDynamics_scale) (simp_all add: G)
  then show ?case using assms(4) by simp
next
  case (Suc k)
  let ?n = "length thetalist"
  let ?ID = "\<lambda>ddth. InverseDynamics thetalist (vzero ?n) ddth (vzero 3) (vzero 6) Mlist Glist Slist"
  have k: "k < ?n" using Suc.prems by simp
  have "?ID (take (Suc k) x @ vzero (?n - Suc k))
      = ?ID (vadd (take k x @ vzero (?n - k)) (smult (x ! k) ((vzero ?n)[k := 1])))"
    by (simp only: unit_step [OF k x])
  also have "\<dots> = vadd (?ID (take k x @ vzero (?n - k))) (?ID (smult (x ! k) ((vzero ?n)[k := 1])))"
    using InverseDynamics_superposition [where thetalist = thetalist and dthetalist = "vzero ?n"
        and ?ddth1.0 = "take k x @ vzero (?n - k)"
        and ?ddth2.0 = "smult (x ! k) ((vzero ?n)[k := 1])"
        and ?g1.0 = "vzero 3" and ?g2.0 = "vzero 3" and ?F1.0 = "vzero 6" and ?F2.0 = "vzero 6"
        and Glist = Glist and Mlist = Mlist and Slist = Slist]
      k x G by simp
  also have "?ID (smult (x ! k) ((vzero ?n)[k := 1])) = smult (x ! k) (?ID ((vzero ?n)[k := 1]))"
    by (rule InverseDynamics_scale) (simp_all add: G)
  finally show ?case
    using Suc k assms(4) by (simp add: nth_vadd nth_smult)
qed

lemma mv_MassMatrix:
  assumes x: "length x = length thetalist"
    and G: "\<forall>i<length thetalist. length (Glist ! i) = 6"
  shows "mv (MassMatrix thetalist Mlist Glist Slist) x
       = InverseDynamics thetalist (vzero (length thetalist)) x (vzero 3) (vzero 6) Mlist Glist Slist"
proof (rule nth_equalityI)
  show "length (mv (MassMatrix thetalist Mlist Glist Slist) x)
      = length (InverseDynamics thetalist (vzero (length thetalist)) x (vzero 3) (vzero 6)
           Mlist Glist Slist)"
    by (simp add: MassMatrix_entries(1))
next
  fix i assume "i < length (mv (MassMatrix thetalist Mlist Glist Slist) x)"
  then have i: "i < length thetalist" by (simp add: MassMatrix_entries(1))
  have "mv (MassMatrix thetalist Mlist Glist Slist) x ! i
      = dot (MassMatrix thetalist Mlist Glist Slist ! i) x"
    using i by (simp add: mv_def MassMatrix_entries(1))
  also have "\<dots> = (\<Sum>j<length thetalist. MassMatrix thetalist Mlist Glist Slist ! i ! j * x ! j)"
    using i x by (simp add: dot_sum MassMatrix_entries(2))
  also have "\<dots> = (\<Sum>j<length thetalist. x ! j * InverseDynamics thetalist (vzero (length thetalist))
                              ((vzero (length thetalist))[j := 1]) (vzero 3) (vzero 6)
                              Mlist Glist Slist ! i)"
    using i by (intro sum.cong refl) (simp add: MassMatrix_entries(3) mult.commute)
  also have "\<dots> = InverseDynamics thetalist (vzero (length thetalist))
                    (take (length thetalist) x @ vzero (length thetalist - length thetalist))
                    (vzero 3) (vzero 6) Mlist Glist Slist ! i"
    by (rule InverseDynamics_basis [OF x G le_refl i, symmetric])
  finally show "mv (MassMatrix thetalist Mlist Glist Slist) x ! i
      = InverseDynamics thetalist (vzero (length thetalist)) x (vzero 3) (vzero 6)
          Mlist Glist Slist ! i"
    using x by (simp add: vzero_def)
qed

section \<open>Forward dynamics inverts inverse dynamics\<close>

lemma Identity_6:
  "Identity 6 = [[1, 0, 0, 0, 0, 0], [0, 1, 0, 0, 0, 0], [0, 0, 1, 0, 0, 0],
                 [0, 0, 0, 1, 0, 0], [0, 0, 0, 0, 1, 0], [0, 0, 0, 0, 0, 1]]"
  by (simp add: Identity_def upt_conv_Cons)

lemma Zero_6_6:
  "Zero 6 6 = [[0, 0, 0, 0, 0, 0], [0, 0, 0, 0, 0, 0], [0, 0, 0, 0, 0, 0],
               [0, 0, 0, 0, 0, 0], [0, 0, 0, 0, 0, 0], [0, 0, 0, 0, 0, 0]]"
  by (simp add: Zero_def eval_nat_numeral)

lemma vzero_numeral:
  "vzero 6 = [0, 0, 0, 0, 0, 0]" "vzero 3 = [0, 0, 0]" "vzero (Suc 0) = [0]"
  by (simp_all add: vzero_def eval_nat_numeral)

lemma mm_id4: "mm (Identity 4) (Identity 4) = Identity 4"
  by (simp add: mm_def mcol_def ncols_def Identity_def upt_conv_Cons)

lemma one_joint_A:
  "A_link [Identity 4, Identity 4] [[0], [0], [1], [0], [0], [0]] 0 = [0, 0, 1, 0, 0, 0]"
  by (simp add: A_link_def mm_id4 inv_id4 adjoint_id4 Identity_6 mcol_def mv_def)

lemma one_joint_AdT:
  "AdT_link [0] [Identity 4, Identity 4] [[0], [0], [1], [0], [0], [0]] 0 = Identity 6"
  "AdT_link [0] [Identity 4, Identity 4] [[0], [0], [1], [0], [0], [0]] (Suc 0) = Identity 6"
  by (simp_all add: AdT_link_def one_joint_A exp_zero6 mm_id4 inv_id4 adjoint_id4)

lemma transpose_id6: "mtranspose (Identity 6) = Identity 6"
  by (simp add: mtranspose_def mcol_def ncols_def Identity_def upt_conv_Cons)

lemma one_joint_V:
  "V_link [0] [w] [Identity 4, Identity 4] [[0], [0], [1], [0], [0], [0]] (Suc 0)
     = [0, 0, w, 0, 0, 0]"
  by (simp add: V_link.simps one_joint_A one_joint_AdT vzero_numeral Identity_6 mv_def)

lemma one_joint_ad: "ad [0, 0, w, 0, 0, 0]
     = [[0, - w, 0, 0, 0, 0], [w, 0, 0, 0, 0, 0], [0, 0, 0, 0, 0, 0],
        [0, 0, 0, 0, - w, 0], [0, 0, 0, w, 0, 0], [0, 0, 0, 0, 0, 0]]"
  by (simp add: ad_def VecToso3_def hcat_def Zero_3_3)

lemma one_joint_Vd:
  "Vd_link [0] [w] [a] [g0, g1, g2] [Identity 4, Identity 4] [[0], [0], [1], [0], [0], [0]] (Suc 0)
     = [0, 0, a, - g0, - g1, - g2]"
  by (simp add: Vd_link.simps one_joint_V one_joint_ad one_joint_A one_joint_AdT Identity_6 mv_def)

lemma one_joint_ID:
  "InverseDynamics [0] [w] [a] [g0, g1, g2] [f0, f1, f2, f3, f4, f5] [Identity 4, Identity 4]
     [Identity 6] [[0], [0], [1], [0], [0], [0]] = [f2 + a]"
  by (simp add: InverseDynamics_closed F_link_Suc F_link.simps(1) one_joint_Vd one_joint_V
      one_joint_ad one_joint_A one_joint_AdT transpose_id6)
    (simp add: Identity_6 mv_def mtranspose_def mcol_def ncols_def upt_conv_Cons)

lemma one_joint_ID_massless:
  "InverseDynamics [0] [w] [a] [g0, g1, g2] [f0, f1, f2, f3, f4, f5] [Identity 4, Identity 4]
     [Zero 6 6] [[0], [0], [1], [0], [0], [0]] = [f2]"
  by (simp add: InverseDynamics_closed F_link_Suc F_link.simps(1) one_joint_Vd one_joint_V
      one_joint_ad one_joint_A one_joint_AdT transpose_id6)
    (simp add: Identity_6 Zero_6_6 mv_def mtranspose_def mcol_def ncols_def upt_conv_Cons)

lemma one_joint_MassMatrix:
  "MassMatrix [0] [Identity 4, Identity 4] [Identity 6] [[0], [0], [1], [0], [0], [0]] = [[1]]"
  by (simp add: MassMatrix_def vzero_numeral one_joint_ID Zero_def set_col_def)

text \<open>
  Claim C1, as the claim states it, for every model.  A link whose spatial inertia is the
  zero matrix (positive semidefinite, as the data model allows) gives torques that do not
  depend on the joint acceleration, so no solve can recover it: whatever function stands
  for Eigen's \<open>ldlt().solve\<close>, \<open>ForwardDynamics\<close> fails to return the acceleration for one of
  the one-joint inputs below.
\<close>

theorem dynamics_duality_massless:
  "\<not> (\<exists>ldlt_solve. \<forall>ddthetalist. length ddthetalist = 1 \<longrightarrow>
        ForwardDynamics ldlt_solve [0] [0]
          (InverseDynamics [0] [0] ddthetalist [0, 0, - 98 / 10] [0, 0, 0, 0, 0, 0]
             [Identity 4, Identity 4] [Zero 6 6] [[0], [0], [1], [0], [0], [0]])
          [0, 0, - 98 / 10] [0, 0, 0, 0, 0, 0]
          [Identity 4, Identity 4] [Zero 6 6] [[0], [0], [1], [0], [0], [0]]
        = ddthetalist)"
proof
  assume "\<exists>ldlt_solve. \<forall>ddthetalist. length ddthetalist = 1 \<longrightarrow>
        ForwardDynamics ldlt_solve [0] [0]
          (InverseDynamics [0] [0] ddthetalist [0, 0, - 98 / 10] [0, 0, 0, 0, 0, 0]
             [Identity 4, Identity 4] [Zero 6 6] [[0], [0], [1], [0], [0], [0]])
          [0, 0, - 98 / 10] [0, 0, 0, 0, 0, 0]
          [Identity 4, Identity 4] [Zero 6 6] [[0], [0], [1], [0], [0], [0]]
        = ddthetalist"
  then obtain s where s: "\<And>ddthetalist. length ddthetalist = 1 \<Longrightarrow>
        ForwardDynamics s [0] [0]
          (InverseDynamics [0] [0] ddthetalist [0, 0, - 98 / 10] [0, 0, 0, 0, 0, 0]
             [Identity 4, Identity 4] [Zero 6 6] [[0], [0], [1], [0], [0], [0]])
          [0, 0, - 98 / 10] [0, 0, 0, 0, 0, 0]
          [Identity 4, Identity 4] [Zero 6 6] [[0], [0], [1], [0], [0], [0]]
        = ddthetalist"
    by blast
  from s [of "[1]"] s [of "[2]"] show False
    by (simp add: one_joint_ID_massless)
qed

text \<open>
  Claim C1, amended.  For an \<open>n\<close>-joint model with \<open>n + 1\<close> home transforms, \<open>n\<close> spatial
  inertias of six rows and \<open>n\<close> screw axes, joint vectors of length \<open>n\<close>, a gravity 3-vector
  and a tip wrench, and a mass matrix \<open>M(\<theta>)\<close> on which the \<open>LDLT\<close> solve is exact
  (\<open>solve(M, M x) = x\<close>, which needs \<open>M\<close> nonsingular), \<open>ForwardDynamics\<close> applied to the
  torques of \<open>InverseDynamics\<close> returns the accelerations.  The equality is exact in real
  arithmetic.
\<close>

theorem dynamics_duality:
  assumes "length dthetalist = length thetalist" "length ddthetalist = length thetalist"
    and "length g = 3" "length Ftip = 6"
    and "length Mlist = length thetalist + 1" "length Glist = length thetalist"
    and "\<forall>i<length thetalist. length (Glist ! i) = 6"
    and "\<forall>x. length x = length thetalist \<longrightarrow>
           ldlt_solve (MassMatrix thetalist Mlist Glist Slist)
             (mv (MassMatrix thetalist Mlist Glist Slist) x) = x"
  shows "ForwardDynamics ldlt_solve thetalist dthetalist
           (InverseDynamics thetalist dthetalist ddthetalist g Ftip Mlist Glist Slist)
           g Ftip Mlist Glist Slist
         = ddthetalist"
proof -
  let ?n = "length thetalist"
  let ?acc = "InverseDynamics thetalist (vzero ?n) ddthetalist (vzero 3) (vzero 6) Mlist Glist Slist"
  have len: "length (VelQuadraticForces thetalist dthetalist Mlist Glist Slist) = ?n"
    "length (GravityForces thetalist g Mlist Glist Slist) = ?n"
    "length (EndEffectorForces thetalist Ftip Mlist Glist Slist) = ?n"
    by (simp_all add: VelQuadraticForces_def GravityForces_def EndEffectorForces_def Let_def)
  have "vsub (vsub (vsub (InverseDynamics thetalist dthetalist ddthetalist g Ftip Mlist Glist Slist)
                       (VelQuadraticForces thetalist dthetalist Mlist Glist Slist))
                 (GravityForces thetalist g Mlist Glist Slist))
           (EndEffectorForces thetalist Ftip Mlist Glist Slist) = ?acc"
    unfolding InverseDynamics_decomposition [OF assms(2,3,4,7)]
    by (rule total_force [where n = ?n]) (simp_all add: len)
  moreover have "?acc = mv (MassMatrix thetalist Mlist Glist Slist) ddthetalist"
    by (rule mv_MassMatrix [OF assms(2,7), symmetric])
  ultimately show ?thesis
    using assms(2,8) by (simp add: ForwardDynamics_def Let_def)
qed

theorem dynamics_duality_witness:
  "ForwardDynamics (\<lambda>M b. [b ! 0 / M ! 0 ! 0]) [0] [1 / 2]
     (InverseDynamics [0] [1 / 2] [2] [0, 0, - 98 / 10] [1, 1, 1, 1, 1, 1]
        [Identity 4, Identity 4] [Identity 6] [[0], [0], [1], [0], [0], [0]])
     [0, 0, - 98 / 10] [1, 1, 1, 1, 1, 1]
     [Identity 4, Identity 4] [Identity 6] [[0], [0], [1], [0], [0], [0]]
   = [2]
   \<and> InverseDynamics [0] [1 / 2] [2] [0, 0, - 98 / 10] [1, 1, 1, 1, 1, 1]
        [Identity 4, Identity 4] [Identity 6] [[0], [0], [1], [0], [0], [0]] = [3]"
proof -
  have solver: "\<forall>x. length x = length [0::real] \<longrightarrow>
       (\<lambda>M b. [b ! 0 / M ! 0 ! 0])
         (MassMatrix [0] [Identity 4, Identity 4] [Identity 6] [[0], [0], [1], [0], [0], [0]])
         (mv (MassMatrix [0] [Identity 4, Identity 4] [Identity 6] [[0], [0], [1], [0], [0], [0]]) x)
       = x"
  proof (intro allI impI)
    fix x :: vec assume "length x = length [0::real]"
    then obtain a where "x = [a]" by (cases x) simp_all
    then show "(\<lambda>M b. [b ! 0 / M ! 0 ! 0])
         (MassMatrix [0] [Identity 4, Identity 4] [Identity 6] [[0], [0], [1], [0], [0], [0]])
         (mv (MassMatrix [0] [Identity 4, Identity 4] [Identity 6] [[0], [0], [1], [0], [0], [0]]) x)
       = x"
      by (simp add: one_joint_MassMatrix mv_def)
  qed
  have G: "\<forall>i<length [0::real]. length ([Identity 6] ! i) = 6"
    by (simp add: Identity_6)
  show ?thesis
    using dynamics_duality [where thetalist = "[0]" and dthetalist = "[1 / 2]"
        and ddthetalist = "[2]" and g = "[0, 0, - 98 / 10]" and Ftip = "[1, 1, 1, 1, 1, 1]"
        and Mlist = "[Identity 4, Identity 4]" and Glist = "[Identity 6]"
        and Slist = "[[0], [0], [1], [0], [0], [0]]"
        and ldlt_solve = "\<lambda>M b. [b ! 0 / M ! 0 ! 0]", OF _ _ _ _ _ _ G solver]
    by (simp add: one_joint_ID)
qed

section \<open>Computed-torque control\<close>

text \<open>
  Claim C5, as the claim states it: the integral gain would multiply the passed-in
  integral error alone.  On a one-joint model with unit mass matrix, gains
  \<open>Kp = 2\<close>, \<open>Ki = 3\<close>, \<open>Kd = 5\<close>, integral error 1, position error 1 and velocity error 1,
  the source returns \<open>2 + 3 (1 + 1) + 5 = 13\<close> and the claimed law \<open>2 + 3 + 5 = 10\<close>.
\<close>

theorem ComputedTorque_integral_term:
  "ComputedTorque [0] [0] [1] [0, 0, 0] [Identity 4, Identity 4] [Identity 6]
      [[0], [0], [1], [0], [0], [0]] [1] [1] [0] 2 3 5 = [13]
   \<and> ComputedTorque_spec [0] [0] [1] [0, 0, 0] [Identity 4, Identity 4] [Identity 6]
      [[0], [0], [1], [0], [0], [0]] [1] [1] [0] 2 3 5 = [10]
   \<and> ComputedTorque [0] [0] [1] [0, 0, 0] [Identity 4, Identity 4] [Identity 6]
      [[0], [0], [1], [0], [0], [0]] [1] [1] [0] 2 3 5
     \<noteq> ComputedTorque_spec [0] [0] [1] [0, 0, 0] [Identity 4, Identity 4] [Identity 6]
      [[0], [0], [1], [0], [0], [0]] [1] [1] [0] 2 3 5"
  by (simp add: ComputedTorque_def ComputedTorque_spec_def one_joint_MassMatrix one_joint_ID
      vzero_numeral mv_def)

lemma control_step_fields:
  "taumatT (control_step ldlt_solve g Ftipmat Mlist Glist Slist thetamatd dthetamatd ddthetamatd
              gtilde Mtildelist Gtildelist Kp Ki Kd dt intRes i s)
     = (taumatT s)[i := ComputedTorque (thetacurrent s) (dthetacurrent s) (eint_acc s) gtilde
                          Mtildelist Gtildelist Slist (thetamatd ! i) (dthetamatd ! i)
                          (ddthetamatd ! i) Kp Ki Kd]"
  "thetamatT (control_step ldlt_solve g Ftipmat Mlist Glist Slist thetamatd dthetamatd ddthetamatd
               gtilde Mtildelist Gtildelist Kp Ki Kd dt intRes i s)
     = (thetamatT s)[i := thetacurrent (control_step ldlt_solve g Ftipmat Mlist Glist Slist
                             thetamatd dthetamatd ddthetamatd gtilde Mtildelist Gtildelist Kp Ki Kd
                             dt intRes i s)]"
  "eint_acc (control_step ldlt_solve g Ftipmat Mlist Glist Slist thetamatd dthetamatd ddthetamatd
              gtilde Mtildelist Gtildelist Kp Ki Kd dt intRes i s)
     = vadd (eint_acc s)
         (smult dt (vsub (thetamatd ! i)
            (thetacurrent (control_step ldlt_solve g Ftipmat Mlist Glist Slist thetamatd
                             dthetamatd ddthetamatd gtilde Mtildelist Gtildelist Kp Ki Kd dt
                             intRes i s))))"
  by (simp_all add: control_step_def Let_def split: prod.split)

lemma control_step_plant:
  "(thetacurrent (control_step ldlt_solve g Ftipmat Mlist Glist Slist thetamatd dthetamatd
                    ddthetamatd gtilde Mtildelist Gtildelist Kp Ki Kd dt intRes i s),
    dthetacurrent (control_step ldlt_solve g Ftipmat Mlist Glist Slist thetamatd dthetamatd
                     ddthetamatd gtilde Mtildelist Gtildelist Kp Ki Kd dt intRes i s))
     = fold (\<lambda>j (th, dth).
               EulerStep th dth
                 (ForwardDynamics ldlt_solve th dth
                    (ComputedTorque (thetacurrent s) (dthetacurrent s) (eint_acc s) gtilde
                       Mtildelist Gtildelist Slist (thetamatd ! i) (dthetamatd ! i)
                       (ddthetamatd ! i) Kp Ki Kd)
                    g (Ftipmat ! i) Mlist Glist Slist)
                 (dt / real_of_int intRes))
         [0..<nat intRes] (thetacurrent s, dthetacurrent s)"
  by (simp add: control_step_def Let_def split: prod.split)

lemma fold_record_prefix:
  fixes step :: "nat \<Rightarrow> control_state \<Rightarrow> control_state"
  assumes tau: "\<And>i s. taumatT (step i s) = (taumatT s)[i := tau i s]"
    and th: "\<And>i s. thetamatT (step i s) = (thetamatT s)[i := thetacurrent (step i s)]"
  shows "length (taumatT (fold step [0..<n] s0)) = length (taumatT s0)
       \<and> length (thetamatT (fold step [0..<n] s0)) = length (thetamatT s0)
       \<and> (\<forall>k<n. k < length (taumatT s0) \<longrightarrow>
             taumatT (fold step [0..<n] s0) ! k = tau k (fold step [0..<k] s0))
       \<and> (\<forall>k<n. k < length (thetamatT s0) \<longrightarrow>
             thetamatT (fold step [0..<n] s0) ! k = thetacurrent (fold step [0..<Suc k] s0))"
proof (induction n)
  case 0
  show ?case by simp
next
  case (Suc n)
  have f: "fold step [0..<Suc n] s0 = step n (fold step [0..<n] s0)" by simp
  show ?case
    unfolding f tau th using Suc.IH
    by (auto simp: nth_list_update less_Suc_eq simp del: upt_Suc) (simp add: th)
qed

lemma fold_eint_prefix:
  fixes step :: "nat \<Rightarrow> control_state \<Rightarrow> control_state"
  assumes tau: "\<And>i s. taumatT (step i s) = (taumatT s)[i := tau i s]"
    and th: "\<And>i s. thetamatT (step i s) = (thetamatT s)[i := thetacurrent (step i s)]"
    and e: "\<And>i s. eint_acc (step i s)
              = vadd (eint_acc s) (smult dt (vsub (d i) (thetacurrent (step i s))))"
    and n: "n \<le> length (thetamatT s0)"
  shows "k \<le> n \<Longrightarrow>
     eint_acc (fold step [0..<k] s0)
       = fold (\<lambda>j acc. vadd acc (smult dt (vsub (d j) (thetamatT (fold step [0..<n] s0) ! j))))
           [0..<k] (eint_acc s0)"
proof (induction k)
  case 0
  show ?case by simp
next
  case (Suc k)
  have k: "k < n" "k < length (thetamatT s0)" using Suc.prems n by simp_all
  have rec: "thetamatT (fold step [0..<n] s0) ! k = thetacurrent (fold step [0..<Suc k] s0)"
    using fold_record_prefix [of step tau n s0, OF tau th] k by blast
  have f: "fold step [0..<Suc k] s0 = step k (fold step [0..<k] s0)" by simp
  have "eint_acc (fold step [0..<Suc k] s0)
      = vadd (eint_acc (fold step [0..<k] s0))
          (smult dt (vsub (d k) (thetacurrent (fold step [0..<Suc k] s0))))"
    unfolding f by (rule e)
  also have "eint_acc (fold step [0..<k] s0)
      = fold (\<lambda>j acc. vadd acc (smult dt (vsub (d j) (thetamatT (fold step [0..<n] s0) ! j))))
          [0..<k] (eint_acc s0)"
    using Suc.IH k(1) by simp
  finally show ?case unfolding rec [symmetric] by simp
qed

lemma one_joint_ComputedTorque:
  "ComputedTorque [0] [w] [e] [0, 0, 0] [Identity 4, Identity 4] [Identity 6]
      [[0], [0], [1], [0], [0], [0]] [1] [1] [0] 2 3 5 = [2 + 3 * (e + 1) + 5 * (1 - w)]"
  by (simp add: ComputedTorque_def one_joint_MassMatrix one_joint_ID vzero_numeral mv_def)

lemma one_joint_ForwardDynamics:
  "ForwardDynamics (\<lambda>M b. [b ! 0 / M ! 0 ! 0]) [0] [w] [t] [0, 0, 0] [0, 0, 0, 0, 0, 0]
      [Identity 4, Identity 4] [Identity 6] [[0], [0], [1], [0], [0], [0]] = [t]"
  by (simp add: ForwardDynamics_def VelQuadraticForces_def GravityForces_def EndEffectorForces_def
      one_joint_MassMatrix one_joint_ID vzero_numeral)

text \<open>
  Claim C5, amended.  \<open>ComputedTorque\<close> returns
  \<open>MassMatrix(\<theta>) (Kp e + Ki (eint + e) + Kd (\<theta>\<^sub>d' - \<theta>')) + InverseDynamics(\<theta>, \<theta>', \<theta>\<^sub>d'', g, 0)\<close>
  with \<open>e = \<theta>\<^sub>d - \<theta>\<close>: the integral gain multiplies the passed-in integral error plus the
  current error.  \<open>SimulateControl\<close> starts from the given state with integral error zero;
  its control step \<open>k\<close> takes the state left by step \<open>k - 1\<close>, records as row \<open>k\<close> of the
  torque matrix the torque computed from that state and the integral error accumulated so
  far, moves the plant by \<open>intRes\<close> Euler steps of \<open>dt / intRes\<close> under that torque, records as
  row \<open>k\<close> of the position matrix the plant position after the step, and adds \<open>dt\<close> times the
  error of that position to the integral error (explicit Euler).
\<close>

theorem ComputedTorque_law:
  assumes "k < length thetamatd"
  shows "ComputedTorque th dth eint g' Ml Gl Sl thd dthd ddthd Kp' Ki' Kd'
     = vadd (mv (MassMatrix th Ml Gl Sl)
               (vadd (vadd (smult Kp' (vsub thd th)) (smult Ki' (vadd eint (vsub thd th))))
                  (smult Kd' (vsub dthd dth))))
         (InverseDynamics th dth ddthd g' (vzero 6) Ml Gl Sl)
   \<and> (let S = SimulateControl_state ldlt_solve thetalist dthetalist g Ftipmat Mlist Glist Slist thetamatd dthetamatd
          ddthetamatd gtilde Mtildelist Gtildelist Kp Ki Kd dt intRes;
           R = SimulateControl ldlt_solve thetalist dthetalist g Ftipmat Mlist Glist Slist thetamatd dthetamatd
          ddthetamatd gtilde Mtildelist Gtildelist Kp Ki Kd dt intRes
       in thetacurrent (S 0) = thetalist \<and> dthetacurrent (S 0) = dthetalist
          \<and> eint_acc (S 0) = vzero (ncols thetamatd)
          \<and> S (Suc k) = control_step ldlt_solve g Ftipmat Mlist Glist Slist thetamatd dthetamatd
          ddthetamatd gtilde Mtildelist Gtildelist Kp Ki Kd dt intRes k (S k)
          \<and> length (fst R) = length thetamatd \<and> length (snd R) = length thetamatd
          \<and> fst R ! k = ComputedTorque (thetacurrent (S k)) (dthetacurrent (S k)) (eint_acc (S k))
                          gtilde Mtildelist Gtildelist Slist (thetamatd ! k) (dthetamatd ! k)
                          (ddthetamatd ! k) Kp Ki Kd
          \<and> snd R ! k = thetacurrent (S (Suc k))
          \<and> eint_acc (S (Suc k))
              = vadd (eint_acc (S k)) (smult dt (vsub (thetamatd ! k) (snd R ! k)))
          \<and> thetacurrent (S k) = (if k = 0 then thetalist else snd R ! (k - 1))
          \<and> eint_acc (S k)
              = fold (\<lambda>j acc. vadd acc (smult dt (vsub (thetamatd ! j) (snd R ! j)))) [0..<k]
                  (vzero (ncols thetamatd))
          \<and> (thetacurrent (S (Suc k)), dthetacurrent (S (Suc k)))
              = fold (\<lambda>j (th, dth).
                        EulerStep th dth
                          (ForwardDynamics ldlt_solve th dth (fst R ! k) g (Ftipmat ! k)
                             Mlist Glist Slist)
                          (dt / real_of_int intRes))
                  [0..<nat intRes] (thetacurrent (S k), dthetacurrent (S k)))"
proof -
  let ?step = "control_step ldlt_solve g Ftipmat Mlist Glist Slist thetamatd dthetamatd
          ddthetamatd gtilde Mtildelist Gtildelist Kp Ki Kd dt intRes"
  let ?s0 = "\<lparr> thetacurrent = thetalist, dthetacurrent = dthetalist,
         eint_acc = vzero (ncols thetamatd),
         taumatT = replicate (length thetamatd) (vzero (ncols thetamatd)),
         thetamatT = replicate (length thetamatd) (vzero (ncols thetamatd)) \<rparr>"
  let ?n = "length thetamatd"
  have S: "SimulateControl_state ldlt_solve thetalist dthetalist g Ftipmat Mlist Glist Slist thetamatd dthetamatd
          ddthetamatd gtilde Mtildelist Gtildelist Kp Ki Kd dt intRes j = fold ?step [0..<j] ?s0" for j
    by (simp add: SimulateControl_state_def)
  have R: "SimulateControl ldlt_solve thetalist dthetalist g Ftipmat Mlist Glist Slist thetamatd dthetamatd
          ddthetamatd gtilde Mtildelist Gtildelist Kp Ki Kd dt intRes
      = (taumatT (fold ?step [0..<?n] ?s0), thetamatT (fold ?step [0..<?n] ?s0))"
    by (simp add: SimulateControl_def Let_def)
  note inv = fold_record_prefix [of ?step _ ?n ?s0, OF control_step_fields(1) control_step_fields(2)]
  have len: "length (taumatT (fold ?step [0..<?n] ?s0)) = ?n"
    "length (thetamatT (fold ?step [0..<?n] ?s0)) = ?n"
    using inv by simp_all
  have tau: "taumatT (fold ?step [0..<?n] ?s0) ! k
      = ComputedTorque (thetacurrent (fold ?step [0..<k] ?s0)) (dthetacurrent (fold ?step [0..<k] ?s0))
          (eint_acc (fold ?step [0..<k] ?s0)) gtilde Mtildelist Gtildelist Slist (thetamatd ! k)
          (dthetamatd ! k) (ddthetamatd ! k) Kp Ki Kd"
    using inv assms by simp
  have theta: "thetamatT (fold ?step [0..<?n] ?s0) ! k = thetacurrent (fold ?step [0..<Suc k] ?s0)"
    using inv assms by simp
  have suc: "fold ?step [0..<Suc k] ?s0 = ?step k (fold ?step [0..<k] ?s0)" by simp
  have e: "eint_acc (fold ?step [0..<Suc k] ?s0)
      = vadd (eint_acc (fold ?step [0..<k] ?s0))
          (smult dt (vsub (thetamatd ! k) (thetacurrent (fold ?step [0..<Suc k] ?s0))))"
    unfolding suc by (rule control_step_fields(3))
  have law: "ComputedTorque th dth eint g' Ml Gl Sl thd dthd ddthd Kp' Ki' Kd'
     = vadd (mv (MassMatrix th Ml Gl Sl)
               (vadd (vadd (smult Kp' (vsub thd th)) (smult Ki' (vadd eint (vsub thd th))))
                  (smult Kd' (vsub dthd dth))))
         (InverseDynamics th dth ddthd g' (vzero 6) Ml Gl Sl)"
    by (simp add: ComputedTorque_def Let_def)
  have prev: "thetacurrent (fold ?step [0..<k] ?s0)
      = (if k = 0 then thetalist else thetamatT (fold ?step [0..<?n] ?s0) ! (k - 1))"
  proof (cases k)
    case 0
    then show ?thesis by simp
  next
    case (Suc j)
    have "thetamatT (fold ?step [0..<?n] ?s0) ! j = thetacurrent (fold ?step [0..<Suc j] ?s0)"
      using inv assms Suc by simp
    then show ?thesis unfolding Suc by simp
  qed
  have acc: "eint_acc (fold ?step [0..<k] ?s0)
      = fold (\<lambda>j acc. vadd acc (smult dt (vsub (thetamatd ! j)
                (thetamatT (fold ?step [0..<?n] ?s0) ! j)))) [0..<k] (vzero (ncols thetamatd))"
    using fold_eint_prefix [of ?step _ dt "\<lambda>i. thetamatd ! i" ?n ?s0 k,
        OF control_step_fields(1) control_step_fields(2) control_step_fields(3)] assms
    by simp
  have plant: "(thetacurrent (fold ?step [0..<Suc k] ?s0), dthetacurrent (fold ?step [0..<Suc k] ?s0))
      = fold (\<lambda>j (th, dth).
                EulerStep th dth
                  (ForwardDynamics ldlt_solve th dth (taumatT (fold ?step [0..<?n] ?s0) ! k) g
                     (Ftipmat ! k) Mlist Glist Slist)
                  (dt / real_of_int intRes))
          [0..<nat intRes]
          (thetacurrent (fold ?step [0..<k] ?s0), dthetacurrent (fold ?step [0..<k] ?s0))"
    unfolding suc tau by (rule control_step_plant)
  have e': "eint_acc (fold ?step [0..<Suc k] ?s0)
      = vadd (eint_acc (fold ?step [0..<k] ?s0))
          (smult dt (vsub (thetamatd ! k) (thetamatT (fold ?step [0..<?n] ?s0) ! k)))"
    unfolding theta by (rule e)
  have main: "thetacurrent (fold ?step [0..<0] ?s0) = thetalist
      \<and> dthetacurrent (fold ?step [0..<0] ?s0) = dthetalist
      \<and> eint_acc (fold ?step [0..<0] ?s0) = vzero (ncols thetamatd)"
    by simp
  show ?thesis
    unfolding Let_def S R fst_conv snd_conv
    by (intro conjI law len tau theta e' suc prev acc plant main [THEN conjunct1]
        main [THEN conjunct2, THEN conjunct1] main [THEN conjunct2, THEN conjunct2])
qed

theorem ComputedTorque_law_witness:
  "fst (SimulateControl (\<lambda>M b. [b ! 0 / M ! 0 ! 0]) [0] [0] [0, 0, 0]
        [[0, 0, 0, 0, 0, 0], [0, 0, 0, 0, 0, 0]] [Identity 4, Identity 4] [Identity 6]
        [[0], [0], [1], [0], [0], [0]] [[1], [1]] [[1], [1]] [[0], [0]] [0, 0, 0]
        [Identity 4, Identity 4] [Identity 6] 2 3 5 (1 / 2) 1) ! 1 = [- (27 / 2)]
   \<and> snd (SimulateControl (\<lambda>M b. [b ! 0 / M ! 0 ! 0]) [0] [0] [0, 0, 0]
        [[0, 0, 0, 0, 0, 0], [0, 0, 0, 0, 0, 0]] [Identity 4, Identity 4] [Identity 6]
        [[0], [0], [1], [0], [0], [0]] [[1], [1]] [[1], [1]] [[0], [0]] [0, 0, 0]
        [Identity 4, Identity 4] [Identity 6] 2 3 5 (1 / 2) 1) ! 1 = [5 / 2]
   \<and> eint_acc (SimulateControl_state (\<lambda>M b. [b ! 0 / M ! 0 ! 0]) [0] [0] [0, 0, 0]
        [[0, 0, 0, 0, 0, 0], [0, 0, 0, 0, 0, 0]] [Identity 4, Identity 4] [Identity 6]
        [[0], [0], [1], [0], [0], [0]] [[1], [1]] [[1], [1]] [[0], [0]] [0, 0, 0]
        [Identity 4, Identity 4] [Identity 6] 2 3 5 (1 / 2) 1 1) = [1 / 2]
   \<and> eint_acc (SimulateControl_state (\<lambda>M b. [b ! 0 / M ! 0 ! 0]) [0] [0] [0, 0, 0]
        [[0, 0, 0, 0, 0, 0], [0, 0, 0, 0, 0, 0]] [Identity 4, Identity 4] [Identity 6]
        [[0], [0], [1], [0], [0], [0]] [[1], [1]] [[1], [1]] [[0], [0]] [0, 0, 0]
        [Identity 4, Identity 4] [Identity 6] 2 3 5 (1 / 2) 1 2) = [- (1 / 4)]"
proof -
  have s1: "SimulateControl_state (\<lambda>M b. [b ! 0 / M ! 0 ! 0]) [0] [0] [0, 0, 0]
        [[0, 0, 0, 0, 0, 0], [0, 0, 0, 0, 0, 0]] [Identity 4, Identity 4] [Identity 6]
        [[0], [0], [1], [0], [0], [0]] [[1], [1]] [[1], [1]] [[0], [0]] [0, 0, 0]
        [Identity 4, Identity 4] [Identity 6] 2 3 5 (1 / 2) 1 (Suc 0)
      = \<lparr> thetacurrent = [0], dthetacurrent = [5], eint_acc = [1 / 2],
          taumatT = [[10], [0]], thetamatT = [[0], [0]] \<rparr>"
    by (simp add: SimulateControl_state_def control_step_def ncols_def vzero_def
        one_joint_ComputedTorque one_joint_ForwardDynamics EulerStep_def)
  have s2: "(control_step (\<lambda>M b. [b ! 0 / M ! 0 ! 0]) [0, 0, 0]
        [[0, 0, 0, 0, 0, 0], [0, 0, 0, 0, 0, 0]] [Identity 4, Identity 4] [Identity 6]
        [[0], [0], [1], [0], [0], [0]] [[1], [1]] [[1], [1]] [[0], [0]] [0, 0, 0]
        [Identity 4, Identity 4] [Identity 6] 2 3 5 (1 / 2) 1 (Suc 0)
        \<lparr> thetacurrent = [0], dthetacurrent = [5], eint_acc = [1 / 2],
          taumatT = [[10], [0]], thetamatT = [[0], [0]] \<rparr>)
      = \<lparr> thetacurrent = [5 / 2], dthetacurrent = [- (7 / 4)], eint_acc = [- (1 / 4)],
          taumatT = [[10], [- (27 / 2)]], thetamatT = [[0], [5 / 2]] \<rparr>"
    by (simp add: control_step_def one_joint_ComputedTorque one_joint_ForwardDynamics EulerStep_def)
  have k: "1 < length [[1], [1 :: real]]" by simp
  note L = ComputedTorque_law [where k = 1 and thetamatd = "[[1], [1]]"
        and ldlt_solve = "\<lambda>M b. [b ! 0 / M ! 0 ! 0]" and thetalist = "[0]" and dthetalist = "[0]"
        and g = "[0, 0, 0]" and Ftipmat = "[[0, 0, 0, 0, 0, 0], [0, 0, 0, 0, 0, 0]]"
        and Mlist = "[Identity 4, Identity 4]" and Glist = "[Identity 6]"
        and Slist = "[[0], [0], [1], [0], [0], [0]]" and dthetamatd = "[[1], [1]]"
        and ddthetamatd = "[[0], [0]]" and gtilde = "[0, 0, 0]"
        and Mtildelist = "[Identity 4, Identity 4]" and Gtildelist = "[Identity 6]"
        and Kp = 2 and Ki = 3 and Kd = 5 and dt = "1 / 2" and intRes = 1
        and th = "[0]" and dth = "[0]" and eint = "[0]" and g' = "[0, 0, 0]"
        and Ml = "[Identity 4, Identity 4]" and Gl = "[Identity 6]"
        and Sl = "[[0], [0], [1], [0], [0], [0]]" and thd = "[1]" and dthd = "[1]"
        and ddthd = "[0]" and Kp' = 2 and Ki' = 3 and Kd' = 5, OF k, unfolded Let_def,
        THEN conjunct2]
  note step = L [THEN conjunct2, THEN conjunct2, THEN conjunct2, THEN conjunct1]
  note torque = L [THEN conjunct2, THEN conjunct2, THEN conjunct2, THEN conjunct2, THEN conjunct2,
      THEN conjunct2, THEN conjunct1]
  note position = L [THEN conjunct2, THEN conjunct2, THEN conjunct2, THEN conjunct2,
      THEN conjunct2, THEN conjunct2, THEN conjunct2, THEN conjunct1]
  have s3: "SimulateControl_state (\<lambda>M b. [b ! 0 / M ! 0 ! 0]) [0] [0] [0, 0, 0]
        [[0, 0, 0, 0, 0, 0], [0, 0, 0, 0, 0, 0]] [Identity 4, Identity 4] [Identity 6]
        [[0], [0], [1], [0], [0], [0]] [[1], [1]] [[1], [1]] [[0], [0]] [0, 0, 0]
        [Identity 4, Identity 4] [Identity 6] 2 3 5 (1 / 2) 1 (Suc 1)
      = \<lparr> thetacurrent = [5 / 2], dthetacurrent = [- (7 / 4)], eint_acc = [- (1 / 4)],
          taumatT = [[10], [- (27 / 2)]], thetamatT = [[0], [5 / 2]] \<rparr>"
    unfolding step using s1 s2 by simp
  have t: "fst (SimulateControl (\<lambda>M b. [b ! 0 / M ! 0 ! 0]) [0] [0] [0, 0, 0]
        [[0, 0, 0, 0, 0, 0], [0, 0, 0, 0, 0, 0]] [Identity 4, Identity 4] [Identity 6]
        [[0], [0], [1], [0], [0], [0]] [[1], [1]] [[1], [1]] [[0], [0]] [0, 0, 0]
        [Identity 4, Identity 4] [Identity 6] 2 3 5 (1 / 2) 1) ! 1 = [- (27 / 2)]"
    unfolding torque using s1 by (simp add: one_joint_ComputedTorque)
  have p: "snd (SimulateControl (\<lambda>M b. [b ! 0 / M ! 0 ! 0]) [0] [0] [0, 0, 0]
        [[0, 0, 0, 0, 0, 0], [0, 0, 0, 0, 0, 0]] [Identity 4, Identity 4] [Identity 6]
        [[0], [0], [1], [0], [0], [0]] [[1], [1]] [[1], [1]] [[0], [0]] [0, 0, 0]
        [Identity 4, Identity 4] [Identity 6] 2 3 5 (1 / 2) 1) ! 1 = [5 / 2]"
    unfolding position s3 by simp
  show ?thesis
    using t p s1 s3 by (simp add: numeral_2_eq_2)
qed

section \<open>The mass matrix as an energy form\<close>

text \<open>
  With zero velocity, gravity and tip wrench the torques satisfy
  \<open>x \<cdot> M(\<theta>) y = \<Sum>\<^sub>i (G\<^sub>i X\<^sub>i\<^sub>+\<^sub>1(y)) \<cdot> X\<^sub>i\<^sub>+\<^sub>1(x)\<close>, where \<open>X\<^sub>i(z)\<close> is the twist of link
  \<open>i\<close> when the joint accelerations are \<open>z\<close>.
\<close>

lemma vzero6_lit: "[0, 0, 0, 0, 0, 0] = vzero 6"
  by (simp add: vzero_def eval_nat_numeral)

lemma X_link_0:
  "Vd_link thetalist dthetalist ddthetalist (vzero 3) Mlist Slist 0 = vzero 6"
  by (simp add: Vd_link.simps vzero6_lit)

lemma X_link_Suc:
  assumes "i < length thetalist"
  shows "Vd_link thetalist (vzero (length thetalist)) x (vzero 3) Mlist Slist (Suc i)
       = vadd (mv (AdT_link thetalist Mlist Slist i)
                 (Vd_link thetalist (vzero (length thetalist)) x (vzero 3) Mlist Slist i))
           (smult (x ! i) (A_link Mlist Slist i))"
  using assms by (simp add: Vd_link.simps)

lemma W_link_Suc:
  assumes "Suc d \<le> length thetalist" "\<forall>i<length thetalist. length (Glist ! i) = 6"
  shows "F_link thetalist (vzero (length thetalist)) x (vzero 3) (vzero 6) Mlist Glist Slist (Suc d)
       = vadd (mv (mtranspose (AdT_link thetalist Mlist Slist (Suc (length thetalist - Suc d))))
                 (F_link thetalist (vzero (length thetalist)) x (vzero 3) (vzero 6)
                    Mlist Glist Slist d))
           (mv (Glist ! (length thetalist - Suc d))
              (Vd_link thetalist (vzero (length thetalist)) x (vzero 3) Mlist Slist
                 (Suc (length thetalist - Suc d))))"
proof -
  have i: "length thetalist - Suc d < length thetalist"
    "Suc (length thetalist - Suc d) \<le> length thetalist"
    using assms(1) by simp_all
  have "length (Glist ! (length thetalist - Suc d)) = 6" using assms(2) i(1) by blast
  then show ?thesis
    by (simp add: F_link_Suc V_link_zero [OF i(2)])
qed

text \<open>Rows of the adjoint matrices have six entries.\<close>

lemma rows_Adjoint: "r \<in> set (Adjoint T) \<Longrightarrow> length r = 6"
  by (auto simp: Adjoint_def TransToRp_def hcat_def block_def mm_def VecToso3_def Zero_3_3
      ncols_def upt_conv_Cons)

lemma rows_AdT_link: "r \<in> set (AdT_link thetalist Mlist Slist i) \<Longrightarrow> length r = 6"
  by (auto simp: AdT_link_def dest: rows_Adjoint split: if_splits)

lemma ncols_rows: "A \<noteq> [] \<Longrightarrow> \<forall>r\<in>set A. length r = c \<Longrightarrow> ncols A = c"
  by (cases A) (simp_all add: ncols_def)

lemma dot_mcol:
  assumes "length f = length A"
  shows "dot (mcol A j) f = (\<Sum>i<length A. A ! i ! j * f ! i)"
  using assms by (simp add: dot_sum mcol_def)

lemma dot_mv_transpose:
  assumes A: "\<forall>r\<in>set A. length r = c" "ncols A = c"
    and f: "length f = length A" and v: "length v = c"
  shows "dot (mv (mtranspose A) f) v = dot f (mv A v)"
proof -
  have "dot (mv (mtranspose A) f) v = (\<Sum>j<c. mv (mtranspose A) f ! j * v ! j)"
    using A(2) v by (simp add: dot_sum)
  also have "\<dots> = (\<Sum>j<c. (\<Sum>i<length A. A ! i ! j * f ! i) * v ! j)"
    using A(2) f by (intro sum.cong refl) (simp add: mv_def mtranspose_def dot_mcol)
  also have "\<dots> = (\<Sum>j<c. \<Sum>i<length A. f ! i * (A ! i ! j * v ! j))"
    by (intro sum.cong refl) (simp add: sum_distrib_left sum_distrib_right mult_ac)
  also have "\<dots> = (\<Sum>i<length A. \<Sum>j<c. f ! i * (A ! i ! j * v ! j))"
    by (rule sum.swap)
  also have "\<dots> = (\<Sum>i<length A. f ! i * dot (A ! i) v)"
    using A(1) v by (intro sum.cong refl) (simp add: dot_sum sum_distrib_left)
  also have "\<dots> = dot f (mv A v)"
    using f by (simp add: dot_sum mv_def)
  finally show ?thesis .
qed

lemma dot_AdT_transpose:
  assumes "length f = 6" "length v = 6"
  shows "dot (mv (mtranspose (AdT_link thetalist Mlist Slist i)) f) v
       = dot f (mv (AdT_link thetalist Mlist Slist i) v)"
  by (rule dot_mv_transpose [where c = 6]) (simp_all add: rows_AdT_link assms)


lemma energy_partial:
  fixes thetalist x y :: vec and Mlist Glist :: "mat list" and Slist :: mat
  defines "n \<equiv> length thetalist"
  defines "X \<equiv> \<lambda>z. Vd_link thetalist (vzero n) z (vzero 3) Mlist Slist"
  defines "W \<equiv> F_link thetalist (vzero n) y (vzero 3) (vzero 6) Mlist Glist Slist"
  assumes G: "\<forall>i<n. length (Glist ! i) = 6" and d: "d \<le> n"
  shows "(\<Sum>i = n - d..<n. x ! i * dot (W (n - i)) (A_link Mlist Slist i))
       = (\<Sum>i = n - d..<n. dot (mv (Glist ! i) (X y (Suc i))) (X x (Suc i)))
         - dot (W d) (mv (AdT_link thetalist Mlist Slist (n - d)) (X x (n - d)))"
  using d
proof (induction d)
  case 0
  show ?case by (simp add: W_def F_link.simps)
next
  case (Suc d)
  define k where "k = n - Suc d"
  have k: "k < n" "Suc k = n - d" "n - k = Suc d" "n - Suc d = k" "Suc k \<le> n"
    using Suc.prems by (simp_all add: k_def Suc_diff_Suc)
  let ?T = "AdT_link thetalist Mlist Slist"
  let ?A = "A_link Mlist Slist"
  have lG: "length (Glist ! k) = 6" using G k(1) by blast
  have lW: "length (W d) = 6" "length (W (Suc d)) = 6"
    unfolding W_def using G Suc.prems
    by (simp_all add: length_F_link n_def [symmetric])
  have lX: "length (X z i) = 6" for z i by (simp add: X_def)
  have Xs: "X x (Suc k) = vadd (mv (?T k) (X x k)) (smult (x ! k) (?A k))"
    unfolding X_def n_def using k(1) by (intro X_link_Suc) (simp add: n_def)
  have Ws: "W (Suc d) = vadd (mv (mtranspose (?T (Suc k))) (W d)) (mv (Glist ! k) (X y (Suc k)))"
    unfolding W_def X_def n_def k_def
    using Suc.prems G by (intro W_link_Suc) (simp_all add: n_def)
  have "dot (W (Suc d)) (X x (Suc k))
      = dot (W (Suc d)) (mv (?T k) (X x k)) + x ! k * dot (W (Suc d)) (?A k)"
    by (simp add: Xs dot_vadd_right dot_smult_right)
  moreover have "dot (W (Suc d)) (X x (Suc k))
      = dot (W d) (mv (?T (Suc k)) (X x (Suc k))) + dot (mv (Glist ! k) (X y (Suc k))) (X x (Suc k))"
    by (simp add: Ws dot_vadd_left lG dot_AdT_transpose lW lX)
  ultimately have step: "x ! k * dot (W (Suc d)) (?A k)
      = dot (W d) (mv (?T (Suc k)) (X x (Suc k))) + dot (mv (Glist ! k) (X y (Suc k))) (X x (Suc k))
        - dot (W (Suc d)) (mv (?T k) (X x k))"
    by simp
  have split: "{k..<n} = insert k {Suc k..<n}" using k(1) by auto
  from Suc have IH: "(\<Sum>i = Suc k..<n. x ! i * dot (W (n - i)) (?A i))
       = (\<Sum>i = Suc k..<n. dot (mv (Glist ! i) (X y (Suc i))) (X x (Suc i)))
         - dot (W d) (mv (?T (Suc k)) (X x (Suc k)))"
    by (simp add: k(2))
  show ?case
    unfolding k(4) split
    by (simp add: IH step k(3))
qed

lemma energy_identity:
  assumes x: "length x = length thetalist" and y: "length y = length thetalist"
    and G: "\<forall>i<length thetalist. length (Glist ! i) = 6"
  shows "dot x (mv (MassMatrix thetalist Mlist Glist Slist) y)
       = (\<Sum>i<length thetalist.
            dot (mv (Glist ! i) (Vd_link thetalist (vzero (length thetalist)) y (vzero 3)
                                    Mlist Slist (Suc i)))
              (Vd_link thetalist (vzero (length thetalist)) x (vzero 3) Mlist Slist (Suc i)))"
proof -
  let ?n = "length thetalist"
  let ?W = "F_link thetalist (vzero ?n) y (vzero 3) (vzero 6) Mlist Glist Slist"
  have "dot x (mv (MassMatrix thetalist Mlist Glist Slist) y)
      = (\<Sum>i<?n. x ! i * InverseDynamics thetalist (vzero ?n) y (vzero 3) (vzero 6)
                             Mlist Glist Slist ! i)"
    using x by (simp add: mv_MassMatrix [OF y G] dot_sum)
  also have "\<dots> = (\<Sum>i = ?n - ?n..<?n. x ! i * dot (?W (?n - i)) (A_link Mlist Slist i))"
    by (simp add: InverseDynamics_closed atLeast0LessThan)
  also have "\<dots> = (\<Sum>i = ?n - ?n..<?n.
            dot (mv (Glist ! i) (Vd_link thetalist (vzero ?n) y (vzero 3) Mlist Slist (Suc i)))
              (Vd_link thetalist (vzero ?n) x (vzero 3) Mlist Slist (Suc i)))
         - dot (?W ?n) (mv (AdT_link thetalist Mlist Slist (?n - ?n))
                  (Vd_link thetalist (vzero ?n) x (vzero 3) Mlist Slist (?n - ?n)))"
    by (rule energy_partial [OF G le_refl])
  finally show ?thesis
    by (simp add: X_link_0 atLeast0LessThan)
qed

section \<open>Symmetry and positive definiteness of the mass matrix\<close>

lemma vzero_Suc: "vzero (Suc n) = 0 # vzero n"
  by (simp add: vzero_def)

lemma dot_unit_left:
  assumes "i < n" "length w = n"
  shows "dot ((vzero n)[i := 1]) w = w ! i"
  using assms
proof (induction n arbitrary: i w)
  case 0
  then show ?case by simp
next
  case (Suc n)
  then obtain a w' where w: "w = a # w'" "length w' = n" by (cases w) auto
  show ?case
  proof (cases i)
    case 0
    then show ?thesis by (simp add: w vzero_Suc)
  next
    case (Suc i')
    with Suc.prems(1) have "i' < n" by simp
    with Suc.IH [OF this w(2)] Suc show ?thesis by (simp add: w vzero_Suc)
  qed
qed

lemma dot_unit_right:
  assumes "i < n" "length w = n"
  shows "dot w ((vzero n)[i := 1]) = w ! i"
  using dot_unit_left [OF assms] by (simp add: dot_commute)

lemma MassMatrix_entry_dot:
  assumes "i < length thetalist" "j < length thetalist"
  shows "MassMatrix thetalist Mlist Glist Slist ! i ! j
       = dot ((vzero (length thetalist))[i := 1])
           (mv (MassMatrix thetalist Mlist Glist Slist) ((vzero (length thetalist))[j := 1]))"
proof -
  have "mv (MassMatrix thetalist Mlist Glist Slist) ((vzero (length thetalist))[j := 1]) ! i
      = MassMatrix thetalist Mlist Glist Slist ! i ! j"
    using assms by (simp add: mv_def MassMatrix_entries dot_unit_right)
  then show ?thesis
    using assms(1) by (simp add: dot_unit_left [where n = "length thetalist"] MassMatrix_entries)
qed

lemma symmetric_dot:
  assumes "is_square n G" "is_symmetric G" "length u = n" "length v = n"
  shows "dot (mv G u) v = dot (mv G v) u"
proof -
  have len: "length G = n" and rows: "\<And>i. i < n \<Longrightarrow> length (G ! i) = n"
    using assms(1) by (auto simp: is_square_def)
  have sym: "\<And>i j. i < n \<Longrightarrow> j < n \<Longrightarrow> G ! i ! j = G ! j ! i"
    using assms(2) len by (simp add: is_symmetric_def)
  have "dot (mv G u) v = (\<Sum>i<n. (\<Sum>j<n. G ! i ! j * u ! j) * v ! i)"
    using len rows assms(3,4) by (simp add: dot_sum mv_def)
  also have "\<dots> = (\<Sum>i<n. \<Sum>j<n. G ! i ! j * u ! j * v ! i)"
    by (simp add: sum_distrib_right)
  also have "\<dots> = (\<Sum>j<n. \<Sum>i<n. G ! i ! j * u ! j * v ! i)"
    by (rule sum.swap)
  also have "\<dots> = (\<Sum>j<n. \<Sum>i<n. G ! j ! i * v ! i * u ! j)"
    by (intro sum.cong refl) (simp add: sym mult_ac)
  also have "\<dots> = (\<Sum>j<n. (\<Sum>i<n. G ! j ! i * v ! i) * u ! j)"
    by (simp add: sum_distrib_right)
  also have "\<dots> = dot (mv G v) u"
    using len rows assms(3,4) by (simp add: dot_sum mv_def)
  finally show ?thesis .
qed

lemma X_link_prefix_zero:
  assumes "i \<le> length thetalist" "\<forall>j<i. x ! j = 0"
  shows "Vd_link thetalist (vzero (length thetalist)) x (vzero 3) Mlist Slist i = vzero 6"
  using assms
proof (induction i)
  case 0
  show ?case by (rule X_link_0)
next
  case (Suc i)
  then have "Vd_link thetalist (vzero (length thetalist)) x (vzero 3) Mlist Slist i = vzero 6"
    and "x ! i = 0" and "i < length thetalist"
    by simp_all
  then show ?case by (simp add: X_link_Suc)
qed

lemma smult_eq_vzero:
  assumes "smult c v = vzero n" "c \<noteq> 0" "length v = n"
  shows "v = vzero n"
proof (rule nth_equalityI)
  show "length v = length (vzero n)" using assms(3) by simp
next
  fix i assume i: "i < length v"
  from assms(1) have "smult c v ! i = vzero n ! i" by simp
  with i assms(2,3) show "v ! i = vzero n ! i" by (simp add: nth_smult)
qed



lemma MassMatrix_square:
  "is_square (length thetalist) (MassMatrix thetalist Mlist Glist Slist)"
  unfolding is_square_def
proof (intro conjI ballI)
  show "length (MassMatrix thetalist Mlist Glist Slist) = length thetalist"
    by (rule MassMatrix_entries(1))
next
  fix r assume "r \<in> set (MassMatrix thetalist Mlist Glist Slist)"
  then obtain i where "i < length thetalist" "r = MassMatrix thetalist Mlist Glist Slist ! i"
    unfolding in_set_conv_nth MassMatrix_entries(1) by blast
  then show "length r = length thetalist" by (simp add: MassMatrix_entries(2))
qed


lemma MassMatrix_symmetric:
  assumes G: "\<forall>i<length thetalist. is_square 6 (Glist ! i) \<and> is_symmetric (Glist ! i)"
  shows "is_symmetric (MassMatrix thetalist Mlist Glist Slist)"
  unfolding is_symmetric_def MassMatrix_entries(1)
proof (intro allI impI)
  let ?n = "length thetalist"
  let ?M = "MassMatrix thetalist Mlist Glist Slist"
  let ?X = "\<lambda>z. Vd_link thetalist (vzero ?n) z (vzero 3) Mlist Slist"
  have lG: "\<forall>i<?n. length (Glist ! i) = 6"
    using G by (simp add: is_square_def)
  have unit: "length ((vzero ?n)[i := 1]) = ?n" for i by simp
  fix i j assume i: "i < ?n" and j: "j < ?n"
  have "?M ! i ! j
      = (\<Sum>k<?n. dot (mv (Glist ! k) (?X ((vzero ?n)[j := 1]) (Suc k)))
                    (?X ((vzero ?n)[i := 1]) (Suc k)))"
    unfolding MassMatrix_entry_dot [OF i j] by (rule energy_identity [OF unit unit lG])
  also have "\<dots> = (\<Sum>k<?n. dot (mv (Glist ! k) (?X ((vzero ?n)[i := 1]) (Suc k)))
                    (?X ((vzero ?n)[j := 1]) (Suc k)))"
  proof (intro sum.cong refl)
    fix k assume "k \<in> {..<?n}"
    then have "is_square 6 (Glist ! k)" "is_symmetric (Glist ! k)" using G by simp_all
    then show "dot (mv (Glist ! k) (?X ((vzero ?n)[j := 1]) (Suc k)))
                    (?X ((vzero ?n)[i := 1]) (Suc k))
             = dot (mv (Glist ! k) (?X ((vzero ?n)[i := 1]) (Suc k)))
                    (?X ((vzero ?n)[j := 1]) (Suc k))"
      by (intro symmetric_dot [where n = 6]) simp_all
  qed
  also have "\<dots> = ?M ! j ! i"
    unfolding MassMatrix_entry_dot [OF j i] by (rule energy_identity [OF unit unit lG, symmetric])
  finally show "?M ! i ! j = ?M ! j ! i" .
qed


lemma positive_definiteD:
  "positive_definite A \<Longrightarrow> length x = length A \<Longrightarrow> x \<noteq> vzero (length A) \<Longrightarrow> 0 < dot x (mv A x)"
  unfolding positive_definite_def by blast

lemma MassMatrix_positive_definite:
  assumes G: "\<forall>i<length thetalist. is_square 6 (Glist ! i) \<and> positive_definite (Glist ! i)"
    and A: "\<forall>i<length thetalist. A_link Mlist Slist i \<noteq> vzero 6"
  shows "positive_definite (MassMatrix thetalist Mlist Glist Slist)"
  unfolding positive_definite_def MassMatrix_entries(1)
proof (intro allI impI)
  let ?n = "length thetalist"
  let ?M = "MassMatrix thetalist Mlist Glist Slist"
  let ?X = "\<lambda>z. Vd_link thetalist (vzero ?n) z (vzero 3) Mlist Slist"
  have lG: "\<forall>i<?n. length (Glist ! i) = 6"
    using G by (simp add: is_square_def)
  fix x :: vec assume "length x = ?n \<and> x \<noteq> vzero ?n"
  then have x: "length x = ?n" and nz: "x \<noteq> vzero ?n" by simp_all
  have ex: "\<exists>i. i < ?n \<and> x ! i \<noteq> 0"
  proof (rule ccontr)
    assume "\<not> (\<exists>i. i < ?n \<and> x ! i \<noteq> 0)"
    then have "x = vzero ?n" using x by (intro nth_equalityI) simp_all
    with nz show False by simp
  qed
  define i0 where "i0 = (LEAST i. i < ?n \<and> x ! i \<noteq> 0)"
  have i0: "i0 < ?n" "x ! i0 \<noteq> 0"
    using LeastI_ex [OF ex] by (simp_all add: i0_def)
  have least: "x ! j = 0" if "j < i0" for j
  proof (rule ccontr)
    assume "x ! j \<noteq> 0"
    with that i0(1) have "j < ?n \<and> x ! j \<noteq> 0" by simp
    then have "i0 \<le> j" unfolding i0_def by (rule Least_le)
    with that show False by simp
  qed
  let ?e = "\<lambda>k. dot (mv (Glist ! k) (?X x (Suc k))) (?X x (Suc k))"
  have en: "dot x (mv ?M x) = (\<Sum>k<?n. ?e k)"
    by (rule energy_identity [OF x x lG])
  have nonneg: "0 \<le> ?e k" if "k < ?n" for k
  proof (cases "?X x (Suc k) = vzero 6")
    case True
    then show ?thesis by simp
  next
    case False
    from G that have pd: "positive_definite (Glist ! k)" and l6: "length (Glist ! k) = 6"
      by (simp_all add: is_square_def)
    have "0 < dot (?X x (Suc k)) (mv (Glist ! k) (?X x (Suc k)))"
      by (rule positive_definiteD [OF pd]) (simp_all only: l6 length_Vd_link False not_False_eq_True)
    then show ?thesis by (subst dot_commute) simp
  qed
  have "?X x i0 = vzero 6"
    using i0(1) least by (intro X_link_prefix_zero) simp_all
  then have Xi0: "?X x (Suc i0) = smult (x ! i0) (A_link Mlist Slist i0)"
    using i0(1) by (simp add: X_link_Suc)
  have "?X x (Suc i0) \<noteq> vzero 6"
  proof
    assume a: "?X x (Suc i0) = vzero 6"
    have b: "smult (x ! i0) (A_link Mlist Slist i0) = vzero 6"
      unfolding Xi0 [symmetric] by (rule a)
    have "A_link Mlist Slist i0 = vzero 6"
      by (rule smult_eq_vzero [OF b i0(2) length_A_link])
    with A i0(1) show False by blast
  qed
  note Xnz = this
  from G i0(1) have pd0: "positive_definite (Glist ! i0)" and l60: "length (Glist ! i0) = 6"
    by (simp_all add: is_square_def)
  have "0 < dot (?X x (Suc i0)) (mv (Glist ! i0) (?X x (Suc i0)))"
    by (rule positive_definiteD [OF pd0]) (simp_all only: l60 length_Vd_link Xnz not_False_eq_True)
  then have pos: "0 < ?e i0"
    by (subst dot_commute) simp
  have "0 < (\<Sum>k<?n. ?e k)"
  proof (rule sum_pos2 [where i = i0])
    show "finite {..<?n}" by simp
    show "i0 \<in> {..<?n}" using i0(1) by simp
    show "0 < ?e i0" by (rule pos)
    show "\<And>k. k \<in> {..<?n} \<Longrightarrow> 0 \<le> ?e k" using nonneg by simp
  qed
  with en show "0 < dot x (mv ?M x)" by simp
qed

subsection \<open>Rigid home transforms keep the link screw axes nonzero\<close>

lemma list4: "length xs = 4 \<Longrightarrow> xs = [xs ! 0, xs ! 1, xs ! 2, xs ! 3]"
  by (rule nth_equalityI) (auto simp: nth_Cons' less_Suc_eq eval_nat_numeral)

lemma list3: "length xs = 3 \<Longrightarrow> xs = [xs ! 0, xs ! 1, xs ! 2]"
  by (rule nth_equalityI) (auto simp: nth_Cons' less_Suc_eq eval_nat_numeral)

lemma list6: "length xs = 6 \<Longrightarrow> xs = [xs ! 0, xs ! 1, xs ! 2, xs ! 3, xs ! 4, xs ! 5]"
  by (rule nth_equalityI) (auto simp: nth_Cons' less_Suc_eq eval_nat_numeral)

lemma square4_explicit:
  assumes "is_square 4 T" "T ! 3 = [0, 0, 0, 1]"
  shows "T = [[T ! 0 ! 0, T ! 0 ! 1, T ! 0 ! 2, T ! 0 ! 3],
              [T ! 1 ! 0, T ! 1 ! 1, T ! 1 ! 2, T ! 1 ! 3],
              [T ! 2 ! 0, T ! 2 ! 1, T ! 2 ! 2, T ! 2 ! 3],
              [0, 0, 0, 1]]"
proof -
  have l: "length T = 4" and r: "\<And>i. i < 4 \<Longrightarrow> length (T ! i) = 4"
    using assms(1) by (auto simp: is_square_def)
  have "T = [T ! 0, T ! 1, T ! 2, T ! 3]" by (rule list4 [OF l])
  moreover have "T ! 0 = [T ! 0 ! 0, T ! 0 ! 1, T ! 0 ! 2, T ! 0 ! 3]"
    by (rule list4) (simp add: r)
  moreover have "T ! 1 = [T ! 1 ! 0, T ! 1 ! 1, T ! 1 ! 2, T ! 1 ! 3]"
    by (rule list4) (simp add: r)
  moreover have "T ! 2 = [T ! 2 ! 0, T ! 2 ! 1, T ! 2 ! 2, T ! 2 ! 3]"
    by (rule list4) (simp add: r)
  ultimately show ?thesis using assms(2) by metis
qed

lemma block_explicit:
  "block [[a0, a1, a2, a3], [b0, b1, b2, b3], [c0, c1, c2, c3], r] 0 0 3 3
     = [[a0, a1, a2], [b0, b1, b2], [c0, c1, c2]]"
  by (simp add: block_def upt_conv_Cons)

lemma mv_transpose3:
  "mv (mtranspose [[a0, a1, a2], [b0, b1, b2], [c0, c1, c2]]) [w0, w1, w2]
     = [a0 * w0 + b0 * w1 + c0 * w2, a1 * w0 + b1 * w1 + c1 * w2, a2 * w0 + b2 * w1 + c2 * w2]"
  by (simp add: mv_def mtranspose_def mcol_def ncols_def upt_conv_Cons)

lemma orthogonal_rot_inj:
  assumes "mm [[a0, a1, a2], [b0, b1, b2], [c0, c1, c2]]
              (mtranspose [[a0, a1, a2], [b0, b1, b2], [c0, c1, c2]]) = Identity 3"
  shows "rot_inj [[a0, a1, a2, a3], [b0, b1, b2, b3], [c0, c1, c2, c3], r]"
  unfolding rot_inj_def block_explicit mv_transpose3
proof (intro allI impI)
  fix w0 w1 w2 :: real
  assume "[a0 * w0 + b0 * w1 + c0 * w2, a1 * w0 + b1 * w1 + c1 * w2, a2 * w0 + b2 * w1 + c2 * w2]
            = [0, 0, 0]"
  then have z: "a0 * w0 + b0 * w1 + c0 * w2 = 0" "a1 * w0 + b1 * w1 + c1 * w2 = 0"
    "a2 * w0 + b2 * w1 + c2 * w2 = 0" by simp_all
  from assms have o:
    "a0 * a0 + a1 * a1 + a2 * a2 = 1" "a0 * b0 + a1 * b1 + a2 * b2 = 0" "a0 * c0 + a1 * c1 + a2 * c2 = 0"
    "b0 * b0 + b1 * b1 + b2 * b2 = 1" "b0 * c0 + b1 * c1 + b2 * c2 = 0"
    "c0 * c0 + c1 * c1 + c2 * c2 = 1"
    by (simp_all add: mm_def mtranspose_def mcol_def ncols_def Identity_def upt_conv_Cons)
  have "w0 = (a0 * a0 + a1 * a1 + a2 * a2) * w0 + (a0 * b0 + a1 * b1 + a2 * b2) * w1
            + (a0 * c0 + a1 * c1 + a2 * c2) * w2"
    by (simp add: o)
  also have "\<dots> = a0 * (a0 * w0 + b0 * w1 + c0 * w2) + a1 * (a1 * w0 + b1 * w1 + c1 * w2)
            + a2 * (a2 * w0 + b2 * w1 + c2 * w2)"
    by (simp add: algebra_simps)
  finally have w0: "w0 = 0" by (simp add: z)
  have "w1 = (a0 * b0 + a1 * b1 + a2 * b2) * w0 + (b0 * b0 + b1 * b1 + b2 * b2) * w1
            + (b0 * c0 + b1 * c1 + b2 * c2) * w2"
    by (simp add: o)
  also have "\<dots> = b0 * (a0 * w0 + b0 * w1 + c0 * w2) + b1 * (a1 * w0 + b1 * w1 + c1 * w2)
            + b2 * (a2 * w0 + b2 * w1 + c2 * w2)"
    by (simp add: algebra_simps)
  finally have w1: "w1 = 0" by (simp add: z)
  have "w2 = (a0 * c0 + a1 * c1 + a2 * c2) * w0 + (b0 * c0 + b1 * c1 + b2 * c2) * w1
            + (c0 * c0 + c1 * c1 + c2 * c2) * w2"
    by (simp add: o)
  also have "\<dots> = c0 * (a0 * w0 + b0 * w1 + c0 * w2) + c1 * (a1 * w0 + b1 * w1 + c1 * w2)
            + c2 * (a2 * w0 + b2 * w1 + c2 * w2)"
    by (simp add: algebra_simps)
  finally have w2: "w2 = 0" by (simp add: z)
  from w0 w1 w2 show "w0 = 0 \<and> w1 = 0 \<and> w2 = 0" by simp
qed


lemma rot_inj_mm:
  fixes a0 a1 a2 a3 b0 b1 b2 b3 c0 c1 c2 c3 p0 p1 p2 p3 q0 q1 q2 q3 r0 r1 r2 r3 :: real
  defines "T1 \<equiv> [[a0, a1, a2, a3], [b0, b1, b2, b3], [c0, c1, c2, c3], [0, 0, 0, 1]]"
  defines "T2 \<equiv> [[p0, p1, p2, p3], [q0, q1, q2, q3], [r0, r1, r2, r3], [0, 0, 0, 1]]"
  assumes 1: "rot_inj T1" and 2: "rot_inj T2"
  shows "is_square 4 (mm T1 T2)" "mm T1 T2 ! 3 = [0, 0, 0, 1]" "rot_inj (mm T1 T2)"
proof -
  show "is_square 4 (mm T1 T2)"
    by (simp add: is_square_def T1_def T2_def mm_def ncols_def)
  show "mm T1 T2 ! 3 = [0, 0, 0, 1]"
    by (simp add: T1_def T2_def mm_def ncols_def mcol_def upt_conv_Cons)
  have key: "mv (mtranspose (block (mm T1 T2) 0 0 3 3)) [w0, w1, w2]
      = mv (mtranspose (block T2 0 0 3 3)) (mv (mtranspose (block T1 0 0 3 3)) [w0, w1, w2])"
    for w0 w1 w2
    by (simp add: T1_def T2_def mm_def ncols_def mcol_def upt_conv_Cons block_def mv_def
        mtranspose_def algebra_simps)
  show "rot_inj (mm T1 T2)"
    unfolding rot_inj_def key
  proof (intro allI impI)
    fix w0 w1 w2 :: real
    assume a: "mv (mtranspose (block T2 0 0 3 3)) (mv (mtranspose (block T1 0 0 3 3)) [w0, w1, w2])
               = [0, 0, 0]"
    have u: "mv (mtranspose (block T1 0 0 3 3)) [w0, w1, w2]
        = [a0 * w0 + b0 * w1 + c0 * w2, a1 * w0 + b1 * w1 + c1 * w2, a2 * w0 + b2 * w1 + c2 * w2]"
      by (simp add: T1_def block_explicit mv_transpose3)
    from a 2 have "a0 * w0 + b0 * w1 + c0 * w2 = 0 \<and> a1 * w0 + b1 * w1 + c1 * w2 = 0
        \<and> a2 * w0 + b2 * w1 + c2 * w2 = 0"
      unfolding u rot_inj_def by blast
    then have "mv (mtranspose (block T1 0 0 3 3)) [w0, w1, w2] = [0, 0, 0]"
      unfolding u by simp
    with 1 show "w0 = 0 \<and> w1 = 0 \<and> w2 = 0"
      unfolding rot_inj_def by blast
  qed
qed

lemma Adjoint_TransInv_inj:
  fixes a0 a1 a2 a3 b0 b1 b2 b3 c0 c1 c2 c3 :: real
  defines "T \<equiv> [[a0, a1, a2, a3], [b0, b1, b2, b3], [c0, c1, c2, c3], [0, 0, 0, 1]]"
  assumes inj: "rot_inj T"
    and z: "mv (Adjoint (TransInv T)) [s0, s1, s2, s3, s4, s5] = vzero 6"
  shows "[s0, s1, s2, s3, s4, s5] = vzero 6"
proof -
  define Rt where "Rt = mtranspose (block T 0 0 3 3)"
  define t where "t = smult (- 1) (mv Rt [a3, b3, c3])"
  have Rt: "Rt = [[a0, b0, c0], [a1, b1, c1], [a2, b2, c2]]"
    by (simp add: Rt_def T_def block_explicit mtranspose_def mcol_def ncols_def upt_conv_Cons)
  have "mv (Adjoint (TransInv T)) [s0, s1, s2, s3, s4, s5]
      = mv Rt [s0, s1, s2] @ vadd (mv (mm (VecToso3 t) Rt) [s0, s1, s2]) (mv Rt [s3, s4, s5])"
    unfolding t_def Rt
    by (simp add: T_def Adjoint_def TransInv_def TransToRp_def block_def hcat_def Zero_3_3
        mtranspose_def mcol_def ncols_def upt_conv_Cons mv_def mm_def VecToso3_def
        algebra_simps)
  with z have e: "mv Rt [s0, s1, s2] @ vadd (mv (mm (VecToso3 t) Rt) [s0, s1, s2]) (mv Rt [s3, s4, s5])
      = [0, 0, 0, 0, 0, 0]"
    by (simp add: vzero6_lit)
  have l3: "length (mv Rt [s0, s1, s2]) = 3" by (simp add: Rt)
  from e l3 have w: "mv Rt [s0, s1, s2] = [0, 0, 0]"
    and v: "vadd (mv (mm (VecToso3 t) Rt) [s0, s1, s2]) (mv Rt [s3, s4, s5]) = [0, 0, 0]"
    by (simp_all add: append_eq_Cons_conv Rt mv_def)
  from w inj have s: "s0 = 0" "s1 = 0" "s2 = 0"
    unfolding rot_inj_def Rt_def by blast+
  have "mv (mm (VecToso3 t) Rt) [0, 0, 0] = [0, 0, 0]"
    by (simp add: mv_def mm_def Rt VecToso3_def ncols_def upt_conv_Cons)
  with v have "mv Rt [s3, s4, s5] = [0, 0, 0]"
    by (simp add: s Rt mv_def)
  with inj have "s3 = 0" "s4 = 0" "s5 = 0"
    unfolding rot_inj_def Rt_def by blast+
  with s show ?thesis by (simp add: vzero6_lit [symmetric])
qed


lemma square4_obtain:
  assumes "is_square 4 T" "T ! 3 = [0, 0, 0, 1]"
  obtains a0 a1 a2 a3 b0 b1 b2 b3 c0 c1 c2 c3 where
    "T = [[a0, a1, a2, a3], [b0, b1, b2, b3], [c0, c1, c2, c3], [0, 0, 0, 1]]"
  using square4_explicit [OF assms] by blast

lemma is_transform_rot_inj:
  assumes "is_transform T"
  shows "rot_inj T"
proof -
  from assms have sq: "is_square 4 T" and b: "T ! 3 = [0, 0, 0, 1]"
    and o: "mm (block T 0 0 3 3) (mtranspose (block T 0 0 3 3)) = Identity 3"
    by (simp_all add: is_transform_def)
  from sq b obtain a0 a1 a2 a3 b0 b1 b2 b3 c0 c1 c2 c3 where
    e: "T = [[a0, a1, a2, a3], [b0, b1, b2, b3], [c0, c1, c2, c3], [0, 0, 0, 1]]"
    by (rule square4_obtain)
  from o show ?thesis
    unfolding e block_explicit by (rule orthogonal_rot_inj)
qed

lemma Mcum_rigid:
  assumes "\<forall>j<k. is_transform (Mlist ! j)"
  shows "is_square 4 (Mcum Mlist k) \<and> Mcum Mlist k ! 3 = [0, 0, 0, 1] \<and> rot_inj (Mcum Mlist k)"
  using assms
proof (induction k)
  case 0
  have "Identity 4 = [[1, 0, 0, 0], [0, 1, 0, 0], [0, 0, 1, 0], [0, 0, 0, 1]]"
    by (simp add: Identity_def upt_conv_Cons)
  moreover have "rot_inj [[1, 0, 0, 0], [0, 1, 0, 0], [0, 0, 1, 0], [0, 0, 0, 1]]"
    by (rule orthogonal_rot_inj)
      (simp add: mm_def mtranspose_def mcol_def ncols_def Identity_def upt_conv_Cons)
  ultimately show ?case by (simp add: is_square_def)
next
  case (Suc k)
  from Suc have P: "is_square 4 (Mcum Mlist k)" "Mcum Mlist k ! 3 = [0, 0, 0, 1]"
    "rot_inj (Mcum Mlist k)" by simp_all
  from Suc.prems have tq: "is_transform (Mlist ! k)" by simp
  then have Q: "is_square 4 (Mlist ! k)" "Mlist ! k ! 3 = [0, 0, 0, 1]" "rot_inj (Mlist ! k)"
    by (simp_all add: is_transform_def is_transform_rot_inj)
  from P(1,2) obtain a0 a1 a2 a3 b0 b1 b2 b3 c0 c1 c2 c3 where
    eP: "Mcum Mlist k = [[a0, a1, a2, a3], [b0, b1, b2, b3], [c0, c1, c2, c3], [0, 0, 0, 1]]"
    by (rule square4_obtain)
  from Q(1,2) obtain p0 p1 p2 p3 q0 q1 q2 q3 r0 r1 r2 r3 where
    eQ: "Mlist ! k = [[p0, p1, p2, p3], [q0, q1, q2, q3], [r0, r1, r2, r3], [0, 0, 0, 1]]"
    by (rule square4_obtain)
  have "is_square 4 (mm (Mcum Mlist k) (Mlist ! k))
      \<and> mm (Mcum Mlist k) (Mlist ! k) ! 3 = [0, 0, 0, 1]
      \<and> rot_inj (mm (Mcum Mlist k) (Mlist ! k))"
    using P(3) Q(3) unfolding eP eQ by (intro conjI rot_inj_mm)
  then show ?case by simp
qed

lemma A_link_nonzero:
  assumes "\<forall>j\<le>i. is_transform (Mlist ! j)" "length Slist = 6" "mcol Slist i \<noteq> vzero 6"
  shows "A_link Mlist Slist i \<noteq> vzero 6"
proof
  assume z: "A_link Mlist Slist i = vzero 6"
  have "\<forall>j<Suc i. is_transform (Mlist ! j)" using assms(1) by (simp add: less_Suc_eq_le)
  from Mcum_rigid [OF this]
  have T: "is_square 4 (Mcum Mlist (Suc i))" "Mcum Mlist (Suc i) ! 3 = [0, 0, 0, 1]"
    "rot_inj (Mcum Mlist (Suc i))" by blast+
  from T(1,2) obtain a0 a1 a2 a3 b0 b1 b2 b3 c0 c1 c2 c3 where
    eT: "Mcum Mlist (Suc i) = [[a0, a1, a2, a3], [b0, b1, b2, b3], [c0, c1, c2, c3], [0, 0, 0, 1]]"
    by (rule square4_obtain)
  have "length (mcol Slist i) = 6" using assms(2) by (simp add: mcol_def)
  from list6 [OF this] obtain s0 s1 s2 s3 s4 s5 where
    eS: "mcol Slist i = [s0, s1, s2, s3, s4, s5]" by blast
  have "mv (Adjoint (TransInv (Mcum Mlist (Suc i)))) (mcol Slist i) = vzero 6"
    using z by (simp only: A_link_def)
  then have "mcol Slist i = vzero 6"
    using T(3) unfolding eT eS by (intro Adjoint_TransInv_inj)
  with assms(3) show False by blast
qed

lemma diagonal_spd:
  fixes g0 g1 g2 g3 g4 g5 :: real
  defines "D \<equiv> [[g0, 0, 0, 0, 0, 0], [0, g1, 0, 0, 0, 0], [0, 0, g2, 0, 0, 0],
                  [0, 0, 0, g3, 0, 0], [0, 0, 0, 0, g4, 0], [0, 0, 0, 0, 0, g5]]"
  assumes "0 < g0" "0 < g1" "0 < g2" "0 < g3" "0 < g4" "0 < g5"
  shows "is_square 6 D \<and> is_symmetric D \<and> positive_definite D"
proof (intro conjI)
  show "is_square 6 D" by (simp add: is_square_def D_def)
  show "is_symmetric D"
    unfolding is_symmetric_def
  proof (intro allI impI)
    fix i j assume "i < length D" "j < length D"
    then have "i \<in> {0, 1, 2, 3, 4, 5}" "j \<in> {0, 1, 2, 3, 4, 5}"
      by (auto simp: D_def)
    then show "D ! i ! j = D ! j ! i"
      by (auto simp: D_def)
  qed
  show "positive_definite D"
    unfolding positive_definite_def
  proof (intro allI impI)
    have lD: "length D = 6" by (simp add: D_def)
    fix x :: vec assume "length x = length D \<and> x \<noteq> vzero (length D)"
    then have l: "length x = 6" and nz: "x \<noteq> vzero 6" unfolding lD by blast+
    from list6 [OF l] obtain x0 x1 x2 x3 x4 x5 where x: "x = [x0, x1, x2, x3, x4, x5]" by blast
    have e: "dot x (mv D x)
        = g0 * x0\<^sup>2 + g1 * x1\<^sup>2 + g2 * x2\<^sup>2 + g3 * x3\<^sup>2 + g4 * x4\<^sup>2 + g5 * x5\<^sup>2"
      by (simp add: x D_def mv_def power2_eq_square algebra_simps)
    have nn: "0 \<le> g0 * x0\<^sup>2" "0 \<le> g1 * x1\<^sup>2" "0 \<le> g2 * x2\<^sup>2" "0 \<le> g3 * x3\<^sup>2"
      "0 \<le> g4 * x4\<^sup>2" "0 \<le> g5 * x5\<^sup>2"
      using assms(2-7) by simp_all
    from nz have "x0 \<noteq> 0 \<or> x1 \<noteq> 0 \<or> x2 \<noteq> 0 \<or> x3 \<noteq> 0 \<or> x4 \<noteq> 0 \<or> x5 \<noteq> 0"
      by (auto simp: x vzero6_lit [symmetric])
    then have "0 < g0 * x0\<^sup>2 \<or> 0 < g1 * x1\<^sup>2 \<or> 0 < g2 * x2\<^sup>2 \<or> 0 < g3 * x3\<^sup>2
        \<or> 0 < g4 * x4\<^sup>2 \<or> 0 < g5 * x5\<^sup>2"
      using assms(2-7) by auto
    with nn have "0 < g0 * x0\<^sup>2 + g1 * x1\<^sup>2 + g2 * x2\<^sup>2 + g3 * x3\<^sup>2 + g4 * x4\<^sup>2 + g5 * x5\<^sup>2"
      by linarith
    with e show "0 < dot x (mv D x)" by simp
  qed
qed

lemma MassMatrix_columns:
  assumes "i < length thetalist"
  shows "mcol (MassMatrix thetalist Mlist Glist Slist) i
       = InverseDynamics thetalist (vzero (length thetalist)) ((vzero (length thetalist))[i := 1])
           (vzero 3) (vzero 6) Mlist Glist Slist"
  using assms
  by (intro nth_equalityI) (simp_all add: mcol_def MassMatrix_entries)

lemma test_Slist_explicit:
  "test_Slist = [[1, 0, 0], [0, 1, 1], [1, 0, 0], [0, - (89 / 1000), - (89 / 1000)],
                 [1, 0, 0], [0, 0, 425 / 1000]]"
  by (simp add: test_Slist_def test_SlistT_def mtranspose_def mcol_def ncols_def upt_conv_Cons)

lemma test_transforms: "is_transform M01" "is_transform M12" "is_transform M23" "is_transform M34"
  by (simp_all add: is_transform_def is_square_def M01_def M12_def M23_def M34_def block_explicit
      mm_def mtranspose_def mcol_def ncols_def Identity_def upt_conv_Cons)

lemma test_inertias:
  "is_square 6 (asDiagonal6 G1) \<and> is_symmetric (asDiagonal6 G1) \<and> positive_definite (asDiagonal6 G1)"
  "is_square 6 (asDiagonal6 G2) \<and> is_symmetric (asDiagonal6 G2) \<and> positive_definite (asDiagonal6 G2)"
  "is_square 6 (asDiagonal6 G3) \<and> is_symmetric (asDiagonal6 G3) \<and> positive_definite (asDiagonal6 G3)"
  unfolding asDiagonal6_def
  by (rule diagonal_spd; simp add: G1_def G2_def G3_def)+

text \<open>
  Claim C7.  For every joint vector and every model whose home transforms are rigid (last
  row \<open>(0, 0, 0, 1)\<close>, orthogonal rotation block), whose screw axes are nonzero and whose
  spatial inertias are symmetric positive-definite 6x6 matrices, \<open>MassMatrix\<close> is an
  \<open>n\<close> x \<open>n\<close> matrix whose column \<open>i\<close> is \<open>InverseDynamics(\<theta>, 0, e\<^sub>i, 0, 0)\<close>, and it is
  symmetric and positive-definite.
\<close>

theorem MassMatrix_symmetric_positive_definite:
  assumes "length Mlist = length thetalist + 1" "length Glist = length thetalist"
    and "length Slist = 6" "\<forall>r\<in>set Slist. length r = length thetalist"
    and "\<forall>i<length thetalist. is_transform (Mlist ! i)"
    and "\<forall>i<length thetalist. mcol Slist i \<noteq> vzero 6"
    and "\<forall>i<length thetalist. is_square 6 (Glist ! i) \<and> is_symmetric (Glist ! i)
           \<and> positive_definite (Glist ! i)"
  shows "is_square (length thetalist) (MassMatrix thetalist Mlist Glist Slist)
       \<and> (\<forall>i<length thetalist.
             mcol (MassMatrix thetalist Mlist Glist Slist) i
               = InverseDynamics thetalist (vzero (length thetalist))
                   ((vzero (length thetalist))[i := 1]) (vzero 3) (vzero 6) Mlist Glist Slist)
       \<and> is_symmetric (MassMatrix thetalist Mlist Glist Slist)
       \<and> positive_definite (MassMatrix thetalist Mlist Glist Slist)"
proof (intro conjI)
  show "is_square (length thetalist) (MassMatrix thetalist Mlist Glist Slist)"
    by (rule MassMatrix_square)
  show "\<forall>i<length thetalist.
             mcol (MassMatrix thetalist Mlist Glist Slist) i
               = InverseDynamics thetalist (vzero (length thetalist))
                   ((vzero (length thetalist))[i := 1]) (vzero 3) (vzero 6) Mlist Glist Slist"
    by (simp add: MassMatrix_columns)
  show "is_symmetric (MassMatrix thetalist Mlist Glist Slist)"
    using assms(7) by (intro MassMatrix_symmetric) blast
  have A: "\<forall>i<length thetalist. A_link Mlist Slist i \<noteq> vzero 6"
  proof (intro allI impI)
    fix i assume i: "i < length thetalist"
    with assms(5) have "\<forall>j\<le>i. is_transform (Mlist ! j)" by simp
    moreover from assms(6) i have "mcol Slist i \<noteq> vzero 6" by blast
    ultimately show "A_link Mlist Slist i \<noteq> vzero 6"
      using assms(3) by (intro A_link_nonzero)
  qed
  show "positive_definite (MassMatrix thetalist Mlist Glist Slist)"
    using assms(7) by (intro MassMatrix_positive_definite A) blast
qed

theorem MassMatrix_symmetric_positive_definite_witness:
  "is_square 3 (MassMatrix [1 / 10, 1 / 10, 1 / 10] test_Mlist test_Glist test_Slist)
   \<and> mcol (MassMatrix [1 / 10, 1 / 10, 1 / 10] test_Mlist test_Glist test_Slist) 0
       = InverseDynamics [1 / 10, 1 / 10, 1 / 10] [0, 0, 0] [1, 0, 0] [0, 0, 0] [0, 0, 0, 0, 0, 0]
           test_Mlist test_Glist test_Slist
   \<and> is_symmetric (MassMatrix [1 / 10, 1 / 10, 1 / 10] test_Mlist test_Glist test_Slist)
   \<and> positive_definite (MassMatrix [1 / 10, 1 / 10, 1 / 10] test_Mlist test_Glist test_Slist)"
proof -
  have 1: "length test_Mlist = length [1 / 10, 1 / 10, 1 / 10 :: real] + 1"
    and 2: "length test_Glist = length [1 / 10, 1 / 10, 1 / 10 :: real]"
    and 3: "length test_Slist = 6"
    and 4: "\<forall>r\<in>set test_Slist. length r = length [1 / 10, 1 / 10, 1 / 10 :: real]"
    by (simp_all add: test_Mlist_def test_Glist_def test_Slist_explicit)
  have 5: "\<forall>i<length [1 / 10, 1 / 10, 1 / 10 :: real]. is_transform (test_Mlist ! i)"
    by (simp add: All_less_Suc test_Mlist_def test_transforms)
  have 6: "\<forall>i<length [1 / 10, 1 / 10, 1 / 10 :: real]. mcol test_Slist i \<noteq> vzero 6"
    by (simp add: All_less_Suc test_Slist_explicit mcol_def vzero6_lit [symmetric])
  have 7: "\<forall>i<length [1 / 10, 1 / 10, 1 / 10 :: real].
       is_square 6 (test_Glist ! i) \<and> is_symmetric (test_Glist ! i)
       \<and> positive_definite (test_Glist ! i)"
    using test_inertias by (simp add: All_less_Suc test_Glist_def)
  show ?thesis
    using MassMatrix_symmetric_positive_definite [OF 1 2 3 4 5 6 7]
    by (simp add: All_less_Suc vzero_def eval_nat_numeral)
qed

section \<open>Closed form of the exponential of a twist\<close>

text \<open>
  For a twist whose rotation part has norm \<open>\<theta>\<close> of at least \<open>10\<^sup>-\<^sup>6\<close>, \<open>MatrixExp3\<close> and
  \<open>MatrixExp6\<close> take their second branch, and the result is a polynomial in the entries of
  the twist with the three coefficients \<open>sin \<theta> / \<theta>\<close>, \<open>(1 - cos \<theta>) / \<theta>\<^sup>2\<close> and
  \<open>(\<theta> - sin \<theta>) / \<theta>\<^sup>3\<close>.
\<close>

lemma so3_block:
  "block (VecTose3 [w0, w1, w2, v0, v1, v2]) 0 0 3 3 = VecToso3 [w0, w1, w2]"
  by (simp add: VecTose3_def VecToso3_def block_def hcat_def upt_conv_Cons Let_def)

lemma vnorm3: "vnorm [w0, w1, w2] = sqrt (w0\<^sup>2 + w1\<^sup>2 + w2\<^sup>2)"
  by (simp add: vnorm_def power2_eq_square)

lemma mnorm_so3: "mnorm (VecToso3 [w0, w1, w2]) = sqrt 2 * sqrt (w0\<^sup>2 + w1\<^sup>2 + w2\<^sup>2)"
proof -
  have "sum_list (map (\<lambda>r. dot r r) (VecToso3 [w0, w1, w2])) = 2 * (w0\<^sup>2 + w1\<^sup>2 + w2\<^sup>2)"
    by (simp add: VecToso3_def power2_eq_square)
  then show ?thesis
    unfolding mnorm_def by (simp only: real_sqrt_mult)
qed

lemma MatrixExp3_closed:
  fixes w0 w1 w2 \<theta> :: real
  assumes th: "\<theta> = sqrt (w0\<^sup>2 + w1\<^sup>2 + w2\<^sup>2)" and big: "1 / 1000000 \<le> \<theta>"
  defines "a \<equiv> sin \<theta> / \<theta>" and "b \<equiv> (1 - cos \<theta>) / \<theta>\<^sup>2"
  shows "MatrixExp3 (VecToso3 [w0, w1, w2])
     = [[1 - b * (w1\<^sup>2 + w2\<^sup>2), b * (w0 * w1) - a * w2, b * (w0 * w2) + a * w1],
        [b * (w0 * w1) + a * w2, 1 - b * (w0\<^sup>2 + w2\<^sup>2), b * (w1 * w2) - a * w0],
        [b * (w0 * w2) - a * w1, b * (w1 * w2) + a * w0, 1 - b * (w0\<^sup>2 + w1\<^sup>2)]]"
proof -
  have pos: "0 < \<theta>" using big by simp
  have sq: "\<theta>\<^sup>2 = w0\<^sup>2 + w1\<^sup>2 + w2\<^sup>2"
    unfolding th by (simp add: sum_power2_ge_zero)
  have "1 \<le> sqrt 2" by simp
  then have "1 * \<theta> \<le> sqrt 2 * \<theta>" using pos by (intro mult_right_mono) simp_all
  then have nz: "\<not> NearZero (mnorm (VecToso3 [w0, w1, w2]))"
    using big pos unfolding mnorm_so3 th [symmetric] NearZero_def by linarith
  have theta: "AxisAng3 (so3ToVec (VecToso3 [w0, w1, w2])) ! 3 = \<theta>"
    by (simp add: AxisAng3_def so3ToVec_def VecToso3_def Normalize_def vnorm3 th nth_append)
  have w0s: "w0\<^sup>2 = \<theta>\<^sup>2 - w1\<^sup>2 - w2\<^sup>2" using sq by simp
  show ?thesis
    unfolding MatrixExp3_def Let_def theta using nz pos
    apply (simp add: VecToso3_def lin_defs a_def b_def)
    apply (simp add: field_simps power2_eq_square)
    done
qed

lemma MatrixExp6_closed:
  fixes w0 w1 w2 v0 v1 v2 \<theta> :: real
  assumes th: "\<theta> = sqrt (w0\<^sup>2 + w1\<^sup>2 + w2\<^sup>2)" and big: "1 / 1000000 \<le> \<theta>"
  defines "a \<equiv> sin \<theta> / \<theta>" and "b \<equiv> (1 - cos \<theta>) / \<theta>\<^sup>2" and "c \<equiv> (\<theta> - sin \<theta>) / \<theta> ^ 3"
  shows "MatrixExp6 (VecTose3 [w0, w1, w2, v0, v1, v2])
     = [[1 - b * (w1\<^sup>2 + w2\<^sup>2), b * (w0 * w1) - a * w2, b * (w0 * w2) + a * w1,
         v0 + b * (w1 * v2 - w2 * v1) + c * (w0 * w1 * v1 + w0 * w2 * v2 - (w1\<^sup>2 + w2\<^sup>2) * v0)],
        [b * (w0 * w1) + a * w2, 1 - b * (w0\<^sup>2 + w2\<^sup>2), b * (w1 * w2) - a * w0,
         v1 + b * (w2 * v0 - w0 * v2) + c * (w0 * w1 * v0 + w1 * w2 * v2 - (w0\<^sup>2 + w2\<^sup>2) * v1)],
        [b * (w0 * w2) - a * w1, b * (w1 * w2) + a * w0, 1 - b * (w0\<^sup>2 + w1\<^sup>2),
         v2 + b * (w0 * v1 - w1 * v0) + c * (w0 * w2 * v0 + w1 * w2 * v1 - (w0\<^sup>2 + w1\<^sup>2) * v2)],
        [0, 0, 0, 1]]"
proof -
  have pos: "0 < \<theta>" using big by simp
  have nz: "\<not> NearZero (vnorm (so3ToVec (VecToso3 [w0, w1, w2])))"
    using big pos by (simp add: so3ToVec_def VecToso3_def vnorm3 th [symmetric] NearZero_def)
  have theta: "AxisAng3 (so3ToVec (VecToso3 [w0, w1, w2])) ! 3 = \<theta>"
    by (simp add: AxisAng3_def so3ToVec_def VecToso3_def Normalize_def vnorm3 th nth_append)
  have lin: "[VecTose3 [w0, w1, w2, v0, v1, v2] ! 0 ! 3, VecTose3 [w0, w1, w2, v0, v1, v2] ! 1 ! 3,
              VecTose3 [w0, w1, w2, v0, v1, v2] ! 2 ! 3] = [v0, v1, v2]"
    by (simp add: VecTose3_def VecToso3_def hcat_def Let_def)
  have sq: "\<theta>\<^sup>2 = w0\<^sup>2 + w1\<^sup>2 + w2\<^sup>2"
    unfolding th by (simp add: sum_power2_ge_zero)
  have G: "smult (1 / \<theta>)
       (mv (madd (madd (mscale \<theta> (Identity 3)) (mscale (1 - cos \<theta>) (mscale (1 / \<theta>) (VecToso3 [w0, w1, w2]))))
              (mscale (\<theta> - sin \<theta>) (mm (mscale (1 / \<theta>) (VecToso3 [w0, w1, w2]))
                                       (mscale (1 / \<theta>) (VecToso3 [w0, w1, w2])))))
          [v0, v1, v2])
     = [v0 + b * (w1 * v2 - w2 * v1) + c * (w0 * w1 * v1 + w0 * w2 * v2 - (w1\<^sup>2 + w2\<^sup>2) * v0),
        v1 + b * (w2 * v0 - w0 * v2) + c * (w0 * w1 * v0 + w1 * w2 * v2 - (w0\<^sup>2 + w2\<^sup>2) * v1),
        v2 + b * (w0 * v1 - w1 * v0) + c * (w0 * w2 * v0 + w1 * w2 * v1 - (w0\<^sup>2 + w1\<^sup>2) * v2)]"
    using pos
    apply (simp add: VecToso3_def lin_defs b_def c_def)
    apply (simp add: field_simps power2_eq_square power3_eq_cube)
    done
  show ?thesis
    unfolding MatrixExp6_def Let_def so3_block theta lin G
      MatrixExp3_closed [OF th big, folded a_def b_def]
    using nz by (simp add: hcat_def)
qed

section \<open>Taylor bounds for sine and cosine\<close>

lemma sin_taylor:
  fixes x :: real
  shows "\<bar>sin x - (x - x ^ 3 / 6 + x ^ 5 / 120 - x ^ 7 / 5040)\<bar> \<le> \<bar>x\<bar> ^ 9 / 362880"
proof -
  have n: "(9::nat) = Suc (Suc (Suc (Suc (Suc (Suc (Suc (Suc (Suc 0))))))))" by simp
  have s: "(\<Sum>m<9. sin_coeff m * x ^ m) = x - x ^ 3 / 6 + x ^ 5 / 120 - x ^ 7 / 5040"
    unfolding n by (simp add: sin_coeff_def power3_eq_cube power_numeral_even power_numeral_odd Let_def mult.assoc)
  have f: "inverse (fact 9) = (1 / 362880 :: real)"
    by (simp add: fact_numeral)
  from Maclaurin_sin_bound [of x 9] show ?thesis
    unfolding s f by simp
qed

lemma cos_taylor:
  fixes x :: real
  assumes "0 < x"
  shows "\<bar>cos x - (1 - x\<^sup>2 / 2 + x ^ 4 / 24 - x ^ 6 / 720 + x ^ 8 / 40320)\<bar> \<le> x ^ 10 / 3628800"
proof -
  have n: "(10::nat) = Suc (Suc (Suc (Suc (Suc (Suc (Suc (Suc (Suc (Suc 0)))))))))" by simp
  have s: "(\<Sum>m<10. cos_coeff m * x ^ m) = 1 - x\<^sup>2 / 2 + x ^ 4 / 24 - x ^ 6 / 720 + x ^ 8 / 40320"
    unfolding n by (simp add: cos_coeff_def power2_eq_square power_numeral_even power_numeral_odd Let_def mult.assoc)
  have f: "fact 10 = (3628800 :: real)"
    by (simp add: fact_numeral)
  from Maclaurin_cos_expansion2 [OF assms, of 10] obtain t where
    t: "cos x = (\<Sum>m<10. cos_coeff m * x ^ m) + cos (t + 1 / 2 * real 10 * pi) / fact 10 * x ^ 10"
    by auto
  have "\<bar>cos x - (\<Sum>m<10. cos_coeff m * x ^ m)\<bar> = \<bar>cos (t + 1 / 2 * real 10 * pi)\<bar> * (x ^ 10 / 3628800)"
    unfolding t f using assms by (simp add: abs_mult)
  also have "\<dots> \<le> 1 * (x ^ 10 / 3628800)"
    using assms by (intro mult_right_mono abs_cos_le_one) simp
  finally show ?thesis unfolding s by simp
qed

lemmas pow_unfold = power2_eq_square power3_eq_cube power_numeral_even power_numeral_odd Let_def

lemma sinc_bound:
  fixes \<theta> q :: real
  assumes pos: "0 < \<theta>" and q: "\<theta>\<^sup>2 = q"
  shows "\<bar>sin \<theta> / \<theta> - (1 - q / 6 + q\<^sup>2 / 120 - q ^ 3 / 5040)\<bar> \<le> q ^ 4 / 362880"
proof -
  have e: "sin \<theta> / \<theta> - (1 - q / 6 + q\<^sup>2 / 120 - q ^ 3 / 5040)
         = (sin \<theta> - (\<theta> - \<theta> ^ 3 / 6 + \<theta> ^ 5 / 120 - \<theta> ^ 7 / 5040)) / \<theta>"
    unfolding q [symmetric] using pos by (simp add: pow_unfold field_simps)
  have r: "q ^ 4 / 362880 = (\<bar>\<theta>\<bar> ^ 9 / 362880) / \<theta>"
    unfolding q [symmetric] using pos by (simp add: pow_unfold field_simps)
  have t: "\<bar>sin \<theta> - (\<theta> - \<theta> ^ 3 / 6 + \<theta> ^ 5 / 120 - \<theta> ^ 7 / 5040)\<bar> \<le> \<bar>\<theta>\<bar> ^ 9 / 362880"
    by (rule sin_taylor)
  have a: "\<bar>\<theta>\<bar> = \<theta>" using pos by simp
  show ?thesis
    unfolding e r abs_divide a by (rule divide_right_mono [OF t [unfolded a]]) (simp add: pos less_imp_le)
qed

lemma cosc_bound:
  fixes \<theta> q :: real
  assumes pos: "0 < \<theta>" and q: "\<theta>\<^sup>2 = q"
  shows "\<bar>(1 - cos \<theta>) / \<theta>\<^sup>2 - (1 / 2 - q / 24 + q\<^sup>2 / 720 - q ^ 3 / 40320)\<bar> \<le> q ^ 4 / 3628800"
proof -
  have e: "(1 - cos \<theta>) / \<theta>\<^sup>2 - (1 / 2 - q / 24 + q\<^sup>2 / 720 - q ^ 3 / 40320)
         = - (cos \<theta> - (1 - \<theta>\<^sup>2 / 2 + \<theta> ^ 4 / 24 - \<theta> ^ 6 / 720 + \<theta> ^ 8 / 40320)) / \<theta>\<^sup>2"
    unfolding q [symmetric] using pos by (simp add: pow_unfold field_simps)
  have r: "q ^ 4 / 3628800 = (\<theta> ^ 10 / 3628800) / \<theta>\<^sup>2"
    unfolding q [symmetric] using pos by (simp add: pow_unfold field_simps)
  have a: "\<bar>\<theta>\<^sup>2\<bar> = \<theta>\<^sup>2" by simp
  show ?thesis
    unfolding e r abs_divide abs_minus a by (rule divide_right_mono [OF cos_taylor [OF pos]]) simp
qed

lemma sincc_bound:
  fixes \<theta> q :: real
  assumes pos: "0 < \<theta>" and q: "\<theta>\<^sup>2 = q"
  shows "\<bar>(\<theta> - sin \<theta>) / \<theta> ^ 3 - (1 / 6 - q / 120 + q\<^sup>2 / 5040)\<bar> \<le> q ^ 3 / 362880"
proof -
  have e: "(\<theta> - sin \<theta>) / \<theta> ^ 3 - (1 / 6 - q / 120 + q\<^sup>2 / 5040)
         = - (sin \<theta> - (\<theta> - \<theta> ^ 3 / 6 + \<theta> ^ 5 / 120 - \<theta> ^ 7 / 5040)) / \<theta> ^ 3"
    unfolding q [symmetric] using pos by (simp add: pow_unfold field_simps)
  have r: "q ^ 3 / 362880 = (\<bar>\<theta>\<bar> ^ 9 / 362880) / \<theta> ^ 3"
    unfolding q [symmetric] using pos by (simp add: pow_unfold field_simps)
  have t: "\<bar>sin \<theta> - (\<theta> - \<theta> ^ 3 / 6 + \<theta> ^ 5 / 120 - \<theta> ^ 7 / 5040)\<bar> \<le> \<bar>\<theta>\<bar> ^ 9 / 362880"
    by (rule sin_taylor)
  have a: "\<bar>\<theta> ^ 3\<bar> = \<theta> ^ 3" using pos by simp
  show ?thesis
    unfolding e r abs_divide abs_minus a by (rule divide_right_mono [OF t]) (simp add: pos less_imp_le)
qed

section \<open>Enclosures of sums and products\<close>

lemma mul_near:
  fixes x y u z :: real
  assumes "\<bar>x - y\<bar> \<le> \<rho>" and "\<bar>u - z\<bar> \<le> r"
  shows "\<bar>x * u - y * z\<bar> \<le> r * \<bar>y\<bar> + \<rho> * \<bar>z\<bar> + \<rho> * r"
proof -
  have e: "x * u - y * z = (x - y) * (u - z) + y * (u - z) + (x - y) * z"
    by (simp add: algebra_simps)
  have 1: "\<bar>(x - y) * (u - z)\<bar> \<le> \<rho> * r"
    unfolding abs_mult using assms by (intro mult_mono) auto
  have 2: "\<bar>y * (u - z)\<bar> \<le> \<bar>y\<bar> * r"
    unfolding abs_mult using assms by (intro mult_left_mono) auto
  have 3: "\<bar>(x - y) * z\<bar> \<le> \<rho> * \<bar>z\<bar>"
    unfolding abs_mult using assms by (intro mult_right_mono) auto
  show ?thesis unfolding e using 1 2 3 by (simp add: mult.commute)
qed

lemma l1_Cons [simp]: "l1 (x # xs) = \<bar>x\<bar> + l1 xs" and l1_Nil [simp]: "l1 [] = 0"
  by (simp_all add: l1_def)

lemma dot_near:
  assumes "vnear \<rho> a ac" and "vnear r v c" and "length ac = length c"
  shows "\<bar>dot a v - dot ac c\<bar> \<le> r * l1 ac + \<rho> * l1 c + real (length c) * (\<rho> * r)"
  using assms unfolding vnear_def
proof (induction a ac arbitrary: v c rule: list_all2_induct)
  case Nil
  then show ?case by (simp add: dot_def)
next
  case (Cons x xs y ys)
  from Cons.prems obtain u us z zs where v: "v = u # us" and c: "c = z # zs"
    and uz: "\<bar>u - z\<bar> \<le> r" and rest: "list_all2 (\<lambda>x y. \<bar>x - y\<bar> \<le> r) us zs" and len: "length ys = length zs"
    by (cases v; cases c) auto
  have m: "\<bar>x * u - y * z\<bar> \<le> r * \<bar>y\<bar> + \<rho> * \<bar>z\<bar> + \<rho> * r"
    by (rule mul_near [OF Cons.hyps(1) uz])
  have ih: "\<bar>dot xs us - dot ys zs\<bar> \<le> r * l1 ys + \<rho> * l1 zs + real (length zs) * (\<rho> * r)"
    by (rule Cons.IH [OF rest len])
  show ?case unfolding v c using m ih by (simp add: algebra_simps)
qed

lemma mv_near:
  assumes A: "mnear \<rho> A Ac" and v: "vnear r v c"
    and len: "\<forall>row \<in> set Ac. length row = length c"
    and K: "\<forall>row \<in> set Ac. l1 row \<le> K" and L: "l1 c \<le> L" and pos: "0 \<le> \<rho>" "0 \<le> r"
  shows "vnear (r * K + \<rho> * L + real (length c) * (\<rho> * r)) (mv A v) (mv Ac c)"
  using A len K unfolding mnear_def
proof (induction A Ac rule: list_all2_induct)
  case Nil
  then show ?case by (simp add: vnear_def mv_def)
next
  case (Cons a A ac Ac)
  have d: "\<bar>dot a v - dot ac c\<bar> \<le> r * l1 ac + \<rho> * l1 c + real (length c) * (\<rho> * r)"
    by (rule dot_near [OF Cons.hyps(1) v]) (use Cons.prems in simp)
  have k: "r * l1 ac \<le> r * K" using Cons.prems pos by (intro mult_left_mono) auto
  have l: "\<rho> * l1 c \<le> \<rho> * L" using L pos by (intro mult_left_mono) auto
  have "\<bar>dot a v - dot ac c\<bar> \<le> r * K + \<rho> * L + real (length c) * (\<rho> * r)"
    using d k l by linarith
  moreover have "vnear (r * K + \<rho> * L + real (length c) * (\<rho> * r)) (mv A v) (mv Ac c)"
    using Cons.IH Cons.prems by simp
  ultimately show ?case by (simp add: vnear_def mv_def)
qed

lemma vadd_near:
  assumes "vnear r u c" and "vnear s v d"
  shows "vnear (r + s) (vadd u v) (vadd c d)"
  using assms unfolding vnear_def vadd_def
proof (induction u c arbitrary: v d rule: list_all2_induct)
  case Nil
  then show ?case by simp
next
  case (Cons x xs y ys)
  show ?case
  proof (cases v)
    case Nil
    with Cons.prems show ?thesis by simp
  next
    case (Cons a as)
    with Cons.prems obtain b bs where d: "d = b # bs" and ab: "\<bar>a - b\<bar> \<le> s"
      and rest: "list_all2 (\<lambda>x y. \<bar>x - y\<bar> \<le> s) as bs"
      by (cases d) auto
    have "\<bar>x + a - (y + b)\<bar> \<le> r + s" using Cons.hyps(1) ab by linarith
    then show ?thesis unfolding Cons d using Cons.IH [OF rest] by simp
  qed
qed

lemma vsub_near:
  assumes "vnear r u c" and "vnear s v d"
  shows "vnear (r + s) (vsub u v) (vsub c d)"
  using assms unfolding vnear_def vsub_def
proof (induction u c arbitrary: v d rule: list_all2_induct)
  case Nil
  then show ?case by simp
next
  case (Cons x xs y ys)
  show ?case
  proof (cases v)
    case Nil
    with Cons.prems show ?thesis by simp
  next
    case (Cons a as)
    with Cons.prems obtain b bs where d: "d = b # bs" and ab: "\<bar>a - b\<bar> \<le> s"
      and rest: "list_all2 (\<lambda>x y. \<bar>x - y\<bar> \<le> s) as bs"
      by (cases d) auto
    have "\<bar>x - a - (y - b)\<bar> \<le> r + s" using Cons.hyps(1) ab by linarith
    then show ?thesis unfolding Cons d using Cons.IH [OF rest] by simp
  qed
qed

lemma smult_near:
  assumes "vnear r v c"
  shows "vnear (\<bar>k\<bar> * r) (smult k v) (smult k c)"
  using assms unfolding vnear_def smult_def
proof (induction v c rule: list_all2_induct)
  case Nil
  then show ?case by simp
next
  case (Cons x xs y ys)
  have "\<bar>k * x - k * y\<bar> = \<bar>k\<bar> * \<bar>x - y\<bar>"
    by (simp add: abs_mult [symmetric] algebra_simps)
  also have "\<dots> \<le> \<bar>k\<bar> * r" using Cons.hyps(1) by (intro mult_left_mono) auto
  finally show ?case using Cons.IH by simp
qed

lemma vnear_refl: "0 \<le> r \<Longrightarrow> vnear r v v"
  unfolding vnear_def by (induction v) auto

lemma mnear_refl: "0 \<le> r \<Longrightarrow> mnear r A A"
  unfolding mnear_def by (induction A) (auto simp: vnear_refl)

lemma vnear_recentre:
  assumes "vnear r v c" and "list_all2 (\<lambda>y z. \<bar>y - z\<bar> + r \<le> s) c d"
  shows "vnear s v d"
  using assms unfolding vnear_def
proof (induction v c arbitrary: d rule: list_all2_induct)
  case Nil
  then show ?case by simp
next
  case (Cons x xs y ys)
  from Cons.prems obtain z zs where d: "d = z # zs" and yz: "\<bar>y - z\<bar> + r \<le> s"
    and rest: "list_all2 (\<lambda>y z. \<bar>y - z\<bar> + r \<le> s) ys zs"
    by (cases d) auto
  have "\<bar>x - z\<bar> \<le> s" using Cons.hyps(1) yz by linarith
  then show ?case unfolding d using Cons.IH [OF rest] by simp
qed

lemma mnear_recentre:
  assumes "mnear r A C" and "list_all2 (list_all2 (\<lambda>y z. \<bar>y - z\<bar> + r \<le> s)) C D"
  shows "mnear s A D"
  using assms unfolding mnear_def
proof (induction A C arbitrary: D rule: list_all2_induct)
  case Nil
  then show ?case by simp
next
  case (Cons x xs y ys)
  from Cons.prems obtain z zs where d: "D = z # zs" and yz: "list_all2 (\<lambda>y z. \<bar>y - z\<bar> + r \<le> s) y z"
    and rest: "list_all2 (list_all2 (\<lambda>y z. \<bar>y - z\<bar> + r \<le> s)) ys zs"
    by (cases D) auto
  have "vnear s x z" by (rule vnear_recentre [OF Cons.hyps(1) yz])
  then show ?case unfolding d using Cons.IH [OF rest] by simp
qed

lemma mtranspose_near:
  assumes A: "mnear \<rho> A C" and lA: "\<forall>row \<in> set A. length row = n"
    and lC: "\<forall>row \<in> set C. length row = n"
  shows "mnear \<rho> (mtranspose A) (mtranspose C)"
proof -
  have len: "length A = length C" using A by (simp add: mnear_def list_all2_lengthD)
  have nc: "ncols A = ncols C"
    using len lA lC by (cases A; cases C) (simp_all add: ncols_def)
  have col: "vnear \<rho> (mcol A j) (mcol C j)" if "j < ncols C" for j
  proof -
    have "\<bar>A ! i ! j - C ! i ! j\<bar> \<le> \<rho>" if i: "i < length C" for i
    proof -
      have r: "list_all2 (\<lambda>x y. \<bar>x - y\<bar> \<le> \<rho>) (A ! i) (C ! i)"
        using A i len by (simp add: mnear_def vnear_def list_all2_conv_all_nth)
      have "C ! i \<in> set C" using i by simp
      then have "length (C ! i) = n" using lC by blast
      moreover have "ncols C = n" using lC i by (cases C) (auto simp: ncols_def)
      ultimately have "j < length (C ! i)" using \<open>j < ncols C\<close> by simp
      then show ?thesis using r by (simp add: list_all2_conv_all_nth)
    qed
    then show ?thesis using len by (simp add: vnear_def mcol_def list_all2_conv_all_nth)
  qed
  show ?thesis
    unfolding mnear_def mtranspose_def nc using col
    by (simp add: list_all2_conv_all_nth)
qed

lemma ad_rows: "\<forall>row \<in> set (ad V). length row = 6"
  by (simp add: ad_def VecToso3_def hcat_def Zero_3_3 Let_def)

lemma ad_near:
  assumes v: "vnear r v c" and len: "length c = 6" and pos: "0 \<le> r"
  shows "mnear r (ad v) (ad c)"
proof -
  have lv: "length v = 6" using v len by (simp add: vnear_def list_all2_lengthD)
  have n: "\<bar>v ! i - c ! i\<bar> \<le> r" if "i < 6" for i
    using v len that by (simp add: vnear_def list_all2_conv_all_nth)
  have "\<bar>v ! 0 - c ! 0\<bar> \<le> r" "\<bar>v ! 1 - c ! 1\<bar> \<le> r" "\<bar>v ! 2 - c ! 2\<bar> \<le> r"
    "\<bar>v ! 3 - c ! 3\<bar> \<le> r" "\<bar>v ! 4 - c ! 4\<bar> \<le> r" "\<bar>v ! 5 - c ! 5\<bar> \<le> r"
    "\<bar>c ! 0 - v ! 0\<bar> \<le> r" "\<bar>c ! 1 - v ! 1\<bar> \<le> r" "\<bar>c ! 2 - v ! 2\<bar> \<le> r"
    "\<bar>c ! 3 - v ! 3\<bar> \<le> r" "\<bar>c ! 4 - v ! 4\<bar> \<le> r" "\<bar>c ! 5 - v ! 5\<bar> \<le> r"
    using n [of 0] n [of 1] n [of 2] n [of 3] n [of 4] n [of 5] by (simp_all add: abs_minus_commute)
  then show ?thesis
    using pos by (simp add: ad_def VecToso3_def hcat_def Zero_3_3 Let_def mnear_def vnear_def)
qed

lemma mul_near_bound:
  fixes x y u z :: real
  assumes "\<bar>x - y\<bar> \<le> \<rho>" and "\<bar>u - z\<bar> \<le> \<rho>" and "\<bar>y\<bar> \<le> B" and "\<bar>z\<bar> \<le> B"
  shows "\<bar>x * u - y * z\<bar> \<le> \<rho> * B + \<rho> * B + \<rho> * \<rho>"
proof -
  have pos: "0 \<le> \<rho>" using assms(1) by linarith
  have 1: "\<rho> * \<bar>y\<bar> \<le> \<rho> * B" using assms(3) pos by (rule mult_left_mono)
  have 2: "\<rho> * \<bar>z\<bar> \<le> \<rho> * B" using assms(4) pos by (rule mult_left_mono)
  from mul_near [OF assms(1,2)] 1 2 show ?thesis by linarith
qed

lemma diff_near:
  fixes p q s t :: real
  assumes "\<bar>p - q\<bar> \<le> e" and "\<bar>s - t\<bar> \<le> e" and "2 * e \<le> r"
  shows "\<bar>p - s - (q - t)\<bar> \<le> r"
  using assms by linarith

lemma Adjoint_explicit:
  "Adjoint [[a0, a1, a2, a3], [b0, b1, b2, b3], [c0, c1, c2, c3], r]
     = [[a0, a1, a2, 0, 0, 0],
        [b0, b1, b2, 0, 0, 0],
        [c0, c1, c2, 0, 0, 0],
        [b3 * c0 - c3 * b0, b3 * c1 - c3 * b1, b3 * c2 - c3 * b2, a0, a1, a2],
        [c3 * a0 - a3 * c0, c3 * a1 - a3 * c1, c3 * a2 - a3 * c2, b0, b1, b2],
        [a3 * b0 - b3 * a0, a3 * b1 - b3 * a1, a3 * b2 - b3 * a2, c0, c1, c2]]"
  by (simp add: Adjoint_def TransToRp_def block_explicit VecToso3_def Zero_3_3 hcat_def mm_def dot_def
      mcol_def ncols_def upt_conv_Cons)

lemma Adjoint_near:
  fixes B :: real
  assumes T: "mnear \<rho> [[a0, a1, a2, a3], [b0, b1, b2, b3], [c0, c1, c2, c3], r]
                     [[d0, d1, d2, d3], [e0, e1, e2, e3], [f0, f1, f2, f3], s]"
    and B: "\<bar>d0\<bar> \<le> B" "\<bar>d1\<bar> \<le> B" "\<bar>d2\<bar> \<le> B" "\<bar>d3\<bar> \<le> B" "\<bar>e0\<bar> \<le> B" "\<bar>e1\<bar> \<le> B" "\<bar>e2\<bar> \<le> B" "\<bar>e3\<bar> \<le> B" "\<bar>f0\<bar> \<le> B" "\<bar>f1\<bar> \<le> B" "\<bar>f2\<bar> \<le> B" "\<bar>f3\<bar> \<le> B"
    and r1: "\<rho> \<le> \<rho>'" and r2: "2 * (\<rho> * B + \<rho> * B + \<rho> * \<rho>) \<le> \<rho>'"
  shows "mnear \<rho>' (Adjoint [[a0, a1, a2, a3], [b0, b1, b2, b3], [c0, c1, c2, c3], r])
                 (Adjoint [[d0, d1, d2, d3], [e0, e1, e2, e3], [f0, f1, f2, f3], s])"
proof -
  have n: "\<bar>a0 - d0\<bar> \<le> \<rho>" "\<bar>a1 - d1\<bar> \<le> \<rho>" "\<bar>a2 - d2\<bar> \<le> \<rho>" "\<bar>a3 - d3\<bar> \<le> \<rho>" "\<bar>b0 - e0\<bar> \<le> \<rho>" "\<bar>b1 - e1\<bar> \<le> \<rho>" "\<bar>b2 - e2\<bar> \<le> \<rho>" "\<bar>b3 - e3\<bar> \<le> \<rho>" "\<bar>c0 - f0\<bar> \<le> \<rho>" "\<bar>c1 - f1\<bar> \<le> \<rho>" "\<bar>c2 - f2\<bar> \<le> \<rho>" "\<bar>c3 - f3\<bar> \<le> \<rho>"
    using T by (simp_all add: mnear_def vnear_def)
  have pos: "0 \<le> \<rho>'" using n(1) r1 by linarith
  have R: "\<bar>a0 - d0\<bar> \<le> \<rho>'" "\<bar>a1 - d1\<bar> \<le> \<rho>'" "\<bar>a2 - d2\<bar> \<le> \<rho>'" "\<bar>b0 - e0\<bar> \<le> \<rho>'" "\<bar>b1 - e1\<bar> \<le> \<rho>'" "\<bar>b2 - e2\<bar> \<le> \<rho>'" "\<bar>c0 - f0\<bar> \<le> \<rho>'" "\<bar>c1 - f1\<bar> \<le> \<rho>'" "\<bar>c2 - f2\<bar> \<le> \<rho>'"
    using n r1 by linarith+
  note m = mul_near_bound [where \<rho> = \<rho> and B = B]
  have q00: "\<bar>b3 * c0 - c3 * b0 - (e3 * f0 - f3 * e0)\<bar> \<le> \<rho>'"
    by (rule diff_near [OF m m r2]) (simp_all add: n B)
  have q01: "\<bar>b3 * c1 - c3 * b1 - (e3 * f1 - f3 * e1)\<bar> \<le> \<rho>'"
    by (rule diff_near [OF m m r2]) (simp_all add: n B)
  have q02: "\<bar>b3 * c2 - c3 * b2 - (e3 * f2 - f3 * e2)\<bar> \<le> \<rho>'"
    by (rule diff_near [OF m m r2]) (simp_all add: n B)
  have q10: "\<bar>c3 * a0 - a3 * c0 - (f3 * d0 - d3 * f0)\<bar> \<le> \<rho>'"
    by (rule diff_near [OF m m r2]) (simp_all add: n B)
  have q11: "\<bar>c3 * a1 - a3 * c1 - (f3 * d1 - d3 * f1)\<bar> \<le> \<rho>'"
    by (rule diff_near [OF m m r2]) (simp_all add: n B)
  have q12: "\<bar>c3 * a2 - a3 * c2 - (f3 * d2 - d3 * f2)\<bar> \<le> \<rho>'"
    by (rule diff_near [OF m m r2]) (simp_all add: n B)
  have q20: "\<bar>a3 * b0 - b3 * a0 - (d3 * e0 - e3 * d0)\<bar> \<le> \<rho>'"
    by (rule diff_near [OF m m r2]) (simp_all add: n B)
  have q21: "\<bar>a3 * b1 - b3 * a1 - (d3 * e1 - e3 * d1)\<bar> \<le> \<rho>'"
    by (rule diff_near [OF m m r2]) (simp_all add: n B)
  have q22: "\<bar>a3 * b2 - b3 * a2 - (d3 * e2 - e3 * d2)\<bar> \<le> \<rho>'"
    by (rule diff_near [OF m m r2]) (simp_all add: n B)
  show ?thesis
    unfolding Adjoint_explicit mnear_def vnear_def
    by (simp add: pos R q00 q01 q02 q10 q11 q12 q20 q21 q22)
qed

lemma Adjoint_near_gen:
  fixes B :: real
  assumes T: "mnear \<rho> T [[d0, d1, d2, d3], [e0, e1, e2, e3], [f0, f1, f2, f3], s]"
    and B: "\<bar>d0\<bar> \<le> B" "\<bar>d1\<bar> \<le> B" "\<bar>d2\<bar> \<le> B" "\<bar>d3\<bar> \<le> B" "\<bar>e0\<bar> \<le> B" "\<bar>e1\<bar> \<le> B" "\<bar>e2\<bar> \<le> B" "\<bar>e3\<bar> \<le> B" "\<bar>f0\<bar> \<le> B" "\<bar>f1\<bar> \<le> B" "\<bar>f2\<bar> \<le> B" "\<bar>f3\<bar> \<le> B"
    and r1: "\<rho> \<le> \<rho>'" and r2: "2 * (\<rho> * B + \<rho> * B + \<rho> * \<rho>) \<le> \<rho>'"
  shows "mnear \<rho>' (Adjoint T) (Adjoint [[d0, d1, d2, d3], [e0, e1, e2, e3], [f0, f1, f2, f3], s])"
proof -
  from T obtain a0 a1 a2 a3 b0 b1 b2 b3 c0 c1 c2 c3 r where
    e: "T = [[a0, a1, a2, a3], [b0, b1, b2, b3], [c0, c1, c2, c3], r]"
    by (auto simp: mnear_def vnear_def list_all2_Cons2)
  show ?thesis
    using Adjoint_near [OF T [unfolded e] B r1 r2] unfolding e .
qed

lemma AdT_rows: "\<forall>row \<in> set (AdT_link thetalist Mlist Slist i). length row = 6"
  by (simp add: AdT_link_def rows_Adjoint)

section \<open>Inverse dynamics of the three-joint chain\<close>

text \<open>
  The screw axes of the chain in the link frames are rational.  Each transform
  \<open>exp(-A\<^sub>i \<theta>\<^sub>i) M\<^sub>i\<^sub>-\<^sub>1\<^sub>,\<^sub>i\<^sup>-\<^sup>1\<close> is enclosed with the Taylor bounds, and the twists,
  accelerations and wrenches of the two passes are enclosed one after the other.
\<close>

lemma TransInv_explicit:
  "TransInv [[a0, a1, a2, a3], [b0, b1, b2, b3], [c0, c1, c2, c3], r]
     = [[a0, b0, c0, - (a0 * a3 + b0 * b3 + c0 * c3)],
        [a1, b1, c1, - (a1 * a3 + b1 * b3 + c1 * c3)],
        [a2, b2, c2, - (a2 * a3 + b2 * b3 + c2 * c3)],
        [0, 0, 0, 1]]"
  by (simp add: TransInv_def TransToRp_def block_explicit mtranspose_def mv_def smult_def hcat_def
      dot_def mcol_def ncols_def upt_conv_Cons Let_def)

lemma mm_4:
  "mm [[a0, a1, a2, a3], [b0, b1, b2, b3], [c0, c1, c2, c3], [d0, d1, d2, d3]]
      [[p0, p1, p2, p3], [q0, q1, q2, q3], [r0, r1, r2, r3], [s0, s1, s2, s3]]
     = [[a0 * p0 + a1 * q0 + a2 * r0 + a3 * s0, a0 * p1 + a1 * q1 + a2 * r1 + a3 * s1,
         a0 * p2 + a1 * q2 + a2 * r2 + a3 * s2, a0 * p3 + a1 * q3 + a2 * r3 + a3 * s3],
        [b0 * p0 + b1 * q0 + b2 * r0 + b3 * s0, b0 * p1 + b1 * q1 + b2 * r1 + b3 * s1,
         b0 * p2 + b1 * q2 + b2 * r2 + b3 * s2, b0 * p3 + b1 * q3 + b2 * r3 + b3 * s3],
        [c0 * p0 + c1 * q0 + c2 * r0 + c3 * s0, c0 * p1 + c1 * q1 + c2 * r1 + c3 * s1,
         c0 * p2 + c1 * q2 + c2 * r2 + c3 * s2, c0 * p3 + c1 * q3 + c2 * r3 + c3 * s3],
        [d0 * p0 + d1 * q0 + d2 * r0 + d3 * s0, d0 * p1 + d1 * q1 + d2 * r1 + d3 * s1,
         d0 * p2 + d1 * q2 + d2 * r2 + d3 * s2, d0 * p3 + d1 * q3 + d2 * r3 + d3 * s3]]"
  by (simp add: mm_def dot_def mcol_def ncols_def upt_conv_Cons)

lemma mv_6:
  "mv [r0, r1, r2, r3, r4, r5] x = [dot r0 x, dot r1 x, dot r2 x, dot r3 x, dot r4 x, dot r5 x]"
  by (simp add: mv_def)

lemma test_Mcum:
  "Mcum test_Mlist (Suc 0) = M01"
  "Mcum test_Mlist (Suc (Suc 0)) = mm M01 M12"
  "Mcum test_Mlist 3 = mm (mm M01 M12) M23"
  by (simp_all add: test_Mlist_def M01_def M12_def M23_def Identity_def mm_4 upt_conv_Cons numeral_3_eq_3)

lemma test_A_link:
  "test_A 0 = [1, 0, 1, 0, 910841 / 1000000, 0]"
  "test_A (Suc 0) = [0, 1, 0, 7 / 25, 0, 159 / 1000000]"
  "test_A 2 = [0, 1, 0, 1 / 4, 0, 159 / 1000000]"
  by (simp_all add: A_link_def test_Mcum M01_def M12_def M23_def mm_4 TransInv_explicit
      Adjoint_explicit test_Slist_explicit mcol_def mv_6 del: Mcum.simps)

lemma test_T0:
  "mnear (1 / 10 ^ 9)
     (mm (MatrixExp6 (VecTose3 (smult (- (test_thetalist ! 0)) (test_A (0)))))
         (TransInv (test_Mlist ! 0)))
     [[4975041639 / 5000000000, 498334999 / 5000000000, 24958361 / 5000000000, - (24958361 / 5000000000)],
      [- (498334999 / 5000000000), 2475041639 / 2500000000, 498334999 / 5000000000, - (498334999 / 5000000000)],
      [24958361 / 5000000000, - (498334999 / 5000000000), 4975041639 / 5000000000, - (420836639 / 5000000000)],
      [0, 0, 0, 1]]"
proof -
  define \<theta> :: real where "\<theta> = sqrt (1 / 50)"
  have pos: "0 < \<theta>" by (simp add: \<theta>_def)
  have q: "\<theta>\<^sup>2 = 1 / 50" by (simp add: \<theta>_def)
  have big: "1 / 1000000 \<le> \<theta>" unfolding \<theta>_def by (rule real_le_rsqrt) (simp add: power2_eq_square)
  define a where "a = sin \<theta> / \<theta>"
  define b where "b = (1 - cos \<theta>) / \<theta>\<^sup>2"
  define c where "c = (\<theta> - sin \<theta>) / \<theta> ^ 3"
  have a: "\<bar>a - 996669998413 / 1000000000000\<bar> \<le> 1 / 10000000000"
    using sinc_bound [OF pos q] unfolding a_def [symmetric] by (simp add: power2_eq_square power3_eq_cube power4_eq_xxxx del: divide_le_eq_numeral1 le_divide_eq_numeral1)
  have b: "\<bar>b - 62395902753 / 125000000000\<bar> \<le> 1 / 10000000000"
    using cosc_bound [OF pos q] unfolding b_def [symmetric] by (simp add: power2_eq_square power3_eq_cube power4_eq_xxxx del: divide_le_eq_numeral1 le_divide_eq_numeral1)
  have c: "\<bar>c - 33300015873 / 200000000000\<bar> \<le> 1 / 10000000000"
    using sincc_bound [OF pos q] unfolding c_def [symmetric] by (simp add: power2_eq_square power3_eq_cube power4_eq_xxxx del: divide_le_eq_numeral1 le_divide_eq_numeral1)
  have V: "smult (- (test_thetalist ! 0)) (test_A (0)) = [- (1 / 10), 0, - (1 / 10), 0, - (910841 / 10000000), 0]"
    by (simp add: test_thetalist_def test_A_link smult_def)
  have th: "\<theta> = sqrt ((- (1 / 10))\<^sup>2 + (0)\<^sup>2 + (- (1 / 10))\<^sup>2)"
    by (simp add: \<theta>_def power2_eq_square)
  note E = MatrixExp6_closed [OF th big, folded a_def b_def c_def]
  show ?thesis
    unfolding V E using a b c
    by (simp add: test_Mlist_def M01_def M12_def M23_def TransInv_explicit mm_4 mnear_def vnear_def power2_eq_square diff_divide_distrib add_divide_distrib del: divide_le_eq_numeral1 le_divide_eq_numeral1)
       (intro conjI; linarith)
qed

lemma test_T1:
  "mnear (1 / 10 ^ 9)
     (mm (MatrixExp6 (VecTose3 (smult (- (test_thetalist ! Suc 0)) (test_A (Suc 0)))))
         (TransInv (test_Mlist ! Suc 0)))
     [[- (499167083 / 5000000000), 0, - (9950041653 / 10000000000), 7943 / 10000000000],
      [0, 1, 0, - (2717 / 20000)],
      [9950041653 / 10000000000, 0, - (499167083 / 5000000000), - (560031747 / 2000000000)],
      [0, 0, 0, 1]]"
proof -
  define \<theta> :: real where "\<theta> = sqrt (1 / 100)"
  have pos: "0 < \<theta>" by (simp add: \<theta>_def)
  have q: "\<theta>\<^sup>2 = 1 / 100" by (simp add: \<theta>_def)
  have big: "1 / 1000000 \<le> \<theta>" unfolding \<theta>_def by (rule real_le_rsqrt) (simp add: power2_eq_square)
  define a where "a = sin \<theta> / \<theta>"
  define b where "b = (1 - cos \<theta>) / \<theta>\<^sup>2"
  define c where "c = (\<theta> - sin \<theta>) / \<theta> ^ 3"
  have a: "\<bar>a - 249583541617 / 250000000000\<bar> \<le> 1 / 10000000000"
    using sinc_bound [OF pos q] unfolding a_def [symmetric] by (simp add: power2_eq_square power3_eq_cube power4_eq_xxxx del: divide_le_eq_numeral1 le_divide_eq_numeral1)
  have b: "\<bar>b - 499583472197 / 1000000000000\<bar> \<le> 1 / 10000000000"
    using cosc_bound [OF pos q] unfolding b_def [symmetric] by (simp add: power2_eq_square power3_eq_cube power4_eq_xxxx del: divide_le_eq_numeral1 le_divide_eq_numeral1)
  have c: "\<bar>c - 6663334127 / 40000000000\<bar> \<le> 1 / 10000000000"
    using sincc_bound [OF pos q] unfolding c_def [symmetric] by (simp add: power2_eq_square power3_eq_cube power4_eq_xxxx del: divide_le_eq_numeral1 le_divide_eq_numeral1)
  have V: "smult (- (test_thetalist ! Suc 0)) (test_A (Suc 0)) = [0, - (1 / 10), 0, - (7 / 250), 0, - (159 / 10000000)]"
    by (simp add: test_thetalist_def test_A_link smult_def)
  have th: "\<theta> = sqrt ((0)\<^sup>2 + (- (1 / 10))\<^sup>2 + (0)\<^sup>2)"
    by (simp add: \<theta>_def power2_eq_square)
  note E = MatrixExp6_closed [OF th big, folded a_def b_def c_def]
  show ?thesis
    unfolding V E using a b c
    by (simp add: test_Mlist_def M01_def M12_def M23_def TransInv_explicit mm_4 mnear_def vnear_def power2_eq_square diff_divide_distrib add_divide_distrib del: divide_le_eq_numeral1 le_divide_eq_numeral1)
       (intro conjI; linarith)
qed

lemma test_T2:
  "mnear (1 / 10 ^ 9)
     (mm (MatrixExp6 (VecTose3 (smult (- (test_thetalist ! 2)) (test_A (2)))))
         (TransInv (test_Mlist ! 2)))
     [[9950041653 / 10000000000, 0, - (499167083 / 5000000000), 72383199 / 5000000000],
      [0, 1, 0, 1197 / 10000],
      [499167083 / 5000000000, 0, 9950041653 / 10000000000, - (157716591 / 400000000)],
      [0, 0, 0, 1]]"
proof -
  define \<theta> :: real where "\<theta> = sqrt (1 / 100)"
  have pos: "0 < \<theta>" by (simp add: \<theta>_def)
  have q: "\<theta>\<^sup>2 = 1 / 100" by (simp add: \<theta>_def)
  have big: "1 / 1000000 \<le> \<theta>" unfolding \<theta>_def by (rule real_le_rsqrt) (simp add: power2_eq_square)
  define a where "a = sin \<theta> / \<theta>"
  define b where "b = (1 - cos \<theta>) / \<theta>\<^sup>2"
  define c where "c = (\<theta> - sin \<theta>) / \<theta> ^ 3"
  have a: "\<bar>a - 249583541617 / 250000000000\<bar> \<le> 1 / 10000000000"
    using sinc_bound [OF pos q] unfolding a_def [symmetric] by (simp add: power2_eq_square power3_eq_cube power4_eq_xxxx del: divide_le_eq_numeral1 le_divide_eq_numeral1)
  have b: "\<bar>b - 499583472197 / 1000000000000\<bar> \<le> 1 / 10000000000"
    using cosc_bound [OF pos q] unfolding b_def [symmetric] by (simp add: power2_eq_square power3_eq_cube power4_eq_xxxx del: divide_le_eq_numeral1 le_divide_eq_numeral1)
  have c: "\<bar>c - 6663334127 / 40000000000\<bar> \<le> 1 / 10000000000"
    using sincc_bound [OF pos q] unfolding c_def [symmetric] by (simp add: power2_eq_square power3_eq_cube power4_eq_xxxx del: divide_le_eq_numeral1 le_divide_eq_numeral1)
  have V: "smult (- (test_thetalist ! 2)) (test_A (2)) = [0, - (1 / 10), 0, - (1 / 40), 0, - (159 / 10000000)]"
    by (simp add: test_thetalist_def test_A_link smult_def)
  have th: "\<theta> = sqrt ((0)\<^sup>2 + (- (1 / 10))\<^sup>2 + (0)\<^sup>2)"
    by (simp add: \<theta>_def power2_eq_square)
  note E = MatrixExp6_closed [OF th big, folded a_def b_def c_def]
  show ?thesis
    unfolding V E using a b c
    by (simp add: test_Mlist_def M01_def M12_def M23_def TransInv_explicit mm_4 mnear_def vnear_def power2_eq_square diff_divide_distrib add_divide_distrib del: divide_le_eq_numeral1 le_divide_eq_numeral1)
       (intro conjI; linarith)
qed

lemma test_AdT0:
  "mnear (1 / 100000000) (test_AdT (0))
     [[4975041639 / 5000000000, 498334999 / 5000000000, 24958361 / 5000000000, 0, 0, 0],
      [- (498334999 / 5000000000), 2475041639 / 2500000000, 498334999 / 5000000000, 0, 0, 0],
      [24958361 / 5000000000, - (498334999 / 5000000000), 4975041639 / 5000000000, 0, 0, 0],
      [- (888621 / 100000000), 116575709 / 1250000000, - (453903949 / 5000000000), 4975041639 / 5000000000, 498334999 / 5000000000, 24958361 / 5000000000],
      [- (837222753 / 10000000000), - (888621 / 100000000), 45466197 / 10000000000, - (498334999 / 5000000000), 2475041639 / 2500000000, 498334999 / 5000000000],
      [498334999 / 5000000000, 24958361 / 5000000000, 0, 24958361 / 5000000000, - (498334999 / 5000000000), 4975041639 / 5000000000]]"
proof -
  have ne: "(0::nat) \<noteq> length test_thetalist" by (simp add: test_thetalist_def)
  show ?thesis
    unfolding AdT_link_def if_not_P [OF ne]
    by (rule mnear_recentre [OF Adjoint_near_gen [where B = 1 and \<rho>' = "1 / 200000000", OF test_T0]])
      (simp_all add: Adjoint_explicit)
qed

lemma test_AdT1:
  "mnear (1 / 100000000) (test_AdT (Suc 0))
     [[- (499167083 / 5000000000), 0, - (9950041653 / 10000000000), 0, 0, 0],
      [0, 1, 0, 0, 0, 0],
      [9950041653 / 10000000000, 0, - (499167083 / 5000000000), 0, 0, 0],
      [- (1351713159 / 10000000000), 560031747 / 2000000000, 8476481 / 625000000, - (499167083 / 5000000000), 0, - (9950041653 / 10000000000)],
      [27954151 / 1000000000, 0, 1393085199 / 5000000000, 0, 1, 0],
      [- (8476481 / 625000000), 7943 / 10000000000, - (1351713159 / 10000000000), 9950041653 / 10000000000, 0, - (499167083 / 5000000000)]]"
proof -
  have ne: "(Suc 0::nat) \<noteq> length test_thetalist" by (simp add: test_thetalist_def)
  show ?thesis
    unfolding AdT_link_def if_not_P [OF ne]
    by (rule mnear_recentre [OF Adjoint_near_gen [where B = 1 and \<rho>' = "1 / 200000000", OF test_T1]])
      (simp_all add: Adjoint_explicit)
qed

lemma test_AdT2:
  "mnear (1 / 100000000) (test_AdT (2))
     [[9950041653 / 10000000000, 0, - (499167083 / 5000000000), 0, 0, 0],
      [0, 1, 0, 0, 0, 0],
      [499167083 / 5000000000, 0, 9950041653 / 10000000000, 0, 0, 0],
      [597503 / 50000000, 157716591 / 400000000, 595509993 / 5000000000, 9950041653 / 10000000000, 0, - (499167083 / 5000000000)],
      [- (3937669149 / 10000000000), 0, 62397871 / 2500000000, 0, 1, 0],
      [- (595509993 / 5000000000), 72383199 / 5000000000, 597503 / 50000000, 499167083 / 5000000000, 0, 9950041653 / 10000000000]]"
proof -
  have ne: "(2::nat) \<noteq> length test_thetalist" by (simp add: test_thetalist_def)
  show ?thesis
    unfolding AdT_link_def if_not_P [OF ne]
    by (rule mnear_recentre [OF Adjoint_near_gen [where B = 1 and \<rho>' = "1 / 200000000", OF test_T2]])
      (simp_all add: Adjoint_explicit)
qed

lemma test_AdT3:
  "mnear 0 (test_AdT 3)
     [[1, 0, 0, 0, 0, 0],
      [0, 1, 0, 0, 0, 0],
      [0, 0, 1, 0, 0, 0],
      [0, 569 / 4000, 0, 1, 0, 0],
      [- (569 / 4000), 0, 0, 0, 1, 0],
      [0, 0, 0, 0, 0, 1]]"
proof -
  have "test_AdT 3 = [[1, 0, 0, 0, 0, 0],
      [0, 1, 0, 0, 0, 0],
      [0, 0, 1, 0, 0, 0],
      [0, 569 / 4000, 0, 1, 0, 0],
      [- (569 / 4000), 0, 0, 0, 1, 0],
      [0, 0, 0, 0, 0, 1]]"
    by (simp add: AdT_link_def test_thetalist_def test_Mlist_def M34_def TransInv_explicit Adjoint_explicit)
  then show ?thesis by (simp add: mnear_refl)
qed

lemma test_V_steps:
  "test_V (Suc 0) = vadd (mv (test_AdT (0)) (test_V (0))) (smult (1 / 10) (test_A (0)))"
  "test_V (2) = vadd (mv (test_AdT (Suc 0)) (test_V (Suc 0))) (smult (1 / 5) (test_A (Suc 0)))"
  "test_V (3) = vadd (mv (test_AdT (2)) (test_V (2))) (smult (3 / 10) (test_A (2)))"
  using V_link.simps(2) [of test_thetalist test_dthetalist test_Mlist test_Slist 0]
    V_link.simps(2) [of test_thetalist test_dthetalist test_Mlist test_Slist "Suc 0"]
    V_link.simps(2) [of test_thetalist test_dthetalist test_Mlist test_Slist 2]
  by (simp_all add: test_dthetalist_def numeral_2_eq_2 numeral_3_eq_3)

lemma test_Vd_steps:
  "test_Vd (Suc 0) = vadd (vadd (mv (test_AdT (0)) (test_Vd (0))) (smult (2) (test_A (0))))
      (smult (1 / 10) (mv (ad (test_V (Suc 0))) (test_A (0))))"
  "test_Vd (2) = vadd (vadd (mv (test_AdT (Suc 0)) (test_Vd (Suc 0))) (smult (3 / 2) (test_A (Suc 0))))
      (smult (1 / 5) (mv (ad (test_V (2))) (test_A (Suc 0))))"
  "test_Vd (3) = vadd (vadd (mv (test_AdT (2)) (test_Vd (2))) (smult (1) (test_A (2))))
      (smult (3 / 10) (mv (ad (test_V (3))) (test_A (2))))"
  using Vd_link.simps(2) [of test_thetalist test_dthetalist test_ddthetalist test_g test_Mlist test_Slist 0]
    Vd_link.simps(2) [of test_thetalist test_dthetalist test_ddthetalist test_g test_Mlist test_Slist "Suc 0"]
    Vd_link.simps(2) [of test_thetalist test_dthetalist test_ddthetalist test_g test_Mlist test_Slist 2]
  by (simp_all add: test_dthetalist_def test_ddthetalist_def numeral_2_eq_2 numeral_3_eq_3)

lemma test_F_steps:
  "test_F (Suc 0) = vsub (vadd (mv (mtranspose (test_AdT (3))) (test_F (0)))
         (mv (asDiagonal6 G3) (test_Vd (3))))
      (mv (mtranspose (ad (test_V (3)))) (mv (asDiagonal6 G3) (test_V (3))))"
  "test_F (2) = vsub (vadd (mv (mtranspose (test_AdT (2))) (test_F (Suc 0)))
         (mv (asDiagonal6 G2) (test_Vd (2))))
      (mv (mtranspose (ad (test_V (2)))) (mv (asDiagonal6 G2) (test_V (2))))"
  "test_F (3) = vsub (vadd (mv (mtranspose (test_AdT (Suc 0))) (test_F (2)))
         (mv (asDiagonal6 G1) (test_Vd (Suc 0))))
      (mv (mtranspose (ad (test_V (Suc 0)))) (mv (asDiagonal6 G1) (test_V (Suc 0))))"
  using F_link.simps(2) [of test_thetalist test_dthetalist test_ddthetalist test_g test_Ftip test_Mlist test_Glist test_Slist 0]
    F_link.simps(2) [of test_thetalist test_dthetalist test_ddthetalist test_g test_Ftip test_Mlist test_Glist test_Slist "Suc 0"]
    F_link.simps(2) [of test_thetalist test_dthetalist test_ddthetalist test_g test_Ftip test_Mlist test_Glist test_Slist 2]
  by (simp_all add: test_thetalist_def test_Glist_def Let_def numeral_2_eq_2 numeral_3_eq_3)

lemma test_V0: "vnear 0 (test_V 0) [0, 0, 0, 0, 0, 0]"
  by (simp add: V_link.simps vzero_numeral vnear_def)

lemma test_Vd0: "vnear 0 (test_Vd 0) [0, 0, 0, 0, 0, 49 / 5]"
  by (simp add: Vd_link.simps test_g_def vnear_def)

lemma test_F0: "vnear 0 (test_F 0) [1, 1, 1, 1, 1, 1]"
  by (simp add: F_link.simps test_Ftip_def vnear_def)

lemma test_V1: "vnear (0) (test_V (Suc 0))
    [1 / 10, 0, 1 / 10, 0, 910841 / 10000000, 0]"
  unfolding test_V_steps(1)
  by (rule vnear_recentre [OF vadd_near [OF mv_near [where K = "13 / 10" and L = "0", OF test_AdT0 test_V0]
        smult_near [OF vnear_refl [of 0]]]])
    (simp_all add: test_A_link test_dthetalist_def test_ddthetalist_def test_Glist_def asDiagonal6_def G1_def G2_def G3_def
      vadd_def vsub_def smult_def mv_6 mtranspose_def mcol_def ncols_def upt_conv_Cons ad_def VecToso3_def
      hcat_def Zero_3_3 Let_def AdT_rows)

lemma test_Vd1: "vnear (99 / 1000000000) (test_Vd (Suc 0))
    [2, 0, 2, 12229597 / 250000000, 1399209299 / 500000000, 2437770403 / 250000000]"
  unfolding test_Vd_steps(1)
  by (rule vnear_recentre [OF vadd_near [OF vadd_near [OF mv_near [where K = "13 / 10" and L = "49 / 5", OF test_AdT0 test_Vd0]
        smult_near [OF vnear_refl [of 0]]]
        smult_near [OF mv_near [where K = "1 / 5" and L = "3", OF ad_near [OF test_V1] vnear_refl [of 0]]]]])
    (simp_all add: test_A_link test_dthetalist_def test_ddthetalist_def test_Glist_def asDiagonal6_def G1_def G2_def G3_def
      vadd_def vsub_def smult_def mv_6 mtranspose_def mcol_def ncols_def upt_conv_Cons ad_def VecToso3_def
      hcat_def Zero_3_3 Let_def AdT_rows)

lemma test_V2: "vnear (7 / 2000000000) (test_V (2))
    [- (54741879 / 500000000), 1 / 5, 3580683 / 40000000, 8767821 / 200000000, 121741219 / 1000000000, - (14841569 / 1000000000)]"
  unfolding test_V_steps(2)
  by (rule vnear_recentre [OF vadd_near [OF mv_near [where K = "8 / 5" and L = "3 / 10", OF test_AdT1 test_V1]
        smult_near [OF vnear_refl [of 0]]]])
    (simp_all add: test_A_link test_dthetalist_def test_ddthetalist_def test_Glist_def asDiagonal6_def G1_def G2_def G3_def
      vadd_def vsub_def smult_def mv_6 mtranspose_def mcol_def ncols_def upt_conv_Cons ad_def VecToso3_def
      hcat_def Zero_3_3 Let_def AdT_rows)

lemma test_Vd2: "vnear (33 / 100000000) (test_Vd (2))
    [- (2207578579 / 1000000000), 3 / 2, 884222373 / 500000000, - (9527493729 / 1000000000), 3416577417 / 1000000000, - (1224470843 / 1000000000)]"
  unfolding test_Vd_steps(2)
  by (rule vnear_recentre [OF vadd_near [OF vadd_near [OF mv_near [where K = "8 / 5" and L = "83 / 5", OF test_AdT1 test_Vd1]
        smult_near [OF vnear_refl [of 0]]]
        smult_near [OF mv_near [where K = "1 / 2" and L = "13 / 10", OF ad_near [OF test_V2] vnear_refl [of 0]]]]])
    (simp_all add: test_A_link test_dthetalist_def test_ddthetalist_def test_Glist_def asDiagonal6_def G1_def G2_def G3_def
      vadd_def vsub_def smult_def mv_6 mtranspose_def mcol_def ncols_def upt_conv_Cons ad_def VecToso3_def
      hcat_def Zero_3_3 Let_def AdT_rows)

lemma test_V3: "vnear (13 / 1000000000) (test_V (3))
    [- (117873591 / 1000000000), 1 / 2, 3125589 / 40000000, 208313397 / 1000000000, 167086571 / 1000000000, 6661681 / 1000000000]"
  unfolding test_V_steps(3)
  by (rule vnear_recentre [OF vadd_near [OF mv_near [where K = "17 / 10" and L = "3 / 5", OF test_AdT2 test_V2]
        smult_near [OF vnear_refl [of 0]]]])
    (simp_all add: test_A_link test_dthetalist_def test_ddthetalist_def test_Glist_def asDiagonal6_def G1_def G2_def G3_def
      vadd_def vsub_def smult_def mv_6 mtranspose_def mcol_def ncols_def upt_conv_Cons ad_def VecToso3_def
      hcat_def Zero_3_3 Let_def AdT_rows)

lemma test_Vd3: "vnear (77 / 100000000) (test_Vd (3))
    [- (29956771 / 12500000), 5 / 2, 1503857699 / 1000000000, - (2083486417 / 250000000), 21679269 / 5000000, - (1838587819 / 1000000000)]"
  unfolding test_Vd_steps(3)
  by (rule vnear_recentre [OF vadd_near [OF vadd_near [OF mv_near [where K = "17 / 10" and L = "197 / 10", OF test_AdT2 test_Vd2]
        smult_near [OF vnear_refl [of 0]]]
        smult_near [OF mv_near [where K = "1" and L = "13 / 10", OF ad_near [OF test_V3] vnear_refl [of 0]]]]])
    (simp_all add: test_A_link test_dthetalist_def test_ddthetalist_def test_Glist_def asDiagonal6_def G1_def G2_def G3_def
      vadd_def vsub_def smult_def mv_6 mtranspose_def mcol_def ncols_def upt_conv_Cons ad_def VecToso3_def
      hcat_def Zero_3_3 Let_def AdT_rows)

lemma test_F1: "vnear (19 / 10000000) (test_F (Suc 0))
    [737485319 / 1000000000, 316360141 / 250000000, 1006158297 / 1000000000, - (17981851357 / 1000000000), 10902885237 / 1000000000, - (866137529 / 250000000)]"
  unfolding test_F_steps(1)
  by (rule vnear_recentre [OF vsub_near [OF vadd_near [
        OF mv_near [where K = "6 / 5" and L = "6", OF mtranspose_near [where n = 6, OF test_AdT3] test_F0]
        mv_near [where K = "23 / 10" and L = "21", OF mnear_refl [of 0] test_Vd3]]
        mv_near [where K = "1" and L = "1", OF mtranspose_near [where n = 6, OF ad_near [OF test_V3]]
          mv_near [where K = "23 / 10" and L = "11 / 10", OF mnear_refl [of 0] test_V3]]]])
    (simp_all add: test_A_link test_dthetalist_def test_ddthetalist_def test_Glist_def asDiagonal6_def G1_def G2_def G3_def
      vadd_def vsub_def smult_def mv_6 mtranspose_def mcol_def ncols_def upt_conv_Cons ad_def VecToso3_def
      hcat_def Zero_3_3 Let_def AdT_rows)

lemma test_F2: "vnear (1 / 156250) (test_F (2))
    [- (1882932397 / 500000000), - (553654583 / 100000000), - (956726667 / 1000000000), - (3932741161 / 40000000), 39597518679 / 1000000000, - (3028622977 / 250000000)]"
  unfolding test_F_steps(2)
  by (rule vnear_recentre [OF vsub_near [OF vadd_near [
        OF mv_near [where K = "17 / 10" and L = "177 / 5", OF mtranspose_near [where n = 6, OF test_AdT2] test_F1]
        mv_near [where K = "42 / 5" and L = "197 / 10", OF mnear_refl [of 0] test_Vd2]]
        mv_near [where K = "1 / 2" and L = "8 / 5", OF mtranspose_near [where n = 6, OF ad_near [OF test_V2]]
          mv_near [where K = "42 / 5" and L = "3 / 5", OF mnear_refl [of 0] test_V2]]]])
    (simp_all add: test_A_link test_dthetalist_def test_ddthetalist_def test_Glist_def asDiagonal6_def G1_def G2_def G3_def
      vadd_def vsub_def smult_def mv_6 mtranspose_def mcol_def ncols_def upt_conv_Cons ad_def VecToso3_def
      hcat_def Zero_3_3 Let_def AdT_rows)

lemma test_F3: "vnear (13 / 1000000) (test_F (3))
    [14005607309 / 1000000000, - (33067268169 / 1000000000), 15192527469 / 1000000000, - (2091198323 / 1000000000), 12487916873 / 250000000, 27029896021 / 200000000]"
  unfolding test_F_steps(3)
  by (rule vnear_recentre [OF vsub_near [OF vadd_near [
        OF mv_near [where K = "8 / 5" and L = "1603 / 10", OF mtranspose_near [where n = 6, OF test_AdT1] test_F2]
        mv_near [where K = "37 / 10" and L = "83 / 5", OF mnear_refl [of 0] test_Vd1]]
        mv_near [where K = "1 / 5" and L = "2 / 5", OF mtranspose_near [where n = 6, OF ad_near [OF test_V1]]
          mv_near [where K = "37 / 10" and L = "3 / 10", OF mnear_refl [of 0] test_V1]]]])
    (simp_all add: test_A_link test_dthetalist_def test_ddthetalist_def test_Glist_def asDiagonal6_def G1_def G2_def G3_def
      vadd_def vsub_def smult_def mv_6 mtranspose_def mcol_def ncols_def upt_conv_Cons ad_def VecToso3_def
      hcat_def Zero_3_3 Let_def AdT_rows)

lemma test_tau0:
  "\<bar>dot (test_F (3)) (test_A (0)) - (18674040387020193 / 250000000000000)\<bar> \<le> 37840933 / 1000000000000"
  using dot_near [OF test_F3 vnear_refl [of 0 "test_A (0)"]]
  by (simp add: test_A_link del: divide_le_eq_numeral1 le_divide_eq_numeral1)

lemma test_tau1:
  "\<bar>dot (test_F (2)) (test_A (Suc 0)) - (- (8266915040303343 / 250000000000000))\<bar> \<le> 1280159 / 156250000000"
  using dot_near [OF test_F2 vnear_refl [of 0 "test_A (Suc 0)"]]
  by (simp add: test_A_link del: divide_le_eq_numeral1 le_divide_eq_numeral1)

lemma test_tau2:
  "\<bar>dot (test_F (Suc 0)) (test_A (2)) - (- (807643284679611 / 250000000000000))\<bar> \<le> 23753021 / 10000000000000"
  using dot_near [OF test_F1 vnear_refl [of 0 "test_A (2)"]]
  by (simp add: test_A_link del: divide_le_eq_numeral1 le_divide_eq_numeral1)

text \<open>
  Claim C2.  On the three-joint chain of the validation harness (home transforms
  \<open>M01\<close> .. \<open>M34\<close>, diagonal spatial inertias \<open>G1\<close> .. \<open>G3\<close>, the given screw axes,
  \<open>\<theta> = (0.1, 0.1, 0.1)\<close>, \<open>d\<theta> = (0.1, 0.2, 0.3)\<close>, \<open>dd\<theta> = (2, 1.5, 1)\<close>,
  \<open>g = (0, 0, -9.8)\<close>, tip wrench of all ones) \<open>InverseDynamics\<close> returns three joint
  torques, and each of them differs from the corresponding entry of
  \<open>(74.6962, -33.0677, -3.23057)\<close> by at most \<open>10\<^sup>-\<^sup>4\<close> times the absolute value of that entry.
\<close>

theorem InverseDynamics_fixture:
  "list_all2 (\<lambda>x y. \<bar>x - y\<bar> \<le> 1 / 10000 * \<bar>y\<bar>)
     (InverseDynamics test_thetalist test_dthetalist test_ddthetalist test_g test_Ftip test_Mlist
        test_Glist test_Slist)
     [746962 / 10000, - (330677 / 10000), - (323057 / 100000)]"
proof -
  have len: "length test_thetalist = 3" by (simp add: test_thetalist_def)
  have e: "InverseDynamics test_thetalist test_dthetalist test_ddthetalist test_g test_Ftip test_Mlist
        test_Glist test_Slist
      = [dot (test_F 3) (test_A 0), dot (test_F 2) (test_A (Suc 0)), dot (test_F (Suc 0)) (test_A 2)]"
    unfolding InverseDynamics_closed len by (simp add: upt_conv_Cons numeral_2_eq_2)
  show ?thesis
    unfolding e using test_tau0 test_tau1 test_tau2
    by (simp del: divide_le_eq_numeral1 le_divide_eq_numeral1) (intro conjI; linarith)
qed

end
